theory Spec2Isabelle
  imports Main "HOL-Library.Word" "HOL-Library.Sublist"
begin

section \<open>Error codes and exceptions\<close>

text \<open>
  An \<open>HRESULT\<close> is a signed 32-bit value; \<open>FAILED(hr)\<close> is \<open>hr < 0\<close>. The values below
  are the standard COM codes the source names.
\<close>

type_synonym hresult = "32 word"

definition S_OK :: hresult where "S_OK = 0"
definition E_NOTIMPL :: hresult where "E_NOTIMPL = 0x80004001"
definition E_NOINTERFACE :: hresult where "E_NOINTERFACE = 0x80004002"
definition E_POINTER :: hresult where "E_POINTER = 0x80004003"
definition E_BOUNDS :: hresult where "E_BOUNDS = 0x8000000B"
definition E_INVALIDARG :: hresult where "E_INVALIDARG = 0x80070057"

definition FAILED :: "hresult \<Rightarrow> bool" where
  "FAILED hr = (sint hr < 0)"

text \<open>
  \<open>Strings::EffectWrongInputType\<close> is a format string taking the input index; the message
  built by \<open>message.Format(Strings::EffectWrongInputType, i)\<close> is kept as the constructor
  applied to that index.
\<close>

datatype message = EffectWrongInputType nat

text \<open>
  A thrown \<open>HResultException\<close> carries the code and, for \<open>ThrowHR(hr, message)\<close>, the
  message. \<open>AccessViolation\<close> is the outcome of calling through a null \<open>ComPtr\<close>.
\<close>

datatype exn = HResultException hresult "message option" | AccessViolation

text \<open>
  Modelled from the spec: the helpers \<open>ThrowHR\<close>, \<open>ThrowIfFailed\<close> and \<open>CheckInPointer\<close>
  are declared outside the source file. \<open>ThrowHR(hr)\<close> throws the code, \<open>ThrowIfFailed(hr)\<close>
  throws it when \<open>FAILED(hr)\<close>, \<open>CheckInPointer(p)\<close> throws \<open>E_INVALIDARG\<close> on a null pointer.
\<close>

definition ThrowHR :: "hresult \<Rightarrow> exn" where
  "ThrowHR hr = HResultException hr None"

definition ThrowIfFailed :: "hresult \<Rightarrow> exn option" where
  "ThrowIfFailed hr = (if FAILED hr then Some (ThrowHR hr) else None)"

section \<open>Data model\<close>

type_synonym addr = nat
type_synonym effect_id = nat
type_synonym device_identity = nat
type_synonym single = "32 word"

text \<open>Device resources are handles; an image is the output of an effect or a leaf bitmap.\<close>

type_synonym ID2D1Effect = nat

datatype ID2D1Image = EffectOutput ID2D1Effect | BitmapImage nat

datatype d2d_value =
    Value_UINT32 "32 word"
  | Value_FLOAT single
  | Value_MATRIX_4X4_F "single list"

text \<open>The calls made on the device side, in the order they are made.\<close>

datatype d2d_call =
    Call_CreateEffect nat effect_id ID2D1Effect
  | Call_SetValue ID2D1Effect nat d2d_value
  | Call_SetInputCount ID2D1Effect nat
  | Call_SetInput ID2D1Effect nat ID2D1Image
  | Call_Release ID2D1Effect

text \<open>
  The results of the device calls are not decided by the source: they are a parameter.
  The result of \<open>CreateEffect\<close> and of \<open>SetValue\<close> may depend on the calls made so far;
  the query of a resource for its image is answered the same way every time, as a query
  for an interface is.
\<close>

record d2d_runtime =
  CreateEffect_hr :: "d2d_call list \<Rightarrow> nat \<Rightarrow> effect_id \<Rightarrow> hresult"
  SetValue_hr :: "d2d_call list \<Rightarrow> ID2D1Effect \<Rightarrow> nat \<Rightarrow> d2d_value \<Rightarrow> hresult"
  As_ID2D1Image_hr :: "ID2D1Effect \<Rightarrow> hresult"

text \<open>
  A device context: its own identity, the result of querying its device for \<open>IUnknown\<close>,
  and the identity that query yields.
\<close>

record ID2D1DeviceContext =
  dc_ptr :: nat
  dc_identity_hr :: hresult
  dc_device :: device_identity

text \<open>
  \<open>IPropertyValue\<close>: a tagged value. The three tags the source dispatches on carry their
  payload; any other \<open>PropertyType\<close> is kept by its code.
\<close>

datatype IPropertyValue =
    PropertyValue_UInt32 "32 word"
  | PropertyValue_Single single
  | PropertyValue_SingleArray "single list"
  | PropertyValue_Other nat

text \<open>
  \<open>IEffectInput\<close>: what an input slot may refer to. \<open>EffectInput a\<close> is the effect node
  at address \<open>a\<close>. \<open>ForeignInput hr\<close> is an object whose \<open>QueryInterface\<close> for
  \<open>ICanvasImageInternal\<close> returns \<open>hr\<close> and no interface.

  Modelled from the spec: the other implementers of \<open>ICanvasImageInternal\<close> (bitmaps and
  the like) are outside the source file; \<open>ImageInput res\<close> is such an object, whose
  \<open>GetD2DImage\<close> yields \<open>res\<close> and touches no effect node.
\<close>

datatype IEffectInput =
    EffectInput addr
  | ImageInput "exn + ID2D1Image"
  | ForeignInput hresult

text \<open>
  Modelled from the spec: the \<open>Vector\<close> collection is declared outside the source file.
  It holds the slots (a null slot is \<open>None\<close>), one changed flag for the whole sequence,
  and whether its size is fixed. A new vector has \<open>size\<close> null slots and is unchanged;
  every write through \<open>SetAt\<close> marks the whole sequence changed.
\<close>

record 'a Vector =
  InternalVector :: "'a option list"
  IsChanged :: bool
  isFixedSize :: bool

definition Make_Vector :: "nat \<Rightarrow> bool \<Rightarrow> 'a Vector" where
  "Make_Vector n fixed =
     \<lparr>InternalVector = replicate n None, IsChanged = False, isFixedSize = fixed\<rparr>"

definition SetChanged :: "bool \<Rightarrow> 'a Vector \<Rightarrow> 'a Vector" where
  "SetChanged b v = v\<lparr>IsChanged := b\<rparr>"

definition SetAt :: "nat \<Rightarrow> 'a option \<Rightarrow> 'a Vector \<Rightarrow> hresult \<times> 'a Vector" where
  "SetAt index item v =
     (if index < length (InternalVector v)
      then (S_OK, v\<lparr>InternalVector := (InternalVector v)[index := item], IsChanged := True\<rparr>)
      else (E_BOUNDS, v))"

record CanvasEffect =
  m_effectId :: effect_id
  m_properties :: "IPropertyValue Vector"
  m_inputs :: "IEffectInput Vector"
  m_previousDeviceIdentity :: "device_identity option"
  m_resource :: "ID2D1Effect option"

text \<open>
  The world: the effect nodes by address, the device calls made so far, and the next
  resource handle the device hands out.
\<close>

record world =
  nodes :: "addr \<Rightarrow> CanvasEffect"
  d2d_log :: "d2d_call list"
  next_effect :: ID2D1Effect

definition put :: "addr \<Rightarrow> (CanvasEffect \<Rightarrow> CanvasEffect) \<Rightarrow> world \<Rightarrow> world" where
  "put a f w = w\<lparr>nodes := (nodes w)(a := f (nodes w a))\<rparr>"

definition emit :: "d2d_call \<Rightarrow> world \<Rightarrow> world" where
  "emit c w = w\<lparr>d2d_log := d2d_log w @ [c]\<rparr>"

section \<open>Construction\<close>

text \<open>
  \<open>CanvasEffect::CanvasEffect\<close> (lines 18-31). The two vectors are made, the inputs are
  marked changed, and the property-value factory is fetched; \<open>factory_hr\<close> is the result
  of \<open>GetActivationFactory\<close>. The identity and the resource start null.
\<close>

definition CanvasEffect_ctor :: "effect_id \<Rightarrow> nat \<Rightarrow> nat \<Rightarrow> bool \<Rightarrow> hresult \<Rightarrow> exn + CanvasEffect" where
  "CanvasEffect_ctor effectId propertiesSize inputSize isInputSizeFixed factory_hr =
     (let properties = Make_Vector propertiesSize True;
          inputs = SetChanged True (Make_Vector inputSize isInputSizeFixed)
      in case ThrowIfFailed factory_hr of
           Some e \<Rightarrow> Inl e
         | None \<Rightarrow> Inr \<lparr>m_effectId = effectId, m_properties = properties, m_inputs = inputs,
                        m_previousDeviceIdentity = None, m_resource = None\<rparr>)"

section \<open>Property marshalling\<close>

text \<open>\<open>m_resource->SetValue(i, value)\<close> under \<open>ThrowIfFailed\<close>.\<close>

definition SetValue :: "d2d_runtime \<Rightarrow> addr \<Rightarrow> nat \<Rightarrow> d2d_value \<Rightarrow> world \<Rightarrow> exn option \<times> world" where
  "SetValue D a i v w =
     (case m_resource (nodes w a) of
        None \<Rightarrow> (Some AccessViolation, w)
      | Some r \<Rightarrow> (ThrowIfFailed (SetValue_hr D (d2d_log w) r i v), emit (Call_SetValue r i v) w))"

text \<open>The body of the loop of \<open>CanvasEffect::SetProperties\<close> (lines 169-224) for slot \<open>i\<close>.\<close>

fun SetProperty :: "d2d_runtime \<Rightarrow> addr \<Rightarrow> nat \<Rightarrow> IPropertyValue option \<Rightarrow> world \<Rightarrow> exn option \<times> world" where
  "SetProperty D a i None w = (Some (ThrowHR E_POINTER), w)"
| "SetProperty D a i (Some (PropertyValue_UInt32 v)) w = SetValue D a i (Value_UINT32 v) w"
| "SetProperty D a i (Some (PropertyValue_Single v)) w = SetValue D a i (Value_FLOAT v) w"
| "SetProperty D a i (Some (PropertyValue_SingleArray vs)) w =
     (if length vs = 16 then SetValue D a i (Value_MATRIX_4X4_F vs) w
      else (Some (ThrowHR E_NOTIMPL), w))"
| "SetProperty D a i (Some (PropertyValue_Other t)) w = (Some (ThrowHR E_NOTIMPL), w)"

fun SetProperties_from :: "d2d_runtime \<Rightarrow> addr \<Rightarrow> nat \<Rightarrow> IPropertyValue option list \<Rightarrow> world \<Rightarrow> exn option \<times> world" where
  "SetProperties_from D a i [] w = (None, w)"
| "SetProperties_from D a i (p # ps) w =
     (case SetProperty D a i p w of
        (Some e, w') \<Rightarrow> (Some e, w')
      | (None, w') \<Rightarrow> SetProperties_from D a (Suc i) ps w')"

text \<open>\<open>CanvasEffect::SetProperties\<close> (lines 162-226).\<close>

definition SetProperties :: "d2d_runtime \<Rightarrow> addr \<Rightarrow> world \<Rightarrow> exn option \<times> world" where
  "SetProperties D a w =
     SetProperties_from D a 0 (InternalVector (m_properties (nodes w a))) w"

section \<open>Realization\<close>

text \<open>
  Indices and sizes are \<open>unsigned int\<close> in the source and naturals here; the two agree
  for vectors of fewer than \<open>2^32\<close> slots. The getters of a property value (\<open>get_Type\<close>,
  \<open>GetUInt32\<close>, \<open>GetSingle\<close>, \<open>GetSingleArray\<close>) succeed on a value of their own tag, so a
  property value is the tagged value itself. The result of \<open>SetInputCount\<close> is not looked at
  by the source and \<open>SetInput\<close> on the resource returns nothing: both are calls only. The
  loop over the inputs reads the slots once, at its start: no call of \<open>GetD2DImage\<close> writes
  a slot. Every use of \<open>m_resource->\<close> reads the pointer the node holds at that moment.
\<close>

text \<open>
  \<open>m_resource.Reset()\<close>: a held resource is released and the pointer is null afterwards.
\<close>

definition Reset_resource :: "addr \<Rightarrow> world \<Rightarrow> world" where
  "Reset_resource a w =
     (case m_resource (nodes w a) of
        None \<Rightarrow> w
      | Some r \<Rightarrow> emit (Call_Release r) (put a (\<lambda>e. e\<lparr>m_resource := None\<rparr>) w))"

text \<open>
  Lines 42-55 of \<open>CanvasEffect::GetD2DImage\<close>: the device identity is compared with the
  stored one. The result is \<open>wasRecreated\<close>.
\<close>

definition CheckDevice :: "ID2D1DeviceContext \<Rightarrow> addr \<Rightarrow> world \<Rightarrow> (exn + bool) \<times> world" where
  "CheckDevice deviceContext a w =
     (case ThrowIfFailed (dc_identity_hr deviceContext) of
        Some e \<Rightarrow> (Inl e, w)
      | None \<Rightarrow>
          (let deviceIdentity = Some (dc_device deviceContext)
           in if deviceIdentity \<noteq> m_previousDeviceIdentity (nodes w a)
              then (Inr True,
                    Reset_resource a (put a (\<lambda>e. e\<lparr>m_previousDeviceIdentity := deviceIdentity\<rparr>) w))
              else (Inr False, w)))"

text \<open>Lines 57-60: the resource is created if the pointer is null.\<close>

definition CreateResource :: "d2d_runtime \<Rightarrow> ID2D1DeviceContext \<Rightarrow> addr \<Rightarrow> world \<Rightarrow> exn option \<times> world" where
  "CreateResource D deviceContext a w =
     (case m_resource (nodes w a) of
        Some r \<Rightarrow> (None, w)
      | None \<Rightarrow>
          (let effectId = m_effectId (nodes w a);
               hr = CreateEffect_hr D (d2d_log w) (dc_ptr deviceContext) effectId;
               r = next_effect w;
               w' = emit (Call_CreateEffect (dc_ptr deviceContext) effectId r) w
           in if FAILED hr then (Some (ThrowHR hr), w')
              else (None, put a (\<lambda>e. e\<lparr>m_resource := Some r\<rparr>) (w'\<lparr>next_effect := Suc r\<rparr>))))"

text \<open>Lines 62-67: the properties are applied if the resource was recreated or they changed.\<close>

definition UpdateProperties :: "d2d_runtime \<Rightarrow> bool \<Rightarrow> addr \<Rightarrow> world \<Rightarrow> exn option \<times> world" where
  "UpdateProperties D wasRecreated a w =
     (if wasRecreated \<or> IsChanged (m_properties (nodes w a))
      then (case SetProperties D a w of
              (Some e, w') \<Rightarrow> (Some e, w')
            | (None, w') \<Rightarrow> (None, put a (\<lambda>e. e\<lparr>m_properties := SetChanged False (m_properties e)\<rparr>) w'))
      else (None, w))"

text \<open>Lines 39-67 in sequence; a throw stops there with the world as it then is.\<close>

definition Prepare :: "d2d_runtime \<Rightarrow> ID2D1DeviceContext \<Rightarrow> addr \<Rightarrow> world \<Rightarrow> (exn + bool) \<times> world" where
  "Prepare D deviceContext a w =
     (case CheckDevice deviceContext a w of
        (Inl e, w1) \<Rightarrow> (Inl e, w1)
      | (Inr wasRecreated, w1) \<Rightarrow>
          (case CreateResource D deviceContext a w1 of
             (Some e, w2) \<Rightarrow> (Inl e, w2)
           | (None, w2) \<Rightarrow>
               (case UpdateProperties D wasRecreated a w2 of
                  (Some e, w3) \<Rightarrow> (Inl e, w3)
                | (None, w3) \<Rightarrow> (Inr wasRecreated, w3))))"

text \<open>\<open>inputs[i].As(&internalInput)\<close>: the result of the interface query.\<close>

fun As_ICanvasImageInternal :: "IEffectInput \<Rightarrow> hresult" where
  "As_ICanvasImageInternal (EffectInput b) = S_OK"
| "As_ICanvasImageInternal (ImageInput res) = S_OK"
| "As_ICanvasImageInternal (ForeignInput hr) = hr"

text \<open>Lines 99-101: the resource is queried for its image.\<close>

definition As_ID2D1Image :: "d2d_runtime \<Rightarrow> addr \<Rightarrow> world \<Rightarrow> (exn + ID2D1Image) \<times> world" where
  "As_ID2D1Image D a w =
     (case m_resource (nodes w a) of
        None \<Rightarrow> (Inl AccessViolation, w)
      | Some r \<Rightarrow>
          (case ThrowIfFailed (As_ID2D1Image_hr D r) of
             Some e \<Rightarrow> (Inl e, w)
           | None \<Rightarrow> (Inr (EffectOutput r), w)))"

text \<open>
  \<open>CanvasEffect::GetD2DImage\<close> (lines 37-102) on the node at address \<open>a\<close>, and the loop over
  the input slots (lines 75-95) from index \<open>i\<close>. Realizing an input calls \<open>GetD2DImage\<close> on
  the node it refers to, so the recursion follows the graph and need not end on a cyclic
  one: the first argument bounds the depth of nested calls, and \<open>None\<close> is the answer when
  the bound is reached.
\<close>

fun GetD2DImage :: "d2d_runtime \<Rightarrow> nat \<Rightarrow> addr \<Rightarrow> ID2D1DeviceContext option \<Rightarrow> world
      \<Rightarrow> ((exn + ID2D1Image) \<times> world) option"
and SetInputs :: "d2d_runtime \<Rightarrow> nat \<Rightarrow> addr \<Rightarrow> ID2D1DeviceContext \<Rightarrow> nat \<Rightarrow> IEffectInput option list \<Rightarrow> world
      \<Rightarrow> (exn option \<times> world) option" where
  "GetD2DImage D 0 a dco w = None"
| "GetD2DImage D (Suc n) a None w = Some (Inl (ThrowHR E_INVALIDARG), w)"
| "GetD2DImage D (Suc n) a (Some deviceContext) w =
     (case Prepare D deviceContext a w of
        (Inl e, w1) \<Rightarrow> Some (Inl e, w1)
      | (Inr wasRecreated, w1) \<Rightarrow>
          if wasRecreated \<or> IsChanged (m_inputs (nodes w1 a))
          then (case m_resource (nodes w1 a) of
                  None \<Rightarrow> Some (Inl AccessViolation, w1)
                | Some r \<Rightarrow>
                    (let inputs = InternalVector (m_inputs (nodes w1 a))
                     in case SetInputs D n a deviceContext 0 inputs
                               (emit (Call_SetInputCount r (length inputs)) w1) of
                          None \<Rightarrow> None
                        | Some (Some e, w2) \<Rightarrow> Some (Inl e, w2)
                        | Some (None, w2) \<Rightarrow>
                            Some (As_ID2D1Image D a
                                    (put a (\<lambda>e. e\<lparr>m_inputs := SetChanged False (m_inputs e)\<rparr>) w2))))
          else Some (As_ID2D1Image D a w1))"
| "SetInputs D n a deviceContext i [] w = Some (None, w)"
| "SetInputs D n a deviceContext i (None # rest) w = Some (Some (ThrowHR E_POINTER), w)"
| "SetInputs D n a deviceContext i (Some input # rest) w =
     (let hr = As_ICanvasImageInternal input
      in if hr = E_NOINTERFACE
         then Some (Some (HResultException hr (Some (EffectWrongInputType i))), w)
         else (case ThrowIfFailed hr of
                 Some e \<Rightarrow> Some (Some e, w)
               | None \<Rightarrow>
                   (case (case input of
                            EffectInput b \<Rightarrow> GetD2DImage D n b (Some deviceContext) w
                          | ImageInput res \<Rightarrow> Some (res, w)
                          | ForeignInput h \<Rightarrow> Some (Inl AccessViolation, w)) of
                      None \<Rightarrow> None
                    | Some (Inl e, w') \<Rightarrow> Some (Some e, w')
                    | Some (Inr img, w') \<Rightarrow>
                        (case m_resource (nodes w' a) of
                           None \<Rightarrow> Some (Some AccessViolation, w')
                         | Some r \<Rightarrow>
                             SetInputs D n a deviceContext (Suc i) rest
                               (emit (Call_SetInput r i img) w')))))"

text \<open>
  The same two functions, returning in addition the record of the calls of
  \<open>GetD2DImage\<close> that returned during the call, in the order of their return: for each
  the node it was called on, the context it was given, its result, and the device calls
  made between its entry and its return. The call itself is the last entry. Nothing else
  differs from the definition above.
\<close>

record realization =
  rz_node :: addr
  rz_context :: "ID2D1DeviceContext option"
  rz_result :: "exn + ID2D1Image"
  rz_calls :: "d2d_call list"

definition returned :: "addr \<Rightarrow> ID2D1DeviceContext option \<Rightarrow> world \<Rightarrow> realization list
      \<Rightarrow> (exn + ID2D1Image) \<times> world \<Rightarrow> (exn + ID2D1Image) \<times> world \<times> realization list" where
  "returned a dco w tr out =
     (fst out, snd out,
      tr @ [\<lparr>rz_node = a, rz_context = dco, rz_result = fst out,
              rz_calls = drop (length (d2d_log w)) (d2d_log (snd out))\<rparr>])"

fun GetD2DImage_traced :: "d2d_runtime \<Rightarrow> nat \<Rightarrow> addr \<Rightarrow> ID2D1DeviceContext option \<Rightarrow> world
      \<Rightarrow> ((exn + ID2D1Image) \<times> world \<times> realization list) option"
and SetInputs_traced :: "d2d_runtime \<Rightarrow> nat \<Rightarrow> addr \<Rightarrow> ID2D1DeviceContext \<Rightarrow> nat \<Rightarrow> IEffectInput option list \<Rightarrow> world
      \<Rightarrow> (exn option \<times> world \<times> realization list) option" where
  "GetD2DImage_traced D 0 a dco w = None"
| "GetD2DImage_traced D (Suc n) a None w =
     Some (returned a None w [] (Inl (ThrowHR E_INVALIDARG), w))"
| "GetD2DImage_traced D (Suc n) a (Some deviceContext) w =
     (case Prepare D deviceContext a w of
        (Inl e, w1) \<Rightarrow> Some (returned a (Some deviceContext) w [] (Inl e, w1))
      | (Inr wasRecreated, w1) \<Rightarrow>
          if wasRecreated \<or> IsChanged (m_inputs (nodes w1 a))
          then (case m_resource (nodes w1 a) of
                  None \<Rightarrow> Some (returned a (Some deviceContext) w [] (Inl AccessViolation, w1))
                | Some r \<Rightarrow>
                    (let inputs = InternalVector (m_inputs (nodes w1 a))
                     in case SetInputs_traced D n a deviceContext 0 inputs
                               (emit (Call_SetInputCount r (length inputs)) w1) of
                          None \<Rightarrow> None
                        | Some (Some e, w2, tr) \<Rightarrow>
                            Some (returned a (Some deviceContext) w tr (Inl e, w2))
                        | Some (None, w2, tr) \<Rightarrow>
                            Some (returned a (Some deviceContext) w tr
                                    (As_ID2D1Image D a
                                       (put a (\<lambda>e. e\<lparr>m_inputs := SetChanged False (m_inputs e)\<rparr>) w2)))))
          else Some (returned a (Some deviceContext) w [] (As_ID2D1Image D a w1)))"
| "SetInputs_traced D n a deviceContext i [] w = Some (None, w, [])"
| "SetInputs_traced D n a deviceContext i (None # rest) w = Some (Some (ThrowHR E_POINTER), w, [])"
| "SetInputs_traced D n a deviceContext i (Some input # rest) w =
     (let hr = As_ICanvasImageInternal input
      in if hr = E_NOINTERFACE
         then Some (Some (HResultException hr (Some (EffectWrongInputType i))), w, [])
         else (case ThrowIfFailed hr of
                 Some e \<Rightarrow> Some (Some e, w, [])
               | None \<Rightarrow>
                   (case (case input of
                            EffectInput b \<Rightarrow> GetD2DImage_traced D n b (Some deviceContext) w
                          | ImageInput res \<Rightarrow> Some (res, w, [])
                          | ForeignInput h \<Rightarrow> Some (Inl AccessViolation, w, [])) of
                      None \<Rightarrow> None
                    | Some (Inl e, w', tr) \<Rightarrow> Some (Some e, w', tr)
                    | Some (Inr img, w', tr) \<Rightarrow>
                        (case m_resource (nodes w' a) of
                           None \<Rightarrow> Some (Some AccessViolation, w', tr)
                         | Some r \<Rightarrow>
                             (case SetInputs_traced D n a deviceContext (Suc i) rest
                                     (emit (Call_SetInput r i img) w') of
                                None \<Rightarrow> None
                              | Some (res, w'', tr') \<Rightarrow> Some (res, w'', tr @ tr'))))))"

text \<open>A traced result without its record.\<close>

definition untraced :: "('a \<times> world \<times> realization list) option \<Rightarrow> ('a \<times> world) option" where
  "untraced out = map_option (\<lambda>(res, w, tr). (res, w)) out"

section \<open>Close and the input setter\<close>

text \<open>\<open>CanvasEffect::Close\<close> (lines 108-112).\<close>

definition Close :: "addr \<Rightarrow> world \<Rightarrow> hresult \<times> world" where
  "Close a w = (S_OK, Reset_resource a w)"

text \<open>
  \<open>CanvasEffect::SetInput\<close> (lines 153-160): a null input is refused, the reference
  (which is an \<open>IEffectInput\<close>, so that its query for that interface succeeds) is stored
  through the vector's \<open>SetAt\<close>.
\<close>

definition SetInput :: "addr \<Rightarrow> nat \<Rightarrow> IEffectInput option \<Rightarrow> world \<Rightarrow> exn option \<times> world" where
  "SetInput a index input w =
     (case input of
        None \<Rightarrow> (Some (ThrowHR E_INVALIDARG), w)
      | Some x \<Rightarrow>
          (case SetAt index (Some x) (m_inputs (nodes w a)) of
             (hr, v) \<Rightarrow>
               (case ThrowIfFailed hr of
                  Some e \<Rightarrow> (Some e, w)
                | None \<Rightarrow> (None, put a (\<lambda>e. e\<lparr>m_inputs := v\<rparr>) w))))"

text \<open>
  \<open>CanvasEffect::get_Properties\<close> (lines 136-144) hands out the live vector; a property is
  written through its \<open>SetAt\<close>.
\<close>

definition Properties_SetAt :: "addr \<Rightarrow> nat \<Rightarrow> IPropertyValue option \<Rightarrow> world \<Rightarrow> hresult \<times> world" where
  "Properties_SetAt a index item w =
     (case SetAt index item (m_properties (nodes w a)) of
        (hr, v) \<Rightarrow> (hr, put a (\<lambda>e. e\<lparr>m_properties := v\<rparr>) w))"

section \<open>Notions used to state the properties\<close>

text \<open>
  The encoding table of the marshalling step, as the specification words it: an unsigned
  integer and a float pass through, a float array of length 16 is a 4x4 matrix, and
  nothing else has an encoding.
\<close>

fun spec_encoding :: "IPropertyValue option \<Rightarrow> d2d_value option" where
  "spec_encoding None = None"
| "spec_encoding (Some (PropertyValue_UInt32 v)) = Some (Value_UINT32 v)"
| "spec_encoding (Some (PropertyValue_Single v)) = Some (Value_FLOAT v)"
| "spec_encoding (Some (PropertyValue_SingleArray vs)) =
     (if length vs = 16 then Some (Value_MATRIX_4X4_F vs) else None)"
| "spec_encoding (Some (PropertyValue_Other t)) = None"

text \<open>
  What every call of \<open>GetD2DImage\<close> with a context of device \<open>dev\<close> does to a node, whichever
  node is being realized: the slots stay as they are, a node already bound to \<open>dev\<close> keeps
  its identity and its resource, a changed flag is never set, and a flag is cleared only
  when every slot it covers was applied.
\<close>

definition node_advances :: "device_identity \<Rightarrow> CanvasEffect \<Rightarrow> CanvasEffect \<Rightarrow> bool" where
  "node_advances dev e e' \<longleftrightarrow>
     m_effectId e' = m_effectId e \<and>
     InternalVector (m_properties e') = InternalVector (m_properties e) \<and>
     InternalVector (m_inputs e') = InternalVector (m_inputs e) \<and>
     (m_previousDeviceIdentity e = Some dev \<longrightarrow>
        m_previousDeviceIdentity e' = Some dev \<and>
        (m_resource e \<noteq> None \<longrightarrow> m_resource e' = m_resource e)) \<and>
     (IsChanged (m_properties e') \<longrightarrow> IsChanged (m_properties e)) \<and>
     (IsChanged (m_inputs e') \<longrightarrow> IsChanged (m_inputs e)) \<and>
     (IsChanged (m_properties e) \<and> \<not> IsChanged (m_properties e') \<longrightarrow>
        list_all (\<lambda>p. spec_encoding p \<noteq> None) (InternalVector (m_properties e))) \<and>
     (IsChanged (m_inputs e) \<and> \<not> IsChanged (m_inputs e') \<longrightarrow>
        None \<notin> set (InternalVector (m_inputs e)))"

definition advances :: "device_identity \<Rightarrow> world \<Rightarrow> world \<Rightarrow> bool" where
  "advances dev w w' \<longleftrightarrow>
     (\<forall>c. node_advances dev (nodes w c) (nodes w' c)) \<and>
     prefix (d2d_log w) (d2d_log w') \<and>
     next_effect w \<le> next_effect w'"

text \<open>
  A node whose vectors were written only through the collection: a slot that cannot be
  applied (an empty input slot, a property with no encoding) is there only while the
  changed flag of its vector is set. A new node has it, and every operation keeps it.
\<close>

definition tracked :: "CanvasEffect \<Rightarrow> bool" where
  "tracked e \<longleftrightarrow>
     (IsChanged (m_properties e) \<or>
        list_all (\<lambda>p. p = None \<or> spec_encoding p \<noteq> None) (InternalVector (m_properties e))) \<and>
     (IsChanged (m_inputs e) \<or> None \<notin> set (InternalVector (m_inputs e)))"

text \<open>
  The node after a realization that left it bound to \<open>dev\<close> with nothing pending.
\<close>

definition settled :: "d2d_runtime \<Rightarrow> device_identity \<Rightarrow> ID2D1Effect \<Rightarrow> CanvasEffect \<Rightarrow> bool" where
  "settled D dev r e \<longleftrightarrow>
     m_previousDeviceIdentity e = Some dev \<and> m_resource e = Some r \<and>
     \<not> IsChanged (m_properties e) \<and> \<not> IsChanged (m_inputs e) \<and>
     \<not> FAILED (As_ID2D1Image_hr D r)"

text \<open>
  The graph of the nodes is acyclic: a rank decreases along every reference from an input
  slot to a node.
\<close>

definition upstream_ranked :: "(addr \<Rightarrow> nat) \<Rightarrow> world \<Rightarrow> bool" where
  "upstream_ranked rank w \<longleftrightarrow>
     (\<forall>b c. Some (EffectInput c) \<in> set (InternalVector (m_inputs (nodes w b)))
        \<longrightarrow> rank c < rank b)"

text \<open>
  A set of nodes that contains every node an input slot of one of its nodes refers to.
\<close>

definition upstream_closed :: "addr set \<Rightarrow> world \<Rightarrow> bool" where
  "upstream_closed S w \<longleftrightarrow>
     (\<forall>c\<in>S. \<forall>b. Some (EffectInput b) \<in> set (InternalVector (m_inputs (nodes w c))) \<longrightarrow> b \<in> S)"

text \<open>
  In the call of \<open>GetD2DImage\<close> on node \<open>a\<close> from world \<open>w\<close>, the properties-apply step
  (lines 63-67) ran and \<open>SetProperties\<close> returned without a throw; and the same for the
  inputs-apply step (lines 70-97) and its loop, the nested calls having depth \<open>n\<close>.
\<close>

definition properties_step_completed :: "d2d_runtime \<Rightarrow> ID2D1DeviceContext \<Rightarrow> addr \<Rightarrow> world \<Rightarrow> bool" where
  "properties_step_completed D deviceContext a w =
     (case CheckDevice deviceContext a w of
        (Inl e, w1) \<Rightarrow> False
      | (Inr wasRecreated, w1) \<Rightarrow>
          (case CreateResource D deviceContext a w1 of
             (Some e, w2) \<Rightarrow> False
           | (None, w2) \<Rightarrow>
               (wasRecreated \<or> IsChanged (m_properties (nodes w2 a))) \<and>
               fst (SetProperties D a w2) = None))"

definition inputs_step_completed :: "d2d_runtime \<Rightarrow> nat \<Rightarrow> ID2D1DeviceContext \<Rightarrow> addr \<Rightarrow> world \<Rightarrow> bool" where
  "inputs_step_completed D n deviceContext a w =
     (case Prepare D deviceContext a w of
        (Inl e, w1) \<Rightarrow> False
      | (Inr wasRecreated, w1) \<Rightarrow>
          (wasRecreated \<or> IsChanged (m_inputs (nodes w1 a))) \<and>
          (case m_resource (nodes w1 a) of
             None \<Rightarrow> False
           | Some r \<Rightarrow>
               (case SetInputs D n a deviceContext 0 (InternalVector (m_inputs (nodes w1 a)))
                       (emit (Call_SetInputCount r (length (InternalVector (m_inputs (nodes w1 a))))) w1) of
                  None \<Rightarrow> False
                | Some (Some e, w2) \<Rightarrow> False
                | Some (None, w2) \<Rightarrow> True)))"

text \<open>
  The \<open>SetValue\<close> calls that apply the property slots \<open>ps\<close>, from index \<open>j\<close>, to resource
  \<open>r\<close>: one call for each slot, with the encoding of its value, in the order of the slots.
\<close>

fun property_calls :: "ID2D1Effect \<Rightarrow> nat \<Rightarrow> IPropertyValue option list \<Rightarrow> d2d_call list" where
  "property_calls r j [] = []"
| "property_calls r j (p # ps) =
     (case spec_encoding p of
        None \<Rightarrow> property_calls r (Suc j) ps
      | Some v \<Rightarrow> Call_SetValue r j v # property_calls r (Suc j) ps)"

text \<open>
  The device calls \<open>calls\<close> bind the input slots \<open>xs\<close>, from index \<open>j\<close>, on resource \<open>r\<close>,
  and nothing else happens on the device: for a slot that holds a leaf image, the one call
  is \<open>SetInput\<close> with that image at the index of the slot; for a slot that refers to a node
  \<open>b\<close>, the calls are those of a realization of \<open>b\<close> with the context \<open>ctx\<close> that is in the
  record \<open>tr\<close> and returned an image, followed by \<open>SetInput\<close> with the image it returned at
  the index of the slot.
\<close>

inductive slots_bound :: "ID2D1DeviceContext \<Rightarrow> ID2D1Effect \<Rightarrow> realization list \<Rightarrow> nat
      \<Rightarrow> IEffectInput option list \<Rightarrow> d2d_call list \<Rightarrow> bool"
  for ctx :: ID2D1DeviceContext and r :: ID2D1Effect and tr :: "realization list" where
  no_slot: "slots_bound ctx r tr j [] []"
| leaf_slot:
    "slots_bound ctx r tr (Suc j) rest calls
     \<Longrightarrow> slots_bound ctx r tr j (Some (ImageInput (Inr img)) # rest) (Call_SetInput r j img # calls)"
| node_slot:
    "\<lparr>rz_node = b, rz_context = Some ctx, rz_result = Inr img, rz_calls = inner\<rparr> \<in> set tr
     \<Longrightarrow> slots_bound ctx r tr (Suc j) rest calls
     \<Longrightarrow> slots_bound ctx r tr j (Some (EffectInput b) # rest) (inner @ Call_SetInput r j img # calls)"

text \<open>
  The device calls \<open>calls\<close> re-apply everything of node \<open>e\<close> to resource \<open>r\<close>: they are the
  \<open>SetValue\<close> calls of all the property slots, each of which has an encoding, then
  \<open>SetInputCount\<close> with the number of input slots, then the calls that bind all the input
  slots, the nodes among them realized with the context \<open>ctx\<close>.
\<close>

definition reapplied :: "ID2D1DeviceContext \<Rightarrow> ID2D1Effect \<Rightarrow> CanvasEffect \<Rightarrow> realization list
      \<Rightarrow> d2d_call list \<Rightarrow> bool" where
  "reapplied ctx r e tr calls \<longleftrightarrow>
     list_all (\<lambda>p. spec_encoding p \<noteq> None) (InternalVector (m_properties e)) \<and>
     (\<exists>icalls.
        calls = property_calls r 0 (InternalVector (m_properties e))
                  @ Call_SetInputCount r (length (InternalVector (m_inputs e))) # icalls \<and>
        slots_bound ctx r tr 0 (InternalVector (m_inputs e)) icalls)"

text \<open>
  Conditions under which a realization cannot fail: no device call fails; every property
  slot of every node has an encoding, and every input slot of every node holds a node or
  a leaf that yields its image.
\<close>

definition reliable :: "d2d_runtime \<Rightarrow> bool" where
  "reliable D \<longleftrightarrow>
     (\<forall>h c k. \<not> FAILED (CreateEffect_hr D h c k)) \<and>
     (\<forall>h r i v. \<not> FAILED (SetValue_hr D h r i v)) \<and>
     (\<forall>r. \<not> FAILED (As_ID2D1Image_hr D r))"

fun valid_input :: "IEffectInput option \<Rightarrow> bool" where
  "valid_input (Some (EffectInput b)) = True"
| "valid_input (Some (ImageInput (Inr img))) = True"
| "valid_input x = False"

definition applicable :: "CanvasEffect \<Rightarrow> bool" where
  "applicable e \<longleftrightarrow>
     list_all (\<lambda>p. spec_encoding p \<noteq> None) (InternalVector (m_properties e)) \<and>
     list_all valid_input (InternalVector (m_inputs e))"

section \<open>Scenarios\<close>

text \<open>
  What a test observes of a call: its result, the node it was made on, the device calls.
\<close>

definition observe :: "addr \<Rightarrow> ((exn + ID2D1Image) \<times> world) option
      \<Rightarrow> ((exn + ID2D1Image) \<times> CanvasEffect \<times> d2d_call list) option" where
  "observe a out = map_option (\<lambda>(res, w). (res, nodes w a, d2d_log w)) out"

text \<open>A sequence of calls on the public surface, run one after the other.\<close>

datatype action =
    Act_GetD2DImage addr ID2D1DeviceContext
  | Act_Close addr
  | Act_SetInput addr nat IEffectInput
  | Act_SetProperty addr nat IPropertyValue

fun perform :: "d2d_runtime \<Rightarrow> nat \<Rightarrow> action \<Rightarrow> world \<Rightarrow> world" where
  "perform D fuel (Act_GetD2DImage a dc) w =
     (case GetD2DImage D fuel a (Some dc) w of None \<Rightarrow> w | Some (res, w') \<Rightarrow> w')"
| "perform D fuel (Act_Close a) w = snd (Close a w)"
| "perform D fuel (Act_SetInput a i x) w = snd (SetInput a i (Some x) w)"
| "perform D fuel (Act_SetProperty a i v) w = snd (Properties_SetAt a i (Some v) w)"

fun run :: "d2d_runtime \<Rightarrow> nat \<Rightarrow> action list \<Rightarrow> world \<Rightarrow> world" where
  "run D fuel [] w = w"
| "run D fuel (act # acts) w = run D fuel acts (perform D fuel act w)"

text \<open>A device on which no call fails, two contexts of device 1 and one of device 2.\<close>

definition D_ok :: d2d_runtime where
  "D_ok = \<lparr>CreateEffect_hr = (\<lambda>h c k. S_OK), SetValue_hr = (\<lambda>h r i v. S_OK),
           As_ID2D1Image_hr = (\<lambda>r. S_OK)\<rparr>"

definition dcA :: ID2D1DeviceContext where
  "dcA = \<lparr>dc_ptr = 100, dc_identity_hr = S_OK, dc_device = 1\<rparr>"

definition dcA' :: ID2D1DeviceContext where
  "dcA' = \<lparr>dc_ptr = 101, dc_identity_hr = S_OK, dc_device = 1\<rparr>"

definition dcB :: ID2D1DeviceContext where
  "dcB = \<lparr>dc_ptr = 200, dc_identity_hr = S_OK, dc_device = 2\<rparr>"

text \<open>
  New nodes, as the constructor makes them: every address holds a node without slots,
  address 0 a node with one property and one input, address 1 a node with one property,
  address 2 a node with two properties and two inputs.
\<close>

definition new_world :: world where
  "new_world =
     \<lparr>nodes = (\<lambda>a. projr (CanvasEffect_ctor 0 0 0 True S_OK))
                (0 := projr (CanvasEffect_ctor 5 1 1 True S_OK),
                 1 := projr (CanvasEffect_ctor 6 1 0 True S_OK),
                 2 := projr (CanvasEffect_ctor 7 2 2 True S_OK)),
      d2d_log = [], next_effect = 0\<rparr>"

text \<open>One node with its property set and a bitmap as its input.\<close>

definition single_node :: world where
  "single_node =
     run D_ok 0 [Act_SetProperty 0 0 (PropertyValue_UInt32 7),
                 Act_SetInput 0 0 (ImageInput (Inr (BitmapImage 0)))] new_world"

text \<open>Node 0 with node 1 as its input, both with their property set.\<close>

definition two_nodes :: world where
  "two_nodes =
     run D_ok 0 [Act_SetProperty 0 0 (PropertyValue_UInt32 7),
                 Act_SetProperty 1 0 (PropertyValue_Single 3),
                 Act_SetInput 0 0 (EffectInput 1)] new_world"

text \<open>
  Node 2 with both properties set and a bitmap in its first input slot; the second input
  slot was never written.
\<close>

definition wide_node :: world where
  "wide_node =
     run D_ok 0 [Act_SetProperty 2 0 (PropertyValue_UInt32 7),
                 Act_SetProperty 2 1 (PropertyValue_Single 3),
                 Act_SetInput 2 0 (ImageInput (Inr (BitmapImage 0)))] new_world"

text \<open>The same with an object that is not an image in the second input slot.\<close>

definition wrong_input_node :: world where
  "wrong_input_node = run D_ok 0 [Act_SetInput 2 1 (ForeignInput E_NOINTERFACE)] wide_node"


text \<open>
  Node 1 is given a float array of length 7 as its property before anything is realized.
\<close>

definition bad_upstream :: world where
  "bad_upstream =
     run D_ok 0 [Act_SetProperty 1 0 (PropertyValue_SingleArray [1, 2, 3, 4, 5, 6, 7])] two_nodes"

text \<open>
  Both nodes are realized on device 1, and then node 1 is given a float array of length 7
  as its property.
\<close>

definition realized_then_bad_upstream :: world where
  "realized_then_bad_upstream =
     run D_ok 2 [Act_GetD2DImage 0 dcA,
                 Act_SetProperty 1 0 (PropertyValue_SingleArray [1, 2, 3, 4, 5, 6, 7])] two_nodes"

text \<open>A rank for the nodes of these worlds: node 0 is above every other node.\<close>

definition rank_two_nodes :: "addr \<Rightarrow> nat" where
  "rank_two_nodes a = (if a = 0 then 1 else 0)"

text \<open>
  The node of \<open>single_node\<close> with the changed flag of its properties cleared: the property
  is there and the flag says nothing changed.
\<close>

definition quiet_node :: world where
  "quiet_node =
     put 0 (\<lambda>e. e\<lparr>m_properties := SetChanged False (m_properties e)\<rparr>) single_node"



section \<open>What every realization call preserves\<close>


lemma nodes_put: "nodes (put a f w) b = (if b = a then f (nodes w a) else nodes w b)"
  by (simp add: put_def)

lemma log_put: "d2d_log (put a f w) = d2d_log w"
  by (simp add: put_def)

lemma next_put: "next_effect (put a f w) = next_effect w"
  by (simp add: put_def)

lemma nodes_emit: "nodes (emit c w) = nodes w"
  by (simp add: emit_def)

lemma log_emit: "d2d_log (emit c w) = d2d_log w @ [c]"
  by (simp add: emit_def)

lemma next_emit: "next_effect (emit c w) = next_effect w"
  by (simp add: emit_def)

lemmas world_simps = nodes_put log_put next_put nodes_emit log_emit next_emit

lemma node_advances_refl: "node_advances dev e e"
  by (simp add: node_advances_def)

lemma node_advances_trans:
  "node_advances dev e1 e2 \<Longrightarrow> node_advances dev e2 e3 \<Longrightarrow> node_advances dev e1 e3"
  unfolding node_advances_def by metis

lemma advances_refl: "advances dev w w"
  by (simp add: advances_def node_advances_refl)

lemma advances_trans: "advances dev w1 w2 \<Longrightarrow> advances dev w2 w3 \<Longrightarrow> advances dev w1 w3"
  unfolding advances_def
  by (meson node_advances_trans prefix_order.trans le_trans)

lemma advances_emit: "advances dev w (emit c w)"
  by (simp add: advances_def world_simps node_advances_refl)

lemma advances_put:
  "node_advances dev (nodes w a) (f (nodes w a)) \<Longrightarrow> advances dev w (put a f w)"
  by (simp add: advances_def world_simps node_advances_refl)

lemma advances_SetValue: "SetValue D a i v w = (res, w') \<Longrightarrow> advances dev w w'"
  by (auto simp: SetValue_def advances_refl advances_emit split: option.splits)

lemma advances_SetProperty: "SetProperty D a i p w = (res, w') \<Longrightarrow> advances dev w w'"
  by (cases "(D, a, i, p, w)" rule: SetProperty.cases)
     (auto simp: advances_refl dest: advances_SetValue split: if_splits)

lemma SetProperty_supported: "SetProperty D a i p w = (None, w') \<Longrightarrow> spec_encoding p \<noteq> None"
  by (cases "(D, a, i, p, w)" rule: SetProperty.cases)
     (auto simp: ThrowHR_def split: if_splits)

lemma advances_SetProperties_from:
  "SetProperties_from D a i ps w = (res, w') \<Longrightarrow> advances dev w w'"
proof (induction ps arbitrary: i w)
  case Nil
  then show ?case by (simp add: advances_refl)
next
  case (Cons p ps)
  obtain r1 w1 where s: "SetProperty D a i p w = (r1, w1)" by (cases "SetProperty D a i p w")
  have a1: "advances dev w w1" using s by (rule advances_SetProperty)
  show ?case
  proof (cases r1)
    case None
    with Cons.prems s have "SetProperties_from D a (Suc i) ps w1 = (res, w')" by simp
    then have "advances dev w1 w'" by (rule Cons.IH)
    with a1 show ?thesis by (rule advances_trans)
  next
    case (Some e)
    with Cons.prems s have "w' = w1" by simp
    with a1 show ?thesis by simp
  qed
qed

lemma SetProperties_from_supported:
  "SetProperties_from D a i ps w = (None, w') \<Longrightarrow> list_all (\<lambda>p. spec_encoding p \<noteq> None) ps"
proof (induction ps arbitrary: i w)
  case Nil
  then show ?case by simp
next
  case (Cons p ps)
  obtain r1 w1 where s: "SetProperty D a i p w = (r1, w1)" by (cases "SetProperty D a i p w")
  show ?case
  proof (cases r1)
    case None
    with Cons.prems s have "SetProperties_from D a (Suc i) ps w1 = (None, w')" by simp
    then have "list_all (\<lambda>p. spec_encoding p \<noteq> None) ps" by (rule Cons.IH)
    moreover have "spec_encoding p \<noteq> None" using s None by (auto dest: SetProperty_supported)
    ultimately show ?thesis by simp
  next
    case (Some e)
    with Cons.prems s show ?thesis by simp
  qed
qed

lemma SetProperties_from_vectors:
  "SetProperties_from D a i ps w = (res, w') \<Longrightarrow> nodes w' = nodes w"
proof (induction ps arbitrary: i w)
  case Nil
  then show ?case by simp
next
  case (Cons p ps)
  obtain r1 w1 where s: "SetProperty D a i p w = (r1, w1)" by (cases "SetProperty D a i p w")
  have n1: "nodes w1 = nodes w" using s
    by (cases "(D, a, i, p, w)" rule: SetProperty.cases)
       (auto simp: SetValue_def world_simps split: option.splits if_splits)
  show ?case
  proof (cases r1)
    case None
    with Cons.prems s have "SetProperties_from D a (Suc i) ps w1 = (res, w')" by simp
    then have "nodes w' = nodes w1" by (rule Cons.IH)
    with n1 show ?thesis by simp
  next
    case (Some e)
    with Cons.prems s n1 show ?thesis by simp
  qed
qed

lemma advances_UpdateProperties:
  assumes "UpdateProperties D wasRecreated a w = (res, w')"
  shows "advances dev w w'"
proof (cases "wasRecreated \<or> IsChanged (m_properties (nodes w a))")
  case False
  with assms show ?thesis by (simp add: UpdateProperties_def advances_refl)
next
  case True
  obtain r1 w1 where s: "SetProperties D a w = (r1, w1)" by (cases "SetProperties D a w")
  then have sf: "SetProperties_from D a 0 (InternalVector (m_properties (nodes w a))) w = (r1, w1)"
    by (simp add: SetProperties_def)
  have a1: "advances dev w w1" using sf by (rule advances_SetProperties_from)
  have n1: "nodes w1 = nodes w" using sf by (rule SetProperties_from_vectors)
  show ?thesis
  proof (cases r1)
    case (Some e)
    with assms True s have "w' = w1" by (auto simp: UpdateProperties_def)
    with a1 show ?thesis by simp
  next
    case None
    with assms True s
    have w': "w' = put a (\<lambda>e. e\<lparr>m_properties := SetChanged False (m_properties e)\<rparr>) w1"
      by (auto simp: UpdateProperties_def)
    have "list_all (\<lambda>p. spec_encoding p \<noteq> None) (InternalVector (m_properties (nodes w a)))"
      using sf None by (auto dest: SetProperties_from_supported)
    then have "advances dev w1 w'"
      unfolding w' by (intro advances_put) (simp add: node_advances_def SetChanged_def n1)
    with a1 show ?thesis by (rule advances_trans)
  qed
qed

lemma advances_Reset_resource:
  "m_previousDeviceIdentity (nodes w a) \<noteq> Some dev \<Longrightarrow> advances dev w (Reset_resource a w)"
  by (auto simp: Reset_resource_def advances_refl advances_def world_simps node_advances_def
           split: option.splits)

lemma advances_CheckDevice:
  assumes "CheckDevice ctx a w = (res, w')"
  shows "advances (dc_device ctx) w w'"
  using assms
  by (auto simp: CheckDevice_def Let_def advances_refl Reset_resource_def advances_def
        world_simps node_advances_def split: option.splits if_splits)

lemma advances_CreateResource:
  assumes "CreateResource D ctx a w = (res, w')"
  shows "advances dev w w'"
  using assms
  by (auto simp: CreateResource_def Let_def advances_refl advances_def
        world_simps node_advances_def split: option.splits if_splits)

lemma advances_Prepare:
  assumes "Prepare D ctx a w = (res, w')"
  shows "advances (dc_device ctx) w w'"
proof -
  obtain r1 w1 where c: "CheckDevice ctx a w = (r1, w1)" by (cases "CheckDevice ctx a w")
  have a1: "advances (dc_device ctx) w w1" using c by (rule advances_CheckDevice)
  show ?thesis
  proof (cases r1)
    case (Inl e)
    with assms c have "w' = w1" by (simp add: Prepare_def)
    with a1 show ?thesis by simp
  next
    case (Inr wasRecreated)
    obtain r2 w2 where cr: "CreateResource D ctx a w1 = (r2, w2)"
      by (cases "CreateResource D ctx a w1")
    have a2: "advances (dc_device ctx) w1 w2" using cr by (rule advances_CreateResource)
    show ?thesis
    proof (cases r2)
      case (Some e)
      with assms c Inr cr have "w' = w2" by (simp add: Prepare_def)
      with a1 a2 show ?thesis by (auto intro: advances_trans)
    next
      case None
      obtain r3 w3 where u: "UpdateProperties D wasRecreated a w2 = (r3, w3)"
        by (cases "UpdateProperties D wasRecreated a w2")
      have a3: "advances (dc_device ctx) w2 w3" using u by (rule advances_UpdateProperties)
      have "w' = w3" using assms c Inr cr None u by (auto simp: Prepare_def split: option.splits)
      with a1 a2 a3 show ?thesis by (auto intro: advances_trans)
    qed
  qed
qed



lemma advances_GetD2DImage_SetInputs:
  "\<forall>ctx res w'. dco = Some ctx \<longrightarrow> GetD2DImage D n a dco w = Some (res, w')
      \<longrightarrow> advances (dc_device ctx) w w'"
  "\<forall>res w'. SetInputs D n a deviceContext i xs w = Some (res, w')
      \<longrightarrow> advances (dc_device deviceContext) w w' \<and> (res = None \<longrightarrow> None \<notin> set xs)"
proof (induction D n a dco w and D n a deviceContext i xs w rule: GetD2DImage_SetInputs.induct)
  case (1 D a dco w)
  then show ?case by simp
next
  case (2 D n a w)
  then show ?case by simp
next
  case (3 D n a deviceContext w)
  let ?dev = "dc_device deviceContext"
  obtain r1 w1 where p: "Prepare D deviceContext a w = (r1, w1)"
    by (cases "Prepare D deviceContext a w")
  have a1: "advances ?dev w w1" using p by (rule advances_Prepare)
  show ?case
  proof (intro allI impI)
    fix ctx res w'
    assume ctx: "Some deviceContext = Some ctx"
      and g: "GetD2DImage D (Suc n) a (Some deviceContext) w = Some (res, w')"
    have "advances ?dev w w'"
    proof (cases r1)
      case (Inl e)
      with g p have "w' = w1" by simp
      with a1 show ?thesis by simp
    next
      case (Inr wasRecreated)
      show ?thesis
      proof (cases "wasRecreated \<or> IsChanged (m_inputs (nodes w1 a))")
        case False
        with g p Inr have "w' = w1"
          by (auto simp: As_ID2D1Image_def split: option.splits)
        with a1 show ?thesis by simp
      next
        case True
        show ?thesis
        proof (cases "m_resource (nodes w1 a)")
          case None
          with g p Inr True have "w' = w1" by auto
          with a1 show ?thesis by simp
        next
          case (Some r)
          let ?xs = "InternalVector (m_inputs (nodes w1 a))"
          let ?w1 = "emit (Call_SetInputCount r (length ?xs)) w1"
          have a1': "advances ?dev w ?w1"
            using a1 advances_emit by (rule advances_trans)
          from g p Inr True Some obtain r2 w2 where
            s: "SetInputs D n a deviceContext 0 ?xs ?w1 = Some (r2, w2)"
            by (auto simp: Let_def split: option.splits)
          have ih: "advances ?dev ?w1 w2 \<and> (r2 = None \<longrightarrow> None \<notin> set ?xs)"
            using "3.IH"[OF p[symmetric] Inr True Some refl] s by blast
          then have a2: "advances ?dev w w2" using a1' by (auto intro: advances_trans)
          show ?thesis
          proof (cases r2)
            case (Some e)
            with g p Inr True \<open>m_resource (nodes w1 a) = Some r\<close> s have "w' = w2"
              by (auto simp: Let_def)
            with a2 show ?thesis by simp
          next
            case None
            let ?w3 = "put a (\<lambda>e. e\<lparr>m_inputs := SetChanged False (m_inputs e)\<rparr>) w2"
            from None g p Inr True \<open>m_resource (nodes w1 a) = Some r\<close> s
            have w': "w' = ?w3"
              by (auto simp: Let_def As_ID2D1Image_def split: option.splits)
            have same: "InternalVector (m_inputs (nodes w2 a)) = ?xs"
              using ih by (simp add: advances_def node_advances_def world_simps)
            have "None \<notin> set ?xs" using ih None by simp
            then have "advances ?dev w2 ?w3"
              by (intro advances_put) (simp add: node_advances_def SetChanged_def same)
            with a2 w' show ?thesis by (auto intro: advances_trans)
          qed
        qed
      qed
    qed
    with ctx show "advances (dc_device ctx) w w'" by simp
  qed
next
  case (4 D n a deviceContext i w)
  then show ?case by (simp add: advances_refl)
next
  case (5 D n a deviceContext i rest w)
  then show ?case by (simp add: advances_refl)
next
  case (6 D n a deviceContext i input rest w)
  let ?dev = "dc_device deviceContext"
  let ?hr = "As_ICanvasImageInternal input"
  show ?case
  proof (intro allI impI)
    fix res w'
    assume s: "SetInputs D n a deviceContext i (Some input # rest) w = Some (res, w')"
    show "advances ?dev w w' \<and> (res = None \<longrightarrow> None \<notin> set (Some input # rest))"
    proof (cases "?hr = E_NOINTERFACE \<or> ThrowIfFailed ?hr \<noteq> None")
      case True
      with s show ?thesis by (auto simp: Let_def advances_refl split: if_splits)
    next
      case False
      then have h1: "?hr \<noteq> E_NOINTERFACE" and h2: "ThrowIfFailed ?hr = None" by auto
      let ?call = "case input of
            EffectInput b \<Rightarrow> GetD2DImage D n b (Some deviceContext) w
          | ImageInput res \<Rightarrow> Some (res, w)
          | ForeignInput h \<Rightarrow> Some (Inl AccessViolation, w)"
      from s h1 h2 obtain r1 w1 where c: "?call = Some (r1, w1)"
        by (auto simp: Let_def split: option.splits)
      have a1: "advances ?dev w w1"
      proof (cases input)
        case (EffectInput b)
        with c have "GetD2DImage D n b (Some deviceContext) w = Some (r1, w1)" by simp
        with "6.IH"(1)[OF refl h1 h2 EffectInput] show ?thesis by blast
      next
        case (ImageInput x)
        with c show ?thesis by (simp add: advances_refl)
      next
        case (ForeignInput h)
        with c show ?thesis by (simp add: advances_refl)
      qed
      show ?thesis
      proof (cases r1)
        case (Inl e)
        with s h1 h2 c have "w' = w1" "res \<noteq> None" by (auto simp: Let_def)
        with a1 show ?thesis by auto
      next
        case (Inr img)
        show ?thesis
        proof (cases "m_resource (nodes w1 a)")
          case None
          with s h1 h2 c Inr have "w' = w1" "res \<noteq> None" by (auto simp: Let_def)
          with a1 show ?thesis by auto
        next
          case (Some r)
          let ?w2 = "emit (Call_SetInput r i img) w1"
          from s h1 h2 c Inr Some
          have s2: "SetInputs D n a deviceContext (Suc i) rest ?w2 = Some (res, w')"
            by (auto simp: Let_def)
          have ih: "advances ?dev ?w2 w' \<and> (res = None \<longrightarrow> None \<notin> set rest)"
            using "6.IH"(2)[OF refl h1 h2 c refl Inr Some] s2 by blast
          have "advances ?dev w ?w2" using a1 advances_emit by (rule advances_trans)
          with ih show ?thesis by (auto intro: advances_trans)
        qed
      qed
    qed
  qed
qed


section \<open>Close\<close>

lemma Reset_resource_nodes:
  "nodes (Reset_resource a w) = (nodes w)(a := (nodes w a)\<lparr>m_resource := None\<rparr>)"
  by (cases "m_resource (nodes w a)")
     (auto simp: Reset_resource_def world_simps fun_eq_iff)

lemma Reset_resource_idem: "Reset_resource a (Reset_resource a w) = Reset_resource a w"
  by (cases "m_resource (nodes w a)")
     (auto simp: Reset_resource_def world_simps)

text \<open>
  Claim C9. \<open>Close\<close> returns \<open>S_OK\<close> whether or not a resource is bound. Of the nodes it
  changes only the resource pointer of the node it is called on: the stored device
  identity, both vectors and both changed flags are as before. A second \<open>Close\<close> returns
  \<open>S_OK\<close> again and changes nothing more.
\<close>

theorem Close_releases_only:
  "fst (Close a w) = S_OK \<and>
   nodes (snd (Close a w)) = (nodes w)(a := (nodes w a)\<lparr>m_resource := None\<rparr>) \<and>
   next_effect (snd (Close a w)) = next_effect w \<and>
   fst (Close a (snd (Close a w))) = S_OK \<and>
   snd (Close a (snd (Close a w))) = snd (Close a w)"
  by (simp add: Close_def Reset_resource_nodes Reset_resource_idem)
     (simp add: Reset_resource_def world_simps split: option.splits)

section \<open>A resource created after Close\<close>

text \<open>
  Claim C1. The claim asks that a call which creates the resource re-applies every
  property and every input. The source sets \<open>wasRecreated\<close> only where the device identity
  differs (line 54), not where the resource is created (lines 59-60). Here a node is
  realized on device 1, closed, and realized again on device 1: the second call creates
  resource 1 and makes no other device call, so resource 1 has no property and no input,
  and the node is left with both flags clear.
\<close>

theorem realize_after_Close_applies_nothing:
  "observe 0 (GetD2DImage D_ok 1 0 (Some dcA)
      (run D_ok 1 [Act_GetD2DImage 0 dcA, Act_Close 0] single_node)) =
   Some (Inr (EffectOutput 1),
     \<lparr>m_effectId = 5,
        m_properties = \<lparr>InternalVector = [Some (PropertyValue_UInt32 7)],
                        IsChanged = False, isFixedSize = True\<rparr>,
        m_inputs = \<lparr>InternalVector = [Some (ImageInput (Inr (BitmapImage 0)))],
                    IsChanged = False, isFixedSize = True\<rparr>,
        m_previousDeviceIdentity = Some 1, m_resource = Some 1\<rparr>,
     [Call_CreateEffect 100 5 0, Call_SetValue 0 0 (Value_UINT32 7),
      Call_SetInputCount 0 1, Call_SetInput 0 0 (BitmapImage 0),
      Call_Release 0, Call_CreateEffect 100 5 1])"
  by code_simp

section \<open>The steps before the inputs\<close>



lemma CheckDevice_cases:
  "CheckDevice ctx a w =
     (if FAILED (dc_identity_hr ctx) then (Inl (ThrowHR (dc_identity_hr ctx)), w)
      else if m_previousDeviceIdentity (nodes w a) = Some (dc_device ctx) then (Inr False, w)
      else (Inr True,
            Reset_resource a (put a (\<lambda>e. e\<lparr>m_previousDeviceIdentity := Some (dc_device ctx)\<rparr>) w)))"
  by (auto simp: CheckDevice_def ThrowIfFailed_def Let_def)

lemma CheckDevice_success:
  assumes "CheckDevice ctx a w = (Inr wr, w1)"
  shows "\<not> FAILED (dc_identity_hr ctx)"
    and "wr \<longleftrightarrow> m_previousDeviceIdentity (nodes w a) \<noteq> Some (dc_device ctx)"
    and "m_previousDeviceIdentity (nodes w1 a) = Some (dc_device ctx)"
    and "m_properties (nodes w1 c) = m_properties (nodes w c)"
    and "m_inputs (nodes w1 c) = m_inputs (nodes w c)"
    and "m_effectId (nodes w1 c) = m_effectId (nodes w c)"
    and "wr \<Longrightarrow> m_resource (nodes w1 a) = None"
    and "\<not> wr \<Longrightarrow> w1 = w"
  using assms
  by (auto simp: CheckDevice_cases Reset_resource_def world_simps
           split: if_splits option.splits)

lemma CreateResource_success:
  assumes "CreateResource D ctx a w = (None, w1)"
  shows "\<exists>r. m_resource (nodes w1 a) = Some r"
    and "m_previousDeviceIdentity (nodes w1 c) = m_previousDeviceIdentity (nodes w c)"
    and "m_properties (nodes w1 c) = m_properties (nodes w c)"
    and "m_inputs (nodes w1 c) = m_inputs (nodes w c)"
    and "m_effectId (nodes w1 c) = m_effectId (nodes w c)"
    and "m_resource (nodes w a) \<noteq> None \<Longrightarrow> w1 = w"
  using assms
  by (auto simp: CreateResource_def Let_def world_simps ThrowHR_def
           split: if_splits option.splits)

lemma SetProperties_nodes: "SetProperties D a w = (res, w') \<Longrightarrow> nodes w' = nodes w"
  by (auto simp: SetProperties_def dest: SetProperties_from_vectors)

lemma UpdateProperties_success:
  assumes "UpdateProperties D wr a w = (None, w1)"
  shows "\<not> IsChanged (m_properties (nodes w1 a))"
    and "m_previousDeviceIdentity (nodes w1 c) = m_previousDeviceIdentity (nodes w c)"
    and "m_resource (nodes w1 c) = m_resource (nodes w c)"
    and "m_inputs (nodes w1 c) = m_inputs (nodes w c)"
    and "m_effectId (nodes w1 c) = m_effectId (nodes w c)"
    and "InternalVector (m_properties (nodes w1 c)) = InternalVector (m_properties (nodes w c))"
    and "\<not> wr \<Longrightarrow> \<not> IsChanged (m_properties (nodes w a)) \<Longrightarrow> w1 = w"
proof -
  obtain r2 w2 where s: "SetProperties D a w = (r2, w2)" by (cases "SetProperties D a w")
  then have n: "nodes w2 = nodes w" by (rule SetProperties_nodes)
  from assms s have
    "w1 = w \<and> \<not> wr \<and> \<not> IsChanged (m_properties (nodes w a)) \<or>
     w1 = put a (\<lambda>e. e\<lparr>m_properties := SetChanged False (m_properties e)\<rparr>) w2
       \<and> (wr \<or> IsChanged (m_properties (nodes w a)))"
    by (auto simp: UpdateProperties_def split: if_splits option.splits)
  then show "\<not> IsChanged (m_properties (nodes w1 a))"
    and "m_previousDeviceIdentity (nodes w1 c) = m_previousDeviceIdentity (nodes w c)"
    and "m_resource (nodes w1 c) = m_resource (nodes w c)"
    and "m_inputs (nodes w1 c) = m_inputs (nodes w c)"
    and "m_effectId (nodes w1 c) = m_effectId (nodes w c)"
    and "InternalVector (m_properties (nodes w1 c)) = InternalVector (m_properties (nodes w c))"
    and "\<not> wr \<Longrightarrow> \<not> IsChanged (m_properties (nodes w a)) \<Longrightarrow> w1 = w"
    using n by (auto simp: world_simps SetChanged_def)
qed

lemma Prepare_Inr:
  assumes "Prepare D ctx a w = (Inr wr, w3)"
  obtains wr' w1 w2 where "CheckDevice ctx a w = (Inr wr, w1)"
    and "CreateResource D ctx a w1 = (None, w2)"
    and "UpdateProperties D wr a w2 = (None, w3)"
  using assms
  by (auto simp: Prepare_def split: prod.splits sum.splits option.splits)

lemma Prepare_success:
  assumes "Prepare D ctx a w = (Inr wr, w3)"
  shows "\<not> FAILED (dc_identity_hr ctx)"
    and "wr \<longleftrightarrow> m_previousDeviceIdentity (nodes w a) \<noteq> Some (dc_device ctx)"
    and "m_previousDeviceIdentity (nodes w3 a) = Some (dc_device ctx)"
    and "\<exists>r. m_resource (nodes w3 a) = Some r"
    and "\<not> IsChanged (m_properties (nodes w3 a))"
    and "m_inputs (nodes w3 c) = m_inputs (nodes w c)"
proof -
  from assms obtain w1 w2 where c: "CheckDevice ctx a w = (Inr wr, w1)"
    and cr: "CreateResource D ctx a w1 = (None, w2)"
    and u: "UpdateProperties D wr a w2 = (None, w3)"
    by (rule Prepare_Inr)
  show "\<not> FAILED (dc_identity_hr ctx)" using c by (rule CheckDevice_success)
  show "wr \<longleftrightarrow> m_previousDeviceIdentity (nodes w a) \<noteq> Some (dc_device ctx)"
    using c by (rule CheckDevice_success)
  show "m_previousDeviceIdentity (nodes w3 a) = Some (dc_device ctx)"
    using CheckDevice_success(3)[OF c] CreateResource_success(2)[OF cr]
      UpdateProperties_success(2)[OF u] by simp
  show "\<exists>r. m_resource (nodes w3 a) = Some r"
    using CreateResource_success(1)[OF cr] UpdateProperties_success(3)[OF u] by simp
  show "\<not> IsChanged (m_properties (nodes w3 a))" using u by (rule UpdateProperties_success)
  show "m_inputs (nodes w3 c) = m_inputs (nodes w c)"
    using CheckDevice_success(5)[OF c] CreateResource_success(4)[OF cr]
      UpdateProperties_success(4)[OF u] by simp
qed

lemma Prepare_settled:
  assumes "m_previousDeviceIdentity (nodes w a) = Some (dc_device ctx)"
    and "m_resource (nodes w a) = Some r"
    and "\<not> IsChanged (m_properties (nodes w a))"
    and "\<not> FAILED (dc_identity_hr ctx)"
  shows "Prepare D ctx a w = (Inr False, w)"
  using assms
  by (simp add: Prepare_def CheckDevice_cases CreateResource_def UpdateProperties_def)

lemma advances_GetD2DImage:
  "GetD2DImage D n a (Some ctx) w = Some (res, w') \<Longrightarrow> advances (dc_device ctx) w w'"
  using advances_GetD2DImage_SetInputs(1) by blast

lemma advances_SetInputs:
  "SetInputs D n a ctx i xs w = Some (res, w') \<Longrightarrow> advances (dc_device ctx) w w'"
  using advances_GetD2DImage_SetInputs(2) by blast


lemma advances_bound:
  assumes "advances dev w w'" and "m_previousDeviceIdentity (nodes w c) = Some dev"
  shows "m_previousDeviceIdentity (nodes w' c) = Some dev"
    and "m_resource (nodes w c) = Some r \<Longrightarrow> m_resource (nodes w' c) = Some r"
  using assms by (auto simp: advances_def node_advances_def)

lemma advances_flags:
  assumes "advances dev w w'"
  shows "\<not> IsChanged (m_properties (nodes w c)) \<Longrightarrow> \<not> IsChanged (m_properties (nodes w' c))"
    and "\<not> IsChanged (m_inputs (nodes w c)) \<Longrightarrow> \<not> IsChanged (m_inputs (nodes w' c))"
  using assms by (auto simp: advances_def node_advances_def)

lemma advances_slots:
  assumes "advances dev w w'"
  shows "InternalVector (m_properties (nodes w' c)) = InternalVector (m_properties (nodes w c))"
    and "InternalVector (m_inputs (nodes w' c)) = InternalVector (m_inputs (nodes w c))"
    and "m_effectId (nodes w' c) = m_effectId (nodes w c)"
  using assms by (auto simp: advances_def node_advances_def)

lemma advances_settled:
  "advances dev w w' \<Longrightarrow> settled D dev r (nodes w c) \<Longrightarrow> settled D dev r (nodes w' c)"
  by (auto simp: settled_def dest: advances_bound advances_flags)

lemma As_ID2D1Image_Inr:
  assumes "As_ID2D1Image D a w = (Inr img, w')"
  shows "w' = w" and "\<exists>r. m_resource (nodes w a) = Some r \<and> img = EffectOutput r
            \<and> \<not> FAILED (As_ID2D1Image_hr D r)"
  using assms
  by (auto simp: As_ID2D1Image_def ThrowIfFailed_def split: option.splits if_splits)

lemma GetD2DImage_success_settled:
  assumes "GetD2DImage D n a (Some ctx) w = Some (Inr img, w')"
  shows "\<exists>r. img = EffectOutput r \<and> settled D (dc_device ctx) r (nodes w' a)"
proof -
  let ?dev = "dc_device ctx"
  from assms obtain m where n: "n = Suc m" by (cases n) auto
  obtain r1 w1 where p: "Prepare D ctx a w = (r1, w1)" by (cases "Prepare D ctx a w")
  with assms n obtain wr where r1: "r1 = Inr wr" by (cases r1) auto
  note ps = Prepare_success[OF p[unfolded r1]]
  from ps(4) obtain r where r: "m_resource (nodes w1 a) = Some r" by blast
  show ?thesis
  proof (cases "wr \<or> IsChanged (m_inputs (nodes w1 a))")
    case False
    with assms n p r1 have a: "As_ID2D1Image D a w1 = (Inr img, w')" by simp
    from As_ID2D1Image_Inr[OF a] r ps(3,5) False show ?thesis
      by (auto simp: settled_def)
  next
    case True
    let ?xs = "InternalVector (m_inputs (nodes w1 a))"
    let ?w1 = "emit (Call_SetInputCount r (length ?xs)) w1"
    from assms n p r1 True r obtain w2 where
      s: "SetInputs D m a ctx 0 ?xs ?w1 = Some (None, w2)"
      and a: "As_ID2D1Image D a (put a (\<lambda>e. e\<lparr>m_inputs := SetChanged False (m_inputs e)\<rparr>) w2)
               = (Inr img, w')"
      by (auto simp: Let_def split: option.splits prod.splits)
    have adv: "advances ?dev ?w1 w2" using s by (rule advances_SetInputs)
    have "m_previousDeviceIdentity (nodes w2 a) = Some ?dev"
      using advances_bound(1)[OF adv] ps(3) by (simp add: world_simps)
    moreover have "m_resource (nodes w2 a) = Some r"
      using advances_bound(2)[OF adv] ps(3) r by (simp add: world_simps)
    moreover have "\<not> IsChanged (m_properties (nodes w2 a))"
      using advances_flags(1)[OF adv] ps(5) by (simp add: world_simps)
    ultimately show ?thesis
      using As_ID2D1Image_Inr[OF a] by (auto simp: settled_def world_simps SetChanged_def)
  qed
qed

lemma settled_GetD2DImage:
  assumes "settled D (dc_device ctx) r (nodes w a)" and "\<not> FAILED (dc_identity_hr ctx)"
  shows "GetD2DImage D (Suc m) a (Some ctx) w = Some (Inr (EffectOutput r), w)"
proof -
  have "Prepare D ctx a w = (Inr False, w)"
    using assms by (intro Prepare_settled) (auto simp: settled_def)
  with assms show ?thesis
    by (simp add: settled_def As_ID2D1Image_def ThrowIfFailed_def)
qed


section \<open>Idempotence\<close>

lemma GetD2DImage_as_run:
  assumes "case GetD2DImage D n a (Some dc) w of None \<Rightarrow> False | Some (res, w') \<Rightarrow> res = r"
  shows "GetD2DImage D n a (Some dc) w = Some (r, run D n [Act_GetD2DImage a dc] w)"
  using assms by (auto split: option.splits)

lemma single_node_first:
  "GetD2DImage D_ok 1 0 (Some dcA) single_node =
     Some (Inr (EffectOutput 0), run D_ok 1 [Act_GetD2DImage 0 dcA] single_node)"
  by (rule GetD2DImage_as_run) code_simp

text \<open>
  Claim C2. If \<open>GetD2DImage\<close> succeeds on a node, a second call with a context of the same
  device identity, with nothing done in between, returns the same image and leaves the
  world as it is: no device call is made (no \<open>SetValue\<close>, no \<open>SetInputCount\<close>, no
  \<open>SetInput\<close>), and the image is the output of the resource the node holds. The second
  call needs one level of depth only.
\<close>

theorem second_GetD2DImage_does_nothing:
  assumes "GetD2DImage D n a (Some ctx) w = Some (Inr img, w')"
    and "\<not> FAILED (dc_identity_hr ctx')"
    and "dc_device ctx' = dc_device ctx"
  shows "GetD2DImage D (Suc m) a (Some ctx') w' = Some (Inr img, w') \<and>
         (\<exists>r. m_resource (nodes w' a) = Some r \<and> img = EffectOutput r)"
proof -
  from GetD2DImage_success_settled[OF assms(1)] obtain r where
    img: "img = EffectOutput r" and s: "settled D (dc_device ctx) r (nodes w' a)" by blast
  from s assms(3) have "settled D (dc_device ctx') r (nodes w' a)" by simp
  then have "GetD2DImage D (Suc m) a (Some ctx') w' = Some (Inr (EffectOutput r), w')"
    using assms(2) by (rule settled_GetD2DImage)
  with img s show ?thesis by (simp add: settled_def)
qed


theorem second_GetD2DImage_does_nothing_witness:
  "GetD2DImage D_ok 1 0 (Some dcA) single_node =
     Some (Inr (EffectOutput 0), run D_ok 1 [Act_GetD2DImage 0 dcA] single_node) \<and>
   \<not> FAILED (dc_identity_hr dcA') \<and> dc_device dcA' = dc_device dcA \<and>
   GetD2DImage D_ok (Suc 0) 0 (Some dcA') (run D_ok 1 [Act_GetD2DImage 0 dcA] single_node) =
     Some (Inr (EffectOutput 0), run D_ok 1 [Act_GetD2DImage 0 dcA] single_node) \<and>
   m_resource (nodes (run D_ok 1 [Act_GetD2DImage 0 dcA] single_node) 0) = Some 0"
proof -
  have h2: "\<not> FAILED (dc_identity_hr dcA')" by code_simp
  have h3: "dc_device dcA' = dc_device dcA" by code_simp
  from second_GetD2DImage_does_nothing[OF single_node_first h2 h3, of 0]
  show ?thesis using single_node_first h2 h3 by auto
qed

section \<open>Reaching a slot\<close>

lemma SetInputs_append:
  "SetInputs D n a ctx i (xs @ ys) w =
     (case SetInputs D n a ctx i xs w of
        None \<Rightarrow> None
      | Some (Some e, w') \<Rightarrow> Some (Some e, w')
      | Some (None, w') \<Rightarrow> SetInputs D n a ctx (i + length xs) ys w')"
proof (induction xs arbitrary: i w)
  case Nil
  then show ?case by simp
next
  case (Cons x xs)
  show ?case
  proof (cases x)
    case None
    then show ?thesis by simp
  next
    case (Some input)
    then show ?thesis
      by (simp add: Cons.IH Let_def
            split: option.split sum.split prod.split IEffectInput.split)
  qed
qed


lemma SetInputs_reaches:
  assumes "k < length xs"
    and "SetInputs D n a ctx 0 (take k xs) w = Some (None, w')"
  shows "SetInputs D n a ctx 0 xs w = SetInputs D n a ctx k (xs ! k # drop (Suc k) xs) w'"
proof -
  have "xs = take k xs @ (xs ! k # drop (Suc k) xs)"
    using assms(1) by (simp add: id_take_nth_drop)
  then have "SetInputs D n a ctx 0 xs w =
      SetInputs D n a ctx 0 (take k xs @ (xs ! k # drop (Suc k) xs)) w" by simp
  also have "\<dots> = SetInputs D n a ctx k (xs ! k # drop (Suc k) xs) w'"
    using assms by (simp add: SetInputs_append min_def)
  finally show ?thesis .
qed


lemma GetD2DImage_inputs_step:
  assumes "Prepare D ctx a w = (Inr wr, w1)"
    and "wr \<or> IsChanged (m_inputs (nodes w a))"
    and "m_resource (nodes w1 a) = Some r"
  shows "GetD2DImage D (Suc n) a (Some ctx) w =
     (case SetInputs D n a ctx 0 (InternalVector (m_inputs (nodes w a)))
             (emit (Call_SetInputCount r (length (InternalVector (m_inputs (nodes w a))))) w1) of
        None \<Rightarrow> None
      | Some (Some e, w2) \<Rightarrow> Some (Inl e, w2)
      | Some (None, w2) \<Rightarrow>
          Some (As_ID2D1Image D a
                  (put a (\<lambda>e. e\<lparr>m_inputs := SetChanged False (m_inputs e)\<rparr>) w2)))"
proof -
  have "m_inputs (nodes w1 a) = m_inputs (nodes w a)"
    using assms(1) by (rule Prepare_success)
  with assms show ?thesis by (simp add: Let_def)
qed

lemma FAILED_codes:
  "\<not> FAILED S_OK" "FAILED E_NOTIMPL" "FAILED E_NOINTERFACE" "FAILED E_POINTER"
  "FAILED E_BOUNDS" "FAILED E_INVALIDARG"
  by (simp_all add: FAILED_def S_OK_def E_NOTIMPL_def E_NOINTERFACE_def E_POINTER_def
        E_BOUNDS_def E_INVALIDARG_def)



lemma code_noteq: "E_NOINTERFACE \<noteq> S_OK" by (simp add: E_NOINTERFACE_def S_OK_def)

lemma D_ok_simps:
  "CreateEffect_hr D_ok h c e = S_OK" "SetValue_hr D_ok h r i v = S_OK"
  "As_ID2D1Image_hr D_ok r = S_OK"
  by (simp_all add: D_ok_def)

lemma SetProperty_encoding:
  "SetProperty D a i p w =
     (case p of
        None \<Rightarrow> (Some (ThrowHR E_POINTER), w)
      | Some v \<Rightarrow>
          (case spec_encoding p of
             None \<Rightarrow> (Some (ThrowHR E_NOTIMPL), w)
           | Some d \<Rightarrow> SetValue D a i d w))"
  by (cases "(D, a, i, p, w)" rule: SetProperty.cases) auto

section \<open>An input of the wrong type\<close>

text \<open>
  Claim C8. The input-apply step runs and reaches slot \<open>k\<close>, the slots before it having
  been bound. If the reference there does not support the image interface (the query
  returns \<open>E_NOINTERFACE\<close>), \<open>GetD2DImage\<close> throws that code, and the exception carries the
  message \<open>EffectWrongInputType\<close> formatted with the index \<open>k\<close> of the slot.
\<close>

theorem wrong_input_type_names_slot:
  assumes prep: "Prepare D ctx a w = (Inr wasRecreated, w1)"
    and runs: "wasRecreated \<or> IsChanged (m_inputs (nodes w a))"
    and res: "m_resource (nodes w1 a) = Some r"
    and k: "k < length (InternalVector (m_inputs (nodes w a)))"
    and slot: "InternalVector (m_inputs (nodes w a)) ! k = Some x"
    and wrong: "As_ICanvasImageInternal x = E_NOINTERFACE"
    and before: "SetInputs D n a ctx 0 (take k (InternalVector (m_inputs (nodes w a))))
                   (emit (Call_SetInputCount r (length (InternalVector (m_inputs (nodes w a))))) w1)
                 = Some (None, w2)"
  shows "GetD2DImage D (Suc n) a (Some ctx) w =
           Some (Inl (HResultException E_NOINTERFACE (Some (EffectWrongInputType k))), w2)"
proof -
  let ?xs = "InternalVector (m_inputs (nodes w a))"
  let ?w1 = "emit (Call_SetInputCount r (length ?xs)) w1"
  have "SetInputs D n a ctx 0 ?xs ?w1 = SetInputs D n a ctx k (?xs ! k # drop (Suc k) ?xs) w2"
    using k before by (rule SetInputs_reaches)
  also have "\<dots> = Some (Some (HResultException E_NOINTERFACE (Some (EffectWrongInputType k))), w2)"
    using slot wrong by simp
  finally show ?thesis
    using GetD2DImage_inputs_step[OF prep runs res, of n] by simp
qed

theorem wrong_input_type_names_slot_witness:
  "Prepare D_ok dcA 2 wrong_input_node = (Inr True, snd (Prepare D_ok dcA 2 wrong_input_node)) \<and>
   m_resource (nodes (snd (Prepare D_ok dcA 2 wrong_input_node)) 2) = Some 0 \<and>
   InternalVector (m_inputs (nodes wrong_input_node 2)) ! 1 = Some (ForeignInput E_NOINTERFACE) \<and>
   GetD2DImage D_ok (Suc 0) 2 (Some dcA) wrong_input_node =
     Some (Inl (HResultException E_NOINTERFACE (Some (EffectWrongInputType 1))),
           emit (Call_SetInput 0 0 (BitmapImage 0))
             (emit (Call_SetInputCount 0 2) (snd (Prepare D_ok dcA 2 wrong_input_node))))"
proof -
  let ?w1 = "snd (Prepare D_ok dcA 2 wrong_input_node)"
  let ?xs = "InternalVector (m_inputs (nodes wrong_input_node 2))"
  have f1: "fst (Prepare D_ok dcA 2 wrong_input_node) = Inr True" by code_simp
  have prep: "Prepare D_ok dcA 2 wrong_input_node = (Inr True, ?w1)"
    using f1 by (simp add: prod_eq_iff)
  have res: "m_resource (nodes ?w1 2) = Some 0" by code_simp
  have xs: "?xs = [Some (ImageInput (Inr (BitmapImage 0))), Some (ForeignInput E_NOINTERFACE)]"
    by code_simp
  have k: "1 < length ?xs" by (simp add: xs)
  have slot: "?xs ! 1 = Some (ForeignInput E_NOINTERFACE)" by (simp add: xs)
  have wrong: "As_ICanvasImageInternal (ForeignInput E_NOINTERFACE) = E_NOINTERFACE" by simp
  have before: "SetInputs D_ok 0 2 dcA 0 (take 1 ?xs) (emit (Call_SetInputCount 0 (length ?xs)) ?w1)
      = Some (None, emit (Call_SetInput 0 0 (BitmapImage 0)) (emit (Call_SetInputCount 0 2) ?w1))"
    using res by (simp add: xs world_simps ThrowIfFailed_def FAILED_codes code_noteq[symmetric])
  from wrong_input_type_names_slot[OF prep _ res k slot wrong before]
  show ?thesis using prep res slot by simp
qed

section \<open>A property without an encoding\<close>



section \<open>More on the steps of a call\<close>

lemma SetInputs_Cons_success:
  assumes "SetInputs D n a ctx i (x # rest) w = Some (None, w')"
  obtains input img w1 r where "x = Some input"
    and "(case input of
            EffectInput b \<Rightarrow> GetD2DImage D n b (Some ctx) w
          | ImageInput res \<Rightarrow> Some (res, w)
          | ForeignInput h \<Rightarrow> Some (Inl AccessViolation, w)) = Some (Inr img, w1)"
    and "m_resource (nodes w1 a) = Some r"
    and "SetInputs D n a ctx (Suc i) rest (emit (Call_SetInput r i img) w1) = Some (None, w')"
proof (cases x)
  case None
  with assms show ?thesis by simp
next
  case (Some input)
  with assms show ?thesis
    by (auto simp: Let_def intro: that
          split: if_splits option.splits sum.splits prod.splits)
qed

lemma advances_input_call:
  assumes "(case input of
            EffectInput b \<Rightarrow> GetD2DImage D n b (Some ctx) w
          | ImageInput res \<Rightarrow> Some (res, w)
          | ForeignInput h \<Rightarrow> Some (Inl AccessViolation, w)) = Some (res, w1)"
  shows "advances (dc_device ctx) w w1"
  using assms
  by (cases input) (auto simp: advances_refl dest: advances_GetD2DImage)

lemma advances_log: "advances dev w w' \<Longrightarrow> \<exists>calls. d2d_log w' = d2d_log w @ calls"
  by (auto simp: advances_def prefix_def)

lemma CheckDevice_differs:
  assumes "m_previousDeviceIdentity (nodes w a) \<noteq> Some (dc_device ctx)"
    and "\<not> FAILED (dc_identity_hr ctx)"
  shows "fst (CheckDevice ctx a w) = Inr True"
    and "m_previousDeviceIdentity (nodes (snd (CheckDevice ctx a w)) a) = Some (dc_device ctx)"
    and "m_resource (nodes (snd (CheckDevice ctx a w)) a) = None"
    and "d2d_log (snd (CheckDevice ctx a w)) =
           d2d_log w @ (case m_resource (nodes w a) of None \<Rightarrow> [] | Some r0 \<Rightarrow> [Call_Release r0])"
    and "next_effect (snd (CheckDevice ctx a w)) = next_effect w"
  using assms
  by (auto simp: CheckDevice_cases Reset_resource_def world_simps split: option.splits)

lemma CreateResource_creates:
  assumes "CreateResource D ctx a w = (None, w1)" and "m_resource (nodes w a) = None"
  shows "m_resource (nodes w1 a) = Some (next_effect w)"
    and "d2d_log w1 = d2d_log w @ [Call_CreateEffect (dc_ptr ctx) (m_effectId (nodes w a)) (next_effect w)]"
  using assms
  by (auto simp: CreateResource_def Let_def world_simps ThrowHR_def split: if_splits)

lemma UpdateProperties_recreated:
  assumes "UpdateProperties D True a w = (None, w1)"
  obtains w0 where "SetProperties_from D a 0 (InternalVector (m_properties (nodes w a))) w = (None, w0)"
    and "w1 = put a (\<lambda>e. e\<lparr>m_properties := SetChanged False (m_properties e)\<rparr>) w0"
  using assms
  by (auto simp: UpdateProperties_def SetProperties_def split: prod.splits option.splits)

lemma CanvasEffect_ctor_Inr:
  assumes "CanvasEffect_ctor effectId propertiesSize inputSize isInputSizeFixed factory_hr = Inr e"
  shows "e = \<lparr>m_effectId = effectId,
              m_properties = \<lparr>InternalVector = replicate propertiesSize None, IsChanged = False,
                              isFixedSize = True\<rparr>,
              m_inputs = \<lparr>InternalVector = replicate inputSize None, IsChanged = True,
                          isFixedSize = isInputSizeFixed\<rparr>,
              m_previousDeviceIdentity = None, m_resource = None\<rparr>"
  using assms
  by (auto simp: CanvasEffect_ctor_def Make_Vector_def SetChanged_def Let_def
           split: option.splits)

section \<open>Nodes written through the collection\<close>

lemma tracked_ctor:
  "CanvasEffect_ctor effectId propertiesSize inputSize isInputSizeFixed factory_hr = Inr e
     \<Longrightarrow> tracked e"
  by (auto simp: tracked_def list_all_iff dest!: CanvasEffect_ctor_Inr)

lemma tracked_node_advances: "node_advances dev e e' \<Longrightarrow> tracked e \<Longrightarrow> tracked e'"
  unfolding node_advances_def tracked_def
  by (auto simp: list_all_iff)

lemma tracked_GetD2DImage:
  assumes "GetD2DImage D n a (Some ctx) w = Some (res, w')" and "tracked (nodes w c)"
  shows "tracked (nodes w' c)"
  using advances_GetD2DImage[OF assms(1)] assms(2)
  by (auto simp: advances_def intro: tracked_node_advances)

lemma tracked_Close: "tracked (nodes w c) \<Longrightarrow> tracked (nodes (snd (Close a w)) c)"
  by (auto simp: Close_def Reset_resource_nodes tracked_def)

lemma tracked_SetInput:
  "SetInput a i x w = (res, w') \<Longrightarrow> tracked (nodes w c) \<Longrightarrow> tracked (nodes w' c)"
  by (auto simp: SetInput_def SetAt_def tracked_def world_simps
           split: option.splits if_splits prod.splits)

lemma tracked_Properties_SetAt:
  "Properties_SetAt a i x w = (hr, w') \<Longrightarrow> tracked (nodes w c) \<Longrightarrow> tracked (nodes w' c)"
  by (auto simp: Properties_SetAt_def SetAt_def tracked_def world_simps
           split: option.splits if_splits prod.splits)

section \<open>Calls on an acyclic graph\<close>

lemma upstream_ranked_advances:
  "advances dev w w' \<Longrightarrow> upstream_ranked rank w \<Longrightarrow> upstream_ranked rank w'"
  by (simp add: upstream_ranked_def advances_slots(2))

lemma Reset_resource_frame: "c \<noteq> a \<Longrightarrow> nodes (Reset_resource a w) c = nodes w c"
  by (simp add: Reset_resource_nodes)

lemma CheckDevice_frame: "CheckDevice ctx a w = (res, w') \<Longrightarrow> c \<noteq> a \<Longrightarrow> nodes w' c = nodes w c"
  by (auto simp: CheckDevice_cases Reset_resource_frame world_simps split: if_splits)

lemma CreateResource_frame:
  "CreateResource D ctx a w = (res, w') \<Longrightarrow> c \<noteq> a \<Longrightarrow> nodes w' c = nodes w c"
  by (auto simp: CreateResource_def Let_def world_simps split: option.splits if_splits)

lemma UpdateProperties_frame:
  "UpdateProperties D wr a w = (res, w') \<Longrightarrow> c \<noteq> a \<Longrightarrow> nodes w' c = nodes w c"
  by (auto simp: UpdateProperties_def world_simps split: if_splits prod.splits option.splits
           dest: SetProperties_nodes)

lemma Prepare_frame:
  assumes "Prepare D ctx a w = (res, w')" and "c \<noteq> a"
  shows "nodes w' c = nodes w c"
proof -
  obtain r1 w1 where c: "CheckDevice ctx a w = (r1, w1)" by (cases "CheckDevice ctx a w")
  have n1: "nodes w1 c = nodes w c" using c assms(2) by (rule CheckDevice_frame)
  show ?thesis
  proof (cases r1)
    case (Inl e)
    with assms c n1 show ?thesis by (simp add: Prepare_def)
  next
    case (Inr wr)
    obtain r2 w2 where cr: "CreateResource D ctx a w1 = (r2, w2)"
      by (cases "CreateResource D ctx a w1")
    have n2: "nodes w2 c = nodes w1 c" using cr assms(2) by (rule CreateResource_frame)
    show ?thesis
    proof (cases r2)
      case (Some e)
      with assms c Inr cr n1 n2 show ?thesis by (simp add: Prepare_def)
    next
      case None
      obtain r3 w3 where u: "UpdateProperties D wr a w2 = (r3, w3)"
        by (cases "UpdateProperties D wr a w2")
      have n3: "nodes w3 c = nodes w2 c" using u assms(2) by (rule UpdateProperties_frame)
      have "w' = w3" using assms c Inr cr None u by (auto simp: Prepare_def split: option.splits)
      with n1 n2 n3 show ?thesis by simp
    qed
  qed
qed

lemma frame_GetD2DImage_SetInputs:
  "\<forall>ctx res w'. dco = Some ctx \<longrightarrow> GetD2DImage D n a dco w = Some (res, w')
      \<longrightarrow> upstream_ranked rank w
      \<longrightarrow> (\<forall>c. rank a < rank c \<longrightarrow> nodes w' c = nodes w c)"
  "\<forall>res w'. SetInputs D n a deviceContext i xs w = Some (res, w')
      \<longrightarrow> upstream_ranked rank w
      \<longrightarrow> (\<forall>b. Some (EffectInput b) \<in> set xs \<longrightarrow> rank b < rank a)
      \<longrightarrow> (\<forall>c. rank a \<le> rank c \<longrightarrow> nodes w' c = nodes w c)"
proof (induction D n a dco w and D n a deviceContext i xs w rule: GetD2DImage_SetInputs.induct)
  case (1 D a dco w)
  then show ?case by simp
next
  case (2 D n a w)
  then show ?case by simp
next
  case (3 D n a deviceContext w)
  let ?dev = "dc_device deviceContext"
  obtain r1 w1 where p: "Prepare D deviceContext a w = (r1, w1)"
    by (cases "Prepare D deviceContext a w")
  have a1: "advances ?dev w w1" using p by (rule advances_Prepare)
  have f1: "nodes w1 c = nodes w c" if "c \<noteq> a" for c using p that by (rule Prepare_frame)
  show ?case
  proof (intro allI impI)
    fix ctx res w' c
    assume g: "GetD2DImage D (Suc n) a (Some deviceContext) w = Some (res, w')"
      and dag: "upstream_ranked rank w" and c: "rank a < rank c"
    from c have ca: "c \<noteq> a" by auto
    show "nodes w' c = nodes w c"
    proof (cases r1)
      case (Inl e)
      with g p have "w' = w1" by simp
      with f1 ca show ?thesis by simp
    next
      case (Inr wasRecreated)
      show ?thesis
      proof (cases "wasRecreated \<or> IsChanged (m_inputs (nodes w1 a))")
        case False
        with g p Inr have "w' = w1"
          by (auto simp: As_ID2D1Image_def split: option.splits)
        with f1 ca show ?thesis by simp
      next
        case True
        show ?thesis
        proof (cases "m_resource (nodes w1 a)")
          case None
          with g p Inr True have "w' = w1" by auto
          with f1 ca show ?thesis by simp
        next
          case (Some r)
          let ?xs = "InternalVector (m_inputs (nodes w1 a))"
          let ?w1 = "emit (Call_SetInputCount r (length ?xs)) w1"
          from g p Inr True Some obtain r2 w2 where
            s: "SetInputs D n a deviceContext 0 ?xs ?w1 = Some (r2, w2)"
            by (auto simp: Let_def split: option.splits)
          have dag1: "upstream_ranked rank ?w1"
            using upstream_ranked_advances[OF a1 dag]
            by (simp add: upstream_ranked_def world_simps)
          have below: "\<forall>b. Some (EffectInput b) \<in> set ?xs \<longrightarrow> rank b < rank a"
            using upstream_ranked_advances[OF a1 dag] by (auto simp: upstream_ranked_def)
          have "nodes w2 c = nodes ?w1 c"
            using "3.IH"[OF p[symmetric] Inr True Some refl] s dag1 below c by auto
          then have n2: "nodes w2 c = nodes w c" using f1 ca by (simp add: world_simps)
          show ?thesis
          proof (cases r2)
            case (Some e)
            with g p Inr True \<open>m_resource (nodes w1 a) = Some r\<close> s have "w' = w2"
              by (auto simp: Let_def)
            with n2 show ?thesis by simp
          next
            case None
            from None g p Inr True \<open>m_resource (nodes w1 a) = Some r\<close> s
            have "w' = put a (\<lambda>e. e\<lparr>m_inputs := SetChanged False (m_inputs e)\<rparr>) w2"
              by (auto simp: Let_def As_ID2D1Image_def split: option.splits)
            with n2 ca show ?thesis by (simp add: world_simps)
          qed
        qed
      qed
    qed
  qed
next
  case (4 D n a deviceContext i w)
  then show ?case by simp
next
  case (5 D n a deviceContext i rest w)
  then show ?case by simp
next
  case (6 D n a deviceContext i input rest w)
  let ?dev = "dc_device deviceContext"
  let ?hr = "As_ICanvasImageInternal input"
  show ?case
  proof (intro allI impI)
    fix res w' c
    assume s: "SetInputs D n a deviceContext i (Some input # rest) w = Some (res, w')"
      and dag: "upstream_ranked rank w"
      and below: "\<forall>b. Some (EffectInput b) \<in> set (Some input # rest) \<longrightarrow> rank b < rank a"
      and c: "rank a \<le> rank c"
    show "nodes w' c = nodes w c"
    proof (cases "?hr = E_NOINTERFACE \<or> ThrowIfFailed ?hr \<noteq> None")
      case True
      with s show ?thesis by (auto simp: Let_def split: if_splits)
    next
      case False
      then have h1: "?hr \<noteq> E_NOINTERFACE" and h2: "ThrowIfFailed ?hr = None" by auto
      let ?call = "case input of
            EffectInput b \<Rightarrow> GetD2DImage D n b (Some deviceContext) w
          | ImageInput res \<Rightarrow> Some (res, w)
          | ForeignInput h \<Rightarrow> Some (Inl AccessViolation, w)"
      from s h1 h2 obtain r1 w1 where call: "?call = Some (r1, w1)"
        by (auto simp: Let_def split: option.splits)
      have a1: "advances ?dev w w1" using call by (rule advances_input_call)
      have n1: "nodes w1 c = nodes w c"
      proof (cases input)
        case (EffectInput b)
        with call have g: "GetD2DImage D n b (Some deviceContext) w = Some (r1, w1)" by simp
        have "rank b < rank c" using below c EffectInput by auto
        with "6.IH"(1)[OF refl h1 h2 EffectInput] g dag show ?thesis by blast
      next
        case (ImageInput x)
        with call show ?thesis by simp
      next
        case (ForeignInput h)
        with call show ?thesis by simp
      qed
      show ?thesis
      proof (cases r1)
        case (Inl e)
        with s h1 h2 call have "w' = w1" by (auto simp: Let_def)
        with n1 show ?thesis by simp
      next
        case (Inr img)
        show ?thesis
        proof (cases "m_resource (nodes w1 a)")
          case None
          with s h1 h2 call Inr have "w' = w1" by (auto simp: Let_def)
          with n1 show ?thesis by simp
        next
          case (Some r)
          let ?w2 = "emit (Call_SetInput r i img) w1"
          from s h1 h2 call Inr Some
          have s2: "SetInputs D n a deviceContext (Suc i) rest ?w2 = Some (res, w')"
            by (auto simp: Let_def)
          have dag2: "upstream_ranked rank ?w2"
            using upstream_ranked_advances[OF a1 dag]
            by (simp add: upstream_ranked_def world_simps)
          have below2: "\<forall>b. Some (EffectInput b) \<in> set rest \<longrightarrow> rank b < rank a"
            using below by auto
          have "nodes w' c = nodes ?w2 c"
            using "6.IH"(2)[OF refl h1 h2 call refl Inr Some] s2 dag2 below2 c by blast
          with n1 show ?thesis by (simp add: world_simps)
        qed
      qed
    qed
  qed
qed

lemma SetInputs_frame_self:
  assumes "SetInputs D n a ctx 0 (InternalVector (m_inputs (nodes w a))) w = Some (res, w')"
    and "upstream_ranked rank w"
  shows "nodes w' a = nodes w a"
proof -
  have "\<forall>b. Some (EffectInput b) \<in> set (InternalVector (m_inputs (nodes w a))) \<longrightarrow> rank b < rank a"
    using assms(2) by (auto simp: upstream_ranked_def)
  with frame_GetD2DImage_SetInputs(2)[of D n a ctx 0 _ w rank] assms show ?thesis by blast
qed

section \<open>The changed flags after a call\<close>

lemma Prepare_Inl_flags:
  assumes "Prepare D ctx a w = (Inl e, w1)"
  shows "IsChanged (m_properties (nodes w1 a)) = IsChanged (m_properties (nodes w a))"
    and "\<not> properties_step_completed D ctx a w"
    and "m_inputs (nodes w1 a) = m_inputs (nodes w a)"
proof -
  obtain r1 v1 where c: "CheckDevice ctx a w = (r1, v1)" by (cases "CheckDevice ctx a w")
  have goal: "IsChanged (m_properties (nodes w1 a)) = IsChanged (m_properties (nodes w a)) \<and>
     \<not> properties_step_completed D ctx a w \<and> m_inputs (nodes w1 a) = m_inputs (nodes w a)"
  proof (cases r1)
    case (Inl e1)
    with assms c have "w1 = v1" by (simp add: Prepare_def)
    moreover from c Inl have "v1 = w" by (auto simp: CheckDevice_cases split: if_splits)
    ultimately show ?thesis using c Inl by (simp add: properties_step_completed_def)
  next
    case (Inr wr)
    note cs = CheckDevice_success[OF c[unfolded Inr]]
    obtain r2 v2 where cr: "CreateResource D ctx a v1 = (r2, v2)"
      by (cases "CreateResource D ctx a v1")
    show ?thesis
    proof (cases r2)
      case (Some e2)
      with assms c Inr cr have "w1 = v2" by (simp add: Prepare_def)
      moreover from cr Some have "nodes v2 = nodes v1"
        by (auto simp: CreateResource_def Let_def world_simps split: option.splits if_splits)
      ultimately show ?thesis
        using c Inr cr Some cs(4,5) by (simp add: properties_step_completed_def)
    next
      case None
      note crs = CreateResource_success[OF cr[unfolded None]]
      obtain r3 v3 where sp: "SetProperties D a v2 = (r3, v3)" by (cases "SetProperties D a v2")
      have n3: "nodes v3 = nodes v2" using sp by (rule SetProperties_nodes)
      from assms c Inr cr None obtain e3 where u: "UpdateProperties D wr a v2 = (Some e3, w1)"
        by (auto simp: Prepare_def split: prod.splits option.splits)
      with sp have "r3 = Some e3" "w1 = v3" "wr \<or> IsChanged (m_properties (nodes v2 a))"
        by (auto simp: UpdateProperties_def split: if_splits option.splits)
      then show ?thesis
        using c Inr cr None sp n3 cs(4,5) crs(3,4)
        by (simp add: properties_step_completed_def)
    qed
  qed
  then show "IsChanged (m_properties (nodes w1 a)) = IsChanged (m_properties (nodes w a))"
    and "\<not> properties_step_completed D ctx a w"
    and "m_inputs (nodes w1 a) = m_inputs (nodes w a)" by simp_all
qed

lemma Prepare_Inr_completed:
  assumes "Prepare D ctx a w = (Inr wr, w1)"
  shows "properties_step_completed D ctx a w \<longleftrightarrow>
           wr \<or> IsChanged (m_properties (nodes w a))"
proof -
  from assms obtain v1 v2 where c: "CheckDevice ctx a w = (Inr wr, v1)"
    and cr: "CreateResource D ctx a v1 = (None, v2)"
    and u: "UpdateProperties D wr a v2 = (None, w1)"
    by (rule Prepare_Inr)
  have p2: "m_properties (nodes v2 a) = m_properties (nodes w a)"
    using CheckDevice_success(4)[OF c] CreateResource_success(3)[OF cr] by simp
  from u have "wr \<or> IsChanged (m_properties (nodes v2 a)) \<Longrightarrow> fst (SetProperties D a v2) = None"
    by (auto simp: UpdateProperties_def split: prod.splits option.splits)
  then show ?thesis using c cr p2 by (auto simp: properties_step_completed_def)
qed

text \<open>
  Claim C6 says that a failure partway through an apply step leaves the changed flag of
  that step set, so that the next call retries the step. Here nodes 0 and 1 (the input of
  node 0) are realized on device 1, which clears the flags of both, and node 1 is then
  given a property without an encoding. \<open>GetD2DImage\<close> on node 0 with a context of device 2
  runs the inputs-apply step of node 0 because the device changed; the step sets the
  input count and fails in the realization of node 1 with \<open>E_NOTIMPL\<close>. The
  inputs-changed flag of node 0 is not set afterwards. After node 1 is given a good
  property, the next call on node 0 makes no device call at all and returns the image of
  resource 2, whose input 0 was never bound.
\<close>

theorem failed_inputs_step_is_not_retried:
  "fst (Prepare D_ok dcB 0 realized_then_bad_upstream) = Inr True \<and>
   observe 0 (GetD2DImage D_ok 2 0 (Some dcB) realized_then_bad_upstream) =
     Some (Inl (ThrowHR E_NOTIMPL),
       \<lparr>m_effectId = 5,
          m_properties = \<lparr>InternalVector = [Some (PropertyValue_UInt32 7)],
                          IsChanged = False, isFixedSize = True\<rparr>,
          m_inputs = \<lparr>InternalVector = [Some (EffectInput 1)],
                      IsChanged = False, isFixedSize = True\<rparr>,
          m_previousDeviceIdentity = Some 2, m_resource = Some 2\<rparr>,
       [Call_CreateEffect 100 5 0, Call_SetValue 0 0 (Value_UINT32 7), Call_SetInputCount 0 1,
        Call_CreateEffect 100 6 1, Call_SetValue 1 0 (Value_FLOAT 3), Call_SetInputCount 1 0,
        Call_SetInput 0 0 (EffectOutput 1),
        Call_Release 0, Call_CreateEffect 200 5 2, Call_SetValue 2 0 (Value_UINT32 7),
        Call_SetInputCount 2 1, Call_Release 1, Call_CreateEffect 200 6 3]) \<and>
   observe 0 (GetD2DImage D_ok 2 0 (Some dcB)
       (run D_ok 2 [Act_GetD2DImage 0 dcB, Act_SetProperty 1 0 (PropertyValue_Single 4)]
          realized_then_bad_upstream)) =
     Some (Inr (EffectOutput 2),
       \<lparr>m_effectId = 5,
          m_properties = \<lparr>InternalVector = [Some (PropertyValue_UInt32 7)],
                          IsChanged = False, isFixedSize = True\<rparr>,
          m_inputs = \<lparr>InternalVector = [Some (EffectInput 1)],
                      IsChanged = False, isFixedSize = True\<rparr>,
          m_previousDeviceIdentity = Some 2, m_resource = Some 2\<rparr>,
       [Call_CreateEffect 100 5 0, Call_SetValue 0 0 (Value_UINT32 7), Call_SetInputCount 0 1,
        Call_CreateEffect 100 6 1, Call_SetValue 1 0 (Value_FLOAT 3), Call_SetInputCount 1 0,
        Call_SetInput 0 0 (EffectOutput 1),
        Call_Release 0, Call_CreateEffect 200 5 2, Call_SetValue 2 0 (Value_UINT32 7),
        Call_SetInputCount 2 1, Call_Release 1, Call_CreateEffect 200 6 3])"
  by code_simp

text \<open>
  Claim C6, amended. For a call of \<open>GetD2DImage\<close> on a node of an acyclic graph that
  returns, with a result or a failure: the properties-changed flag is set afterwards
  exactly when it was set before and the properties-apply step did not run to completion
  in this call, and the same holds of the inputs-changed flag and the inputs-apply step.
  So a flag is cleared exactly by its step running and completing, and a failure partway
  through a step leaves the flag of that step as it was before the call. A flag that is
  set after the call makes the next call run that step when it gets to it.
\<close>

theorem changed_flags_after_GetD2DImage:
  assumes call: "GetD2DImage D (Suc n) a (Some ctx) w = Some (res, w')"
    and dag: "upstream_ranked rank w"
  shows "(IsChanged (m_properties (nodes w' a)) \<longleftrightarrow>
            IsChanged (m_properties (nodes w a)) \<and> \<not> properties_step_completed D ctx a w) \<and>
         (IsChanged (m_inputs (nodes w' a)) \<longleftrightarrow>
            IsChanged (m_inputs (nodes w a)) \<and> \<not> inputs_step_completed D n ctx a w) \<and>
         (IsChanged (m_properties (nodes w' a)) \<longrightarrow>
            (\<forall>ctx' wr u1 u2.
               CheckDevice ctx' a w' = (Inr wr, u1) \<longrightarrow> CreateResource D ctx' a u1 = (None, u2) \<longrightarrow>
               UpdateProperties D wr a u2 =
                 (case SetProperties D a u2 of
                    (Some e, u3) \<Rightarrow> (Some e, u3)
                  | (None, u3) \<Rightarrow>
                      (None, put a (\<lambda>e. e\<lparr>m_properties := SetChanged False (m_properties e)\<rparr>) u3)))) \<and>
         (IsChanged (m_inputs (nodes w' a)) \<longrightarrow>
            (\<forall>ctx' m wr u1 r.
               Prepare D ctx' a w' = (Inr wr, u1) \<longrightarrow> m_resource (nodes u1 a) = Some r \<longrightarrow>
               GetD2DImage D (Suc m) a (Some ctx') w' =
                 (case SetInputs D m a ctx' 0 (InternalVector (m_inputs (nodes w' a)))
                         (emit (Call_SetInputCount r
                            (length (InternalVector (m_inputs (nodes w' a))))) u1) of
                    None \<Rightarrow> None
                  | Some (Some e, u2) \<Rightarrow> Some (Inl e, u2)
                  | Some (None, u2) \<Rightarrow>
                      Some (As_ID2D1Image D a
                              (put a (\<lambda>e. e\<lparr>m_inputs := SetChanged False (m_inputs e)\<rparr>) u2)))))"
proof -
  let ?dev = "dc_device ctx"
  obtain r1 w1 where p: "Prepare D ctx a w = (r1, w1)" by (cases "Prepare D ctx a w")
  have flags: "(IsChanged (m_properties (nodes w' a)) \<longleftrightarrow>
            IsChanged (m_properties (nodes w a)) \<and> \<not> properties_step_completed D ctx a w) \<and>
         (IsChanged (m_inputs (nodes w' a)) \<longleftrightarrow>
            IsChanged (m_inputs (nodes w a)) \<and> \<not> inputs_step_completed D n ctx a w)"
  proof (cases r1)
    case (Inl e)
    with call p have "w' = w1" by simp
    with Prepare_Inl_flags[OF p[unfolded Inl]] p Inl show ?thesis
      by (simp add: inputs_step_completed_def)
  next
    case (Inr wr)
    note prep = p[unfolded Inr]
    note ps = Prepare_success[OF prep]
    note pc = Prepare_Inr_completed[OF prep]
    from ps(4) obtain r where r: "m_resource (nodes w1 a) = Some r" by blast
    have in1: "m_inputs (nodes w1 a) = m_inputs (nodes w a)" using ps(6) .
    have props1: "IsChanged (m_properties (nodes w a)) \<longrightarrow> properties_step_completed D ctx a w"
      using pc by simp
    show ?thesis
    proof (cases "wr \<or> IsChanged (m_inputs (nodes w a))")
      case False
      with call prep in1 have "w' = w1"
        by (auto simp: As_ID2D1Image_def split: option.splits)
      with ps(5) props1 in1 False prep show ?thesis
        by (simp add: inputs_step_completed_def)
    next
      case True
      let ?xs = "InternalVector (m_inputs (nodes w a))"
      let ?w1 = "emit (Call_SetInputCount r (length ?xs)) w1"
      note step = GetD2DImage_inputs_step[OF prep True r, of n]
      from call[unfolded step] obtain x w2 where
        s: "SetInputs D n a ctx 0 ?xs ?w1 = Some (x, w2)"
        by (auto split: option.splits)
      have adv: "advances ?dev ?w1 w2" using s by (rule advances_SetInputs)
      have pf2: "\<not> IsChanged (m_properties (nodes w2 a))"
        using advances_flags(1)[OF adv] ps(5) by (simp add: world_simps)
      have dag1: "upstream_ranked rank ?w1"
        using upstream_ranked_advances[OF advances_Prepare[OF prep] dag]
        by (simp add: upstream_ranked_def world_simps)
      have xs1: "InternalVector (m_inputs (nodes ?w1 a)) = ?xs" using in1 by (simp add: world_simps)
      have same: "nodes w2 a = nodes ?w1 a"
        using SetInputs_frame_self[of D n a ctx ?w1, unfolded xs1, OF s dag1] .
      have compl: "inputs_step_completed D n ctx a w \<longleftrightarrow> x = None"
        using prep True r in1 s by (cases x) (auto simp: inputs_step_completed_def)
      show ?thesis
      proof (cases x)
        case (Some e)
        with call[unfolded step] s have "w' = w2" by simp
        with pf2 props1 same in1 compl Some show ?thesis by (simp add: world_simps)
      next
        case None
        with call[unfolded step] s
        have "w' = put a (\<lambda>e. e\<lparr>m_inputs := SetChanged False (m_inputs e)\<rparr>) w2"
          by (auto simp: As_ID2D1Image_def split: option.splits)
        with pf2 props1 compl None show ?thesis by (simp add: world_simps SetChanged_def)
      qed
    qed
  qed
  have retry1: "UpdateProperties D wr a u2 =
       (case SetProperties D a u2 of
          (Some e, u3) \<Rightarrow> (Some e, u3)
        | (None, u3) \<Rightarrow>
            (None, put a (\<lambda>e. e\<lparr>m_properties := SetChanged False (m_properties e)\<rparr>) u3))"
    if "IsChanged (m_properties (nodes w' a))" and c: "CheckDevice ctx' a w' = (Inr wr, u1)"
      and cr: "CreateResource D ctx' a u1 = (None, u2)"
    for ctx' wr u1 u2
  proof -
    have "m_properties (nodes u2 a) = m_properties (nodes w' a)"
      using CheckDevice_success(4)[OF c] CreateResource_success(3)[OF cr] by simp
    with that(1) show ?thesis by (simp add: UpdateProperties_def)
  qed
  have retry2: "GetD2DImage D (Suc m) a (Some ctx') w' =
       (case SetInputs D m a ctx' 0 (InternalVector (m_inputs (nodes w' a)))
               (emit (Call_SetInputCount r
                  (length (InternalVector (m_inputs (nodes w' a))))) u1) of
          None \<Rightarrow> None
        | Some (Some e, u2) \<Rightarrow> Some (Inl e, u2)
        | Some (None, u2) \<Rightarrow>
            Some (As_ID2D1Image D a
                    (put a (\<lambda>e. e\<lparr>m_inputs := SetChanged False (m_inputs e)\<rparr>) u2)))"
    if "IsChanged (m_inputs (nodes w' a))" and pr: "Prepare D ctx' a w' = (Inr wr, u1)"
      and "m_resource (nodes u1 a) = Some r"
    for ctx' m wr u1 r
    using GetD2DImage_inputs_step[OF pr _ that(3), of m] that(1) by simp
  from flags retry1 retry2 show ?thesis by blast
qed

lemma upstream_ranked_bad_upstream: "upstream_ranked rank_two_nodes bad_upstream"
  unfolding upstream_ranked_def rank_two_nodes_def bad_upstream_def two_nodes_def new_world_def
  by (auto simp: Properties_SetAt_def SetInput_def SetAt_def world_simps CanvasEffect_ctor_def
      Make_Vector_def SetChanged_def ThrowIfFailed_def FAILED_codes Let_def split: if_splits)

theorem changed_flags_after_GetD2DImage_witness:
  "GetD2DImage D_ok (Suc 1) 0 (Some dcA) bad_upstream =
     Some (Inl (ThrowHR E_NOTIMPL), run D_ok (Suc 1) [Act_GetD2DImage 0 dcA] bad_upstream) \<and>
   upstream_ranked rank_two_nodes bad_upstream \<and>
   IsChanged (m_properties (nodes bad_upstream 0)) = True \<and>
   properties_step_completed D_ok dcA 0 bad_upstream = True \<and>
   IsChanged (m_properties (nodes (run D_ok (Suc 1) [Act_GetD2DImage 0 dcA] bad_upstream) 0)) = False \<and>
   IsChanged (m_inputs (nodes bad_upstream 0)) = True \<and>
   inputs_step_completed D_ok 1 dcA 0 bad_upstream = False \<and>
   IsChanged (m_inputs (nodes (run D_ok (Suc 1) [Act_GetD2DImage 0 dcA] bad_upstream) 0)) = True"
proof -
  let ?w' = "run D_ok (Suc 1) [Act_GetD2DImage 0 dcA] bad_upstream"
  have call: "GetD2DImage D_ok (Suc 1) 0 (Some dcA) bad_upstream = Some (Inl (ThrowHR E_NOTIMPL), ?w')"
    by (rule GetD2DImage_as_run) code_simp
  have before: "IsChanged (m_properties (nodes bad_upstream 0)) = True"
    "IsChanged (m_inputs (nodes bad_upstream 0)) = True" by code_simp+
  have steps: "properties_step_completed D_ok dcA 0 bad_upstream = True"
    "inputs_step_completed D_ok 1 dcA 0 bad_upstream = False" by code_simp+
  from changed_flags_after_GetD2DImage[OF call upstream_ranked_bad_upstream]
  have "IsChanged (m_properties (nodes ?w' 0)) = False" "IsChanged (m_inputs (nodes ?w' 0)) = True"
    unfolding before steps by blast+
  with call upstream_ranked_bad_upstream before steps show ?thesis by blast
qed

section \<open>The record of a call\<close>

text \<open>The traced functions return what the functions above return.\<close>

lemma untraced_simps:
  "untraced None = None" "untraced (Some (res, w, tr)) = Some (res, w)"
  "untraced (Some (returned a dco w0 tr0 out)) = Some out"
  by (simp_all add: untraced_def returned_def)

lemma untraced_GetD2DImage_SetInputs:
  "untraced (GetD2DImage_traced D n a dco w) = GetD2DImage D n a dco w"
  "untraced (SetInputs_traced D n a deviceContext i xs w) = SetInputs D n a deviceContext i xs w"
proof (induction D n a dco w and D n a deviceContext i xs w
       rule: GetD2DImage_traced_SetInputs_traced.induct)
  case (1 D a dco w)
  then show ?case by (simp add: untraced_simps)
next
  case (2 D n a w)
  then show ?case by (simp add: untraced_simps)
next
  case (3 D n a deviceContext w)
  obtain r1 w1 where p: "Prepare D deviceContext a w = (r1, w1)"
    by (cases "Prepare D deviceContext a w")
  show ?case
  proof (cases r1)
    case (Inl e)
    with p show ?thesis by (simp add: untraced_simps)
  next
    case (Inr wr)
    show ?thesis
    proof (cases "wr \<or> IsChanged (m_inputs (nodes w1 a))")
      case False
      with p Inr show ?thesis by (simp add: untraced_simps)
    next
      case True
      show ?thesis
      proof (cases "m_resource (nodes w1 a)")
        case None
        with p Inr True show ?thesis by (auto simp: untraced_simps)
      next
        case (Some r)
        let ?xs = "InternalVector (m_inputs (nodes w1 a))"
        let ?w1 = "emit (Call_SetInputCount r (length ?xs)) w1"
        have ih: "untraced (SetInputs_traced D n a deviceContext 0 ?xs ?w1)
                    = SetInputs D n a deviceContext 0 ?xs ?w1"
          using "3.IH"[OF p[symmetric] Inr True Some refl] .
        show ?thesis
        proof (cases "SetInputs_traced D n a deviceContext 0 ?xs ?w1")
          case None
          with ih have "SetInputs D n a deviceContext 0 ?xs ?w1 = None"
            by (simp add: untraced_simps)
          with None p Inr True Some show ?thesis by (auto simp: untraced_simps Let_def)
        next
          case (Some out)
          obtain x w2 tr where out: "out = (x, w2, tr)" by (cases out)
          with Some ih have "SetInputs D n a deviceContext 0 ?xs ?w1 = Some (x, w2)"
            by (simp add: untraced_simps)
          with Some out p Inr True \<open>m_resource (nodes w1 a) = Some r\<close> show ?thesis
            by (cases x) (auto simp: untraced_simps Let_def)
        qed
      qed
    qed
  qed
next
  case (4 D n a deviceContext i w)
  then show ?case by (simp add: untraced_simps)
next
  case (5 D n a deviceContext i rest w)
  then show ?case by (simp add: untraced_simps)
next
  case (6 D n a deviceContext i input rest w)
  let ?hr = "As_ICanvasImageInternal input"
  show ?case
  proof (cases "?hr = E_NOINTERFACE \<or> ThrowIfFailed ?hr \<noteq> None")
    case True
    then show ?thesis by (auto simp: untraced_simps Let_def)
  next
    case False
    then have h1: "?hr \<noteq> E_NOINTERFACE" and h2: "ThrowIfFailed ?hr = None" by auto
    let ?callT = "case input of
          EffectInput b \<Rightarrow> GetD2DImage_traced D n b (Some deviceContext) w
        | ImageInput res \<Rightarrow> Some (res, w, [])
        | ForeignInput h \<Rightarrow> Some (Inl AccessViolation, w, [])"
    let ?call = "case input of
          EffectInput b \<Rightarrow> GetD2DImage D n b (Some deviceContext) w
        | ImageInput res \<Rightarrow> Some (res, w)
        | ForeignInput h \<Rightarrow> Some (Inl AccessViolation, w)"
    have c: "untraced ?callT = ?call"
    proof (cases input)
      case (EffectInput b)
      with "6.IH"(1)[OF refl h1 h2 EffectInput] show ?thesis by simp
    qed (simp_all add: untraced_simps)
    show ?thesis
    proof (cases ?callT)
      case None
      with c have "?call = None" by (simp add: untraced_simps)
      with None h1 h2 show ?thesis by (simp add: untraced_simps Let_def)
    next
      case (Some out)
      obtain r1 w1 tr where out: "out = (r1, w1, tr)" by (cases out)
      with Some c have call: "?call = Some (r1, w1)" by (simp add: untraced_simps)
      show ?thesis
      proof (cases r1)
        case (Inl e)
        with Some out call h1 h2 show ?thesis by (simp add: untraced_simps Let_def)
      next
        case (Inr img)
        show ?thesis
        proof (cases "m_resource (nodes w1 a)")
          case None
          with Some out call h1 h2 Inr show ?thesis by (simp add: untraced_simps Let_def)
        next
          case (Some r)
          let ?w2 = "emit (Call_SetInput r i img) w1"
          have ih: "untraced (SetInputs_traced D n a deviceContext (Suc i) rest ?w2)
                      = SetInputs D n a deviceContext (Suc i) rest ?w2"
            using "6.IH"(2)[OF refl h1 h2 \<open>?callT = Some out\<close> out[symmetric] Inr refl Some]
            by simp
          show ?thesis
            using \<open>?callT = Some out\<close> out call h1 h2 Inr Some ih
            by (cases "SetInputs_traced D n a deviceContext (Suc i) rest ?w2")
               (auto simp: untraced_simps Let_def untraced_def)
        qed
      qed
    qed
  qed
qed

lemma traced_Some:
  "GetD2DImage_traced D n a dco w = Some (res, w', tr) \<Longrightarrow> GetD2DImage D n a dco w = Some (res, w')"
  "SetInputs_traced D n a ctx i xs w = Some (x, w', tr) \<Longrightarrow> SetInputs D n a ctx i xs w = Some (x, w')"
  using untraced_GetD2DImage_SetInputs(1)[of D n a dco w]
    untraced_GetD2DImage_SetInputs(2)[of D n a ctx i xs w]
  by (auto simp: untraced_simps)

lemma Some_traced:
  "GetD2DImage D n a dco w = Some (res, w') \<Longrightarrow> \<exists>tr. GetD2DImage_traced D n a dco w = Some (res, w', tr)"
  "SetInputs D n a ctx i xs w = Some (x, w') \<Longrightarrow> \<exists>tr. SetInputs_traced D n a ctx i xs w = Some (x, w', tr)"
  using untraced_GetD2DImage_SetInputs(1)[of D n a dco w]
    untraced_GetD2DImage_SetInputs(2)[of D n a ctx i xs w]
  by (auto simp: untraced_def)

lemma traced_input_call:
  assumes "(case input of
          EffectInput b \<Rightarrow> GetD2DImage_traced D n b (Some ctx) w
        | ImageInput res \<Rightarrow> Some (res, w, [])
        | ForeignInput h \<Rightarrow> Some (Inl AccessViolation, w, [])) = Some (r1, w1, tr)"
  shows "(case input of
          EffectInput b \<Rightarrow> GetD2DImage D n b (Some ctx) w
        | ImageInput res \<Rightarrow> Some (res, w)
        | ForeignInput h \<Rightarrow> Some (Inl AccessViolation, w)) = Some (r1, w1)"
  using assms by (cases input) (auto dest: traced_Some)

lemma returned_eq:
  "returned a dco w tr0 out = (res, w', tr) \<longleftrightarrow>
     out = (res, w') \<and>
     tr = tr0 @ [\<lparr>rz_node = a, rz_context = dco, rz_result = res,
                   rz_calls = drop (length (d2d_log w)) (d2d_log w')\<rparr>]"
  by (cases out) (auto simp: returned_def)

text \<open>The shape of a traced call: the record of the loop, then the call itself.\<close>

lemma GetD2DImage_traced_shape:
  assumes "GetD2DImage_traced D (Suc n) a (Some ctx) w = Some (res, w', tr)"
  obtains (no_loop) "tr = [\<lparr>rz_node = a, rz_context = Some ctx, rz_result = res,
                   rz_calls = drop (length (d2d_log w)) (d2d_log w')\<rparr>]"
  | (loop) wr w1 r x w2 tr0 where "Prepare D ctx a w = (Inr wr, w1)"
      "wr \<or> IsChanged (m_inputs (nodes w1 a))" "m_resource (nodes w1 a) = Some r"
      "SetInputs_traced D n a ctx 0 (InternalVector (m_inputs (nodes w1 a)))
          (emit (Call_SetInputCount r (length (InternalVector (m_inputs (nodes w1 a))))) w1)
        = Some (x, w2, tr0)"
      "tr = tr0 @ [\<lparr>rz_node = a, rz_context = Some ctx, rz_result = res,
                   rz_calls = drop (length (d2d_log w)) (d2d_log w')\<rparr>]"
proof -
  obtain r1 w1 where p: "Prepare D ctx a w = (r1, w1)" by (cases "Prepare D ctx a w")
  show ?thesis
  proof (cases r1)
    case (Inl e)
    with assms p show ?thesis by (auto simp: returned_eq intro: no_loop)
  next
    case (Inr wr)
    show ?thesis
    proof (cases "wr \<or> IsChanged (m_inputs (nodes w1 a))")
      case False
      with assms p Inr show ?thesis by (auto simp: returned_eq intro: no_loop)
    next
      case True
      show ?thesis
      proof (cases "m_resource (nodes w1 a)")
        case None
        with assms p Inr True show ?thesis by (auto simp: returned_eq intro: no_loop)
      next
        case (Some r)
        let ?xs = "InternalVector (m_inputs (nodes w1 a))"
        let ?w1 = "emit (Call_SetInputCount r (length ?xs)) w1"
        from assms p Inr True Some obtain x w2 tr0 where
          s: "SetInputs_traced D n a ctx 0 ?xs ?w1 = Some (x, w2, tr0)"
          by (auto simp: Let_def split: option.splits)
        with assms p Inr True Some
        have "tr = tr0 @ [\<lparr>rz_node = a, rz_context = Some ctx, rz_result = res,
                   rz_calls = drop (length (d2d_log w)) (d2d_log w')\<rparr>]"
          by (cases x) (auto simp: Let_def returned_eq)
        with p Inr True Some s show ?thesis by (auto intro: loop)
      qed
    qed
  qed
qed

lemma SetInputs_traced_Cons:
  assumes "SetInputs_traced D n a ctx i (x # rest) w = Some (res, w', tr)"
  obtains (stop) "tr = []" "res \<noteq> None"
  | (thrown) input e where "x = Some input"
      "(case input of
          EffectInput b \<Rightarrow> GetD2DImage_traced D n b (Some ctx) w
        | ImageInput res \<Rightarrow> Some (res, w, [])
        | ForeignInput h \<Rightarrow> Some (Inl AccessViolation, w, [])) = Some (Inl e, w', tr)"
      "res = Some e"
  | (lost) input img where "x = Some input"
      "(case input of
          EffectInput b \<Rightarrow> GetD2DImage_traced D n b (Some ctx) w
        | ImageInput res \<Rightarrow> Some (res, w, [])
        | ForeignInput h \<Rightarrow> Some (Inl AccessViolation, w, [])) = Some (Inr img, w', tr)"
      "res \<noteq> None"
  | (bound) input img w1 tr1 r tr2 where "x = Some input"
      "(case input of
          EffectInput b \<Rightarrow> GetD2DImage_traced D n b (Some ctx) w
        | ImageInput res \<Rightarrow> Some (res, w, [])
        | ForeignInput h \<Rightarrow> Some (Inl AccessViolation, w, [])) = Some (Inr img, w1, tr1)"
      "m_resource (nodes w1 a) = Some r"
      "SetInputs_traced D n a ctx (Suc i) rest (emit (Call_SetInput r i img) w1) = Some (res, w', tr2)"
      "tr = tr1 @ tr2"
proof (cases x)
  case None
  with assms show ?thesis by (auto intro: stop)
next
  case (Some input)
  let ?hr = "As_ICanvasImageInternal input"
  let ?callT = "case input of
          EffectInput b \<Rightarrow> GetD2DImage_traced D n b (Some ctx) w
        | ImageInput res \<Rightarrow> Some (res, w, [])
        | ForeignInput h \<Rightarrow> Some (Inl AccessViolation, w, [])"
  show ?thesis
  proof (cases "?hr = E_NOINTERFACE \<or> ThrowIfFailed ?hr \<noteq> None")
    case True
    then consider "?hr = E_NOINTERFACE"
      | e where "?hr \<noteq> E_NOINTERFACE" "ThrowIfFailed ?hr = Some e" by auto
    then have "tr = [] \<and> res \<noteq> None"
    proof cases
      case 1
      with assms Some show ?thesis by (auto simp: Let_def)
    next
      case 2
      from assms Some 2 have "res = Some e \<and> tr = []" by (simp add: Let_def)
      then show ?thesis by simp
    qed
    then show ?thesis using stop by blast
  next
    case False
    then have h1: "?hr \<noteq> E_NOINTERFACE" and h2: "ThrowIfFailed ?hr = None" by auto
    from assms Some h1 h2 obtain r1 w1 tr1 where c: "?callT = Some (r1, w1, tr1)"
      by (auto simp: Let_def split: option.splits)
    show ?thesis
    proof (cases r1)
      case (Inl e)
      with assms Some h1 h2 c show ?thesis by (auto simp: Let_def intro: thrown)
    next
      case (Inr img)
      show ?thesis
      proof (cases "m_resource (nodes w1 a)")
        case None
        with assms Some h1 h2 c Inr show ?thesis by (auto simp: Let_def intro: lost)
      next
        case (Some r)
        with assms \<open>x = Some input\<close> h1 h2 c Inr obtain tr2 where
          "SetInputs_traced D n a ctx (Suc i) rest (emit (Call_SetInput r i img) w1) = Some (res, w', tr2)"
          "tr = tr1 @ tr2"
          by (auto simp: Let_def split: option.splits)
        with \<open>x = Some input\<close> c Inr Some show ?thesis by (auto intro: bound)
      qed
    qed
  qed
qed

lemma advances_traced_input_call:
  assumes "(case input of
          EffectInput b \<Rightarrow> GetD2DImage_traced D n b (Some ctx) w
        | ImageInput res \<Rightarrow> Some (res, w, [])
        | ForeignInput h \<Rightarrow> Some (Inl AccessViolation, w, [])) = Some (r1, w1, tr)"
  shows "advances (dc_device ctx) w w1"
  using traced_input_call[OF assms] by (rule advances_input_call)

lemma upstream_ranked_emit: "upstream_ranked rank (emit c w) = upstream_ranked rank w"
  by (simp add: upstream_ranked_def world_simps)

lemma SetInputs_traced_record:
  assumes H: "\<And>b w res w' tr. GetD2DImage_traced D n b (Some ctx) w = Some (res, w', tr) \<Longrightarrow>
            (\<forall>x\<in>set tr. rz_context x = Some ctx) \<and>
            (upstream_ranked rank w \<longrightarrow> (\<forall>x\<in>set tr. rank (rz_node x) \<le> rank b))"
    and "SetInputs_traced D n a ctx i xs w = Some (res, w', tr)"
  shows "(\<forall>x\<in>set tr. rz_context x = Some ctx) \<and>
         (upstream_ranked rank w \<longrightarrow> (\<forall>b. Some (EffectInput b) \<in> set xs \<longrightarrow> rank b < rank a)
            \<longrightarrow> (\<forall>x\<in>set tr. rank (rz_node x) < rank a))"
  using assms(2)
proof (induction xs arbitrary: i w tr)
  case Nil
  then show ?case by simp
next
  case (Cons x xs)
  have call_facts:
    "(\<forall>y\<in>set tr1. rz_context y = Some ctx) \<and>
     (upstream_ranked rank w \<longrightarrow> (\<forall>b. Some (EffectInput b) \<in> set (x # xs) \<longrightarrow> rank b < rank a)
        \<longrightarrow> (\<forall>y\<in>set tr1. rank (rz_node y) < rank a))"
    if "x = Some input"
      and "(case input of
          EffectInput b \<Rightarrow> GetD2DImage_traced D n b (Some ctx) w
        | ImageInput res \<Rightarrow> Some (res, w, [])
        | ForeignInput h \<Rightarrow> Some (Inl AccessViolation, w, [])) = Some (r1, w1, tr1)"
    for input r1 w1 tr1
  proof (cases input)
    case (EffectInput b)
    with that have "GetD2DImage_traced D n b (Some ctx) w = Some (r1, w1, tr1)" by simp
    from H[OF this] that(1) EffectInput show ?thesis by fastforce
  next
    case (ImageInput res)
    with that show ?thesis by auto
  next
    case (ForeignInput h)
    with that show ?thesis by auto
  qed
  from Cons.prems show ?case
  proof (cases rule: SetInputs_traced_Cons)
    case stop
    then show ?thesis by simp
  next
    case (thrown input e)
    with call_facts show ?thesis by blast
  next
    case (lost input img)
    with call_facts show ?thesis by blast
  next
    case (bound input img w1 tr1 r tr2)
    note cf = call_facts[OF bound(1,2)]
    have adv: "advances (dc_device ctx) w w1" using bound(2) by (rule advances_traced_input_call)
    have rk: "upstream_ranked rank w \<Longrightarrow> upstream_ranked rank (emit (Call_SetInput r i img) w1)"
      using upstream_ranked_advances[OF adv] by (simp add: upstream_ranked_emit)
    from Cons.IH[OF bound(4)] rk
    have "(\<forall>y\<in>set tr2. rz_context y = Some ctx) \<and>
          (upstream_ranked rank w \<longrightarrow> (\<forall>b. Some (EffectInput b) \<in> set (x # xs) \<longrightarrow> rank b < rank a)
             \<longrightarrow> (\<forall>y\<in>set tr2. rank (rz_node y) < rank a))"
      by auto
    with cf bound(5) show ?thesis by auto
  qed
qed

lemma GetD2DImage_traced_record:
  "GetD2DImage_traced D n a (Some ctx) w = Some (res, w', tr) \<Longrightarrow>
     (\<forall>x\<in>set tr. rz_context x = Some ctx) \<and>
     (\<exists>tr0. tr = tr0 @ [\<lparr>rz_node = a, rz_context = Some ctx, rz_result = res,
                          rz_calls = drop (length (d2d_log w)) (d2d_log w')\<rparr>] \<and>
            (upstream_ranked rank w \<longrightarrow> (\<forall>x\<in>set tr0. rank (rz_node x) < rank a)))"
proof (induction n arbitrary: a w res w' tr)
  case 0
  then show ?case by simp
next
  case (Suc n)
  have H: "(\<forall>x\<in>set tr. rz_context x = Some ctx) \<and>
            (upstream_ranked rank w \<longrightarrow> (\<forall>x\<in>set tr. rank (rz_node x) \<le> rank b))"
    if "GetD2DImage_traced D n b (Some ctx) w = Some (res, w', tr)" for b w res w' tr
    using Suc.IH[OF that] by fastforce
  from Suc.prems show ?case
  proof (cases rule: GetD2DImage_traced_shape)
    case no_loop
    then show ?thesis by simp
  next
    case (loop wr w1 r x w2 tr0)
    let ?xs = "InternalVector (m_inputs (nodes w1 a))"
    let ?w1 = "emit (Call_SetInputCount r (length ?xs)) w1"
    have rec: "(\<forall>x\<in>set tr0. rz_context x = Some ctx) \<and>
         (upstream_ranked rank ?w1 \<longrightarrow> (\<forall>b. Some (EffectInput b) \<in> set ?xs \<longrightarrow> rank b < rank a)
            \<longrightarrow> (\<forall>x\<in>set tr0. rank (rz_node x) < rank a))"
    proof (rule SetInputs_traced_record[where n = n and D = D and i = 0 and res = x and w' = w2])
      show "SetInputs_traced D n a ctx 0 ?xs ?w1 = Some (x, w2, tr0)" by (rule loop(4))
    qed (rule H)
    have adv: "advances (dc_device ctx) w w1" using loop(1) by (rule advances_Prepare)
    have rk: "upstream_ranked rank w \<Longrightarrow> upstream_ranked rank ?w1"
      using upstream_ranked_advances[OF adv] by (simp add: upstream_ranked_emit)
    have below: "upstream_ranked rank w \<Longrightarrow> \<forall>b. Some (EffectInput b) \<in> set ?xs \<longrightarrow> rank b < rank a"
      using upstream_ranked_advances[OF adv] by (auto simp: upstream_ranked_def)
    from rec rk below have "(\<forall>x\<in>set tr0. rz_context x = Some ctx) \<and>
        (upstream_ranked rank w \<longrightarrow> (\<forall>x\<in>set tr0. rank (rz_node x) < rank a))"
      by blast
    with loop(5) show ?thesis by auto
  qed
qed

lemma GetD2DImage_traced_once:
  assumes "GetD2DImage_traced D n a (Some ctx) w = Some (res, w', tr)"
    and "upstream_ranked rank w"
  shows "filter (\<lambda>x. rz_node x = a) tr =
           [\<lparr>rz_node = a, rz_context = Some ctx, rz_result = res,
             rz_calls = drop (length (d2d_log w)) (d2d_log w')\<rparr>]"
proof -
  from GetD2DImage_traced_record[OF assms(1), of rank] assms(2) obtain tr0 where
    tr: "tr = tr0 @ [\<lparr>rz_node = a, rz_context = Some ctx, rz_result = res,
                          rz_calls = drop (length (d2d_log w)) (d2d_log w')\<rparr>]"
    and lt: "\<forall>x\<in>set tr0. rank (rz_node x) < rank a"
    by blast
  from lt have "filter (\<lambda>x. rz_node x = a) tr0 = []" by (auto simp: filter_empty_conv)
  with tr show ?thesis by simp
qed

section \<open>The device calls that apply the slots\<close>

lemma SetProperties_from_property_calls:
  assumes "SetProperties_from D a i ps w = (None, w')"
    and "m_resource (nodes w a) = Some r"
  shows "d2d_log w' = d2d_log w @ property_calls r i ps"
  using assms
proof (induction ps arbitrary: i w)
  case Nil
  then show ?case by simp
next
  case (Cons p ps)
  obtain r1 w1 where s: "SetProperty D a i p w = (r1, w1)" by (cases "SetProperty D a i p w")
  with Cons.prems(1) have r1: "r1 = None"
    and rest: "SetProperties_from D a (Suc i) ps w1 = (None, w')"
    by (auto split: option.splits)
  from s r1 obtain v where enc: "spec_encoding p = Some v"
    and sv: "SetValue D a i v w = (None, w1)"
    by (auto simp: SetProperty_encoding ThrowHR_def split: option.splits)
  from sv Cons.prems(2) have w1: "w1 = emit (Call_SetValue r i v) w"
    by (auto simp: SetValue_def)
  then have "m_resource (nodes w1 a) = Some r" using Cons.prems(2) by (simp add: world_simps)
  from Cons.IH[OF rest this] have "d2d_log w' = d2d_log w1 @ property_calls r (Suc i) ps" .
  then show ?case using w1 enc by (simp add: world_simps)
qed

lemma slots_bound_mono:
  assumes "slots_bound ctx r tr j xs calls" and "set tr \<subseteq> set tr'"
  shows "slots_bound ctx r tr' j xs calls"
  using assms
proof (induction rule: slots_bound.induct)
  case (no_slot j)
  show ?case by (rule slots_bound.no_slot)
next
  case (leaf_slot j rest calls img)
  then show ?case by (auto intro: slots_bound.leaf_slot)
next
  case (node_slot b img inner j rest calls)
  then show ?case by (auto intro: slots_bound.node_slot)
qed

lemma SetInputs_traced_slots:
  assumes "SetInputs_traced D n a ctx i xs w = Some (None, w', tr)"
    and "m_previousDeviceIdentity (nodes w a) = Some (dc_device ctx)"
    and "m_resource (nodes w a) = Some r"
  shows "\<exists>calls. d2d_log w' = d2d_log w @ calls \<and> slots_bound ctx r tr i xs calls"
  using assms
proof (induction xs arbitrary: i w tr)
  case Nil
  then show ?case by (auto intro: slots_bound.no_slot)
next
  case (Cons x xs)
  from Cons.prems(1) show ?case
  proof (cases rule: SetInputs_traced_Cons)
    case stop
    then show ?thesis by simp
  next
    case (thrown input e)
    then show ?thesis by simp
  next
    case (lost input img)
    then show ?thesis by simp
  next
    case (bound input img w1 tr1 r' tr2)
    have adv: "advances (dc_device ctx) w w1" using bound(2) by (rule advances_traced_input_call)
    have id1: "m_previousDeviceIdentity (nodes w1 a) = Some (dc_device ctx)"
      using advances_bound(1)[OF adv Cons.prems(2)] .
    have "m_resource (nodes w1 a) = Some r"
      using advances_bound(2)[OF adv Cons.prems(2) Cons.prems(3)] .
    with bound(3) have rr: "r' = r" by simp
    let ?w2 = "emit (Call_SetInput r i img) w1"
    from Cons.IH[of "Suc i" ?w2 tr2] bound(4) rr id1 bound(3) obtain calls where
      l: "d2d_log w' = d2d_log ?w2 @ calls"
      and sb: "slots_bound ctx r tr2 (Suc i) xs calls"
      by (auto simp: world_simps)
    have sb': "slots_bound ctx r tr (Suc i) xs calls"
      using sb bound(5) by (auto intro: slots_bound_mono)
    show ?thesis
    proof (cases input)
      case (EffectInput b)
      with bound(2) have call: "GetD2DImage_traced D n b (Some ctx) w = Some (Inr img, w1, tr1)"
        by simp
      let ?inner = "drop (length (d2d_log w)) (d2d_log w1)"
      from advances_log[OF adv] have lw1: "d2d_log w1 = d2d_log w @ ?inner" by auto
      from GetD2DImage_traced_record[OF call, where rank = "\<lambda>c. 0"]
      have "\<lparr>rz_node = b, rz_context = Some ctx, rz_result = Inr img, rz_calls = ?inner\<rparr> \<in> set tr1"
        by auto
      then have "\<lparr>rz_node = b, rz_context = Some ctx, rz_result = Inr img, rz_calls = ?inner\<rparr> \<in> set tr"
        using bound(5) by simp
      from slots_bound.node_slot[OF this sb']
      have "slots_bound ctx r tr i (x # xs) (?inner @ Call_SetInput r i img # calls)"
        using bound(1) EffectInput by simp
      moreover have "d2d_log w' = d2d_log w @ ?inner @ Call_SetInput r i img # calls"
        using l lw1 by (simp add: world_simps)
      ultimately show ?thesis by blast
    next
      case (ImageInput res)
      with bound(2) have e: "res = Inr img" "w1 = w" by auto
      from slots_bound.leaf_slot[OF sb', where img = img]
      have "slots_bound ctx r tr i (x # xs) (Call_SetInput r i img # calls)"
        using bound(1) ImageInput e by simp
      moreover have "d2d_log w' = d2d_log w @ Call_SetInput r i img # calls"
        using l e by (simp add: world_simps)
      ultimately show ?thesis by blast
    next
      case (ForeignInput h)
      with bound(2) show ?thesis by simp
    qed
  qed
qed

section \<open>Calls that return, and calls that cannot fail\<close>

lemma applicable_advances:
  "advances dev w w' \<Longrightarrow> applicable (nodes w' c) = applicable (nodes w c)"
  by (simp add: applicable_def advances_slots)

lemma upstream_closed_advances:
  "advances dev w w' \<Longrightarrow> upstream_closed S w' = upstream_closed S w"
  by (simp add: upstream_closed_def advances_slots)

lemma SetProperties_from_succeeds:
  assumes "reliable D" and "list_all (\<lambda>p. spec_encoding p \<noteq> None) ps"
    and "m_resource (nodes w a) = Some r"
  shows "\<exists>w'. SetProperties_from D a i ps w = (None, w')"
  using assms(2,3)
proof (induction ps arbitrary: i w)
  case Nil
  then show ?case by simp
next
  case (Cons p ps)
  from Cons.prems(1) obtain v where enc: "spec_encoding p = Some v" by auto
  then obtain pv where p: "p = Some pv" by (cases p) auto
  have sv: "SetValue D a i v w = (None, emit (Call_SetValue r i v) w)"
    using assms(1) Cons.prems(2) by (simp add: SetValue_def reliable_def ThrowIfFailed_def)
  have sp: "SetProperty D a i p w = (None, emit (Call_SetValue r i v) w)"
    using enc p sv by (simp add: SetProperty_encoding)
  have "m_resource (nodes (emit (Call_SetValue r i v) w) a) = Some r"
    using Cons.prems(2) by (simp add: world_simps)
  from Cons.IH[OF _ this, of "Suc i"] Cons.prems(1) sp show ?case by simp
qed

lemma Prepare_succeeds:
  assumes "reliable D" and "\<not> FAILED (dc_identity_hr ctx)" and "applicable (nodes w a)"
  shows "\<exists>wr w1. Prepare D ctx a w = (Inr wr, w1)"
proof -
  have "\<exists>wr w1. CheckDevice ctx a w = (Inr wr, w1)"
    using assms(2) by (auto simp: CheckDevice_cases)
  then obtain wr w1 where c: "CheckDevice ctx a w = (Inr wr, w1)" by blast
  have "\<exists>w2. CreateResource D ctx a w1 = (None, w2)"
    using assms(1)
    by (auto simp: CreateResource_def Let_def reliable_def split: option.splits)
  then obtain w2 where cr: "CreateResource D ctx a w1 = (None, w2)" by blast
  from CreateResource_success(1)[OF cr] obtain r where r: "m_resource (nodes w2 a) = Some r"
    by blast
  have ps: "InternalVector (m_properties (nodes w2 a)) = InternalVector (m_properties (nodes w a))"
    using CheckDevice_success(4)[OF c] CreateResource_success(3)[OF cr] by simp
  from assms(3) have "list_all (\<lambda>p. spec_encoding p \<noteq> None) (InternalVector (m_properties (nodes w2 a)))"
    by (simp add: applicable_def ps)
  from SetProperties_from_succeeds[OF assms(1) this r, of 0]
  obtain w0 where "SetProperties D a w2 = (None, w0)" by (auto simp: SetProperties_def)
  then have "\<exists>w3. UpdateProperties D wr a w2 = (None, w3)"
    by (auto simp: UpdateProperties_def)
  then obtain w3 where u: "UpdateProperties D wr a w2 = (None, w3)" by blast
  from c cr u show ?thesis by (simp add: Prepare_def)
qed

lemma SetInputs_succeeds:
  assumes H: "\<And>b w. b \<in> S \<Longrightarrow> rank b < rank a \<Longrightarrow> upstream_ranked rank w \<Longrightarrow> upstream_closed S w
            \<Longrightarrow> \<forall>c\<in>S. applicable (nodes w c)
            \<Longrightarrow> \<exists>img w'. GetD2DImage D n b (Some ctx) w = Some (Inr img, w')"
    and "upstream_ranked rank w" and "upstream_closed S w" and "\<forall>c\<in>S. applicable (nodes w c)"
    and "list_all valid_input xs"
    and "\<forall>b. Some (EffectInput b) \<in> set xs \<longrightarrow> b \<in> S \<and> rank b < rank a"
    and "m_previousDeviceIdentity (nodes w a) = Some (dc_device ctx)"
    and "m_resource (nodes w a) = Some r"
  shows "\<exists>w'. SetInputs D n a ctx i xs w = Some (None, w')"
  using assms(2-)
proof (induction xs arbitrary: i w)
  case Nil
  then show ?case by simp
next
  case (Cons x xs)
  from Cons.prems(4) have vx: "valid_input x" and vxs: "list_all valid_input xs" by simp_all
  from vx obtain input where x: "x = Some input"
    and hr: "As_ICanvasImageInternal input = S_OK"
    and "(\<exists>b. input = EffectInput b) \<or> (\<exists>img. input = ImageInput (Inr img))"
    by (cases x rule: valid_input.cases) auto
  let ?call = "case input of
            EffectInput b \<Rightarrow> GetD2DImage D n b (Some ctx) w
          | ImageInput res \<Rightarrow> Some (res, w)
          | ForeignInput h \<Rightarrow> Some (Inl AccessViolation, w)"
  have "\<exists>img w1. ?call = Some (Inr img, w1)"
  proof (cases input)
    case (EffectInput b)
    with x Cons.prems(5) have "b \<in> S" "rank b < rank a" by auto
    from H[OF this Cons.prems(1,2,3)] EffectInput show ?thesis by simp
  next
    case (ImageInput res)
    with vx x show ?thesis by (cases res) auto
  next
    case (ForeignInput h)
    with vx x show ?thesis by simp
  qed
  then obtain img w1 where call: "?call = Some (Inr img, w1)" by blast
  have adv: "advances (dc_device ctx) w w1" using call by (rule advances_input_call)
  have id1: "m_previousDeviceIdentity (nodes w1 a) = Some (dc_device ctx)"
    using advances_bound(1)[OF adv Cons.prems(6)] .
  have r1: "m_resource (nodes w1 a) = Some r"
    using advances_bound(2)[OF adv Cons.prems(6) Cons.prems(7)] .
  let ?w2 = "emit (Call_SetInput r i img) w1"
  have adv2: "advances (dc_device ctx) w ?w2"
    using adv advances_emit by (rule advances_trans)
  have "\<exists>w'. SetInputs D n a ctx (Suc i) xs ?w2 = Some (None, w')"
  proof (rule Cons.IH)
    show "upstream_ranked rank ?w2" using upstream_ranked_advances[OF adv2] Cons.prems(1) by simp
    show "upstream_closed S ?w2" using upstream_closed_advances[OF adv2] Cons.prems(2) by simp
    show "\<forall>c\<in>S. applicable (nodes ?w2 c)"
      using applicable_advances[OF adv2] Cons.prems(3) by simp
    show "list_all valid_input xs" by (rule vxs)
    show "\<forall>b. Some (EffectInput b) \<in> set xs \<longrightarrow> b \<in> S \<and> rank b < rank a"
      using Cons.prems(5) by simp
    show "m_previousDeviceIdentity (nodes ?w2 a) = Some (dc_device ctx)"
      using id1 by (simp add: world_simps)
    show "m_resource (nodes ?w2 a) = Some r" using r1 by (simp add: world_simps)
  qed
  then obtain w' where rest: "SetInputs D n a ctx (Suc i) xs ?w2 = Some (None, w')" by blast
  have "SetInputs D n a ctx i (x # xs) w = Some (None, w')"
    using x hr call r1 rest
    by (simp add: Let_def ThrowIfFailed_def FAILED_codes code_noteq[symmetric]
          del: GetD2DImage.simps)
  then show ?case by blast
qed

lemma GetD2DImage_succeeds:
  assumes "reliable D" and "\<not> FAILED (dc_identity_hr ctx)"
  shows "a \<in> S \<Longrightarrow> rank a < n \<Longrightarrow> upstream_ranked rank w \<Longrightarrow> upstream_closed S w
           \<Longrightarrow> \<forall>c\<in>S. applicable (nodes w c)
           \<Longrightarrow> \<exists>img w'. GetD2DImage D n a (Some ctx) w = Some (Inr img, w')"
proof (induction n arbitrary: a w)
  case 0
  then show ?case by simp
next
  case (Suc n)
  from Suc.prems(1,5) have app: "applicable (nodes w a)" by blast
  from Prepare_succeeds[OF assms app] obtain wr w1 where
    prep: "Prepare D ctx a w = (Inr wr, w1)" by blast
  note ps = Prepare_success[OF prep]
  from ps(4) obtain r where r: "m_resource (nodes w1 a) = Some r" by blast
  have adv: "advances (dc_device ctx) w w1" using prep by (rule advances_Prepare)
  have asimg: "\<And>u. m_resource (nodes u a) = Some r \<Longrightarrow> As_ID2D1Image D a u = (Inr (EffectOutput r), u)"
    using assms(1) by (simp add: As_ID2D1Image_def reliable_def ThrowIfFailed_def)
  show ?case
  proof (cases "wr \<or> IsChanged (m_inputs (nodes w a))")
    case False
    with prep r asimg[OF r] ps(6)[of a] show ?thesis by simp
  next
    case True
    let ?xs = "InternalVector (m_inputs (nodes w a))"
    let ?w1 = "emit (Call_SetInputCount r (length ?xs)) w1"
    have adv1: "advances (dc_device ctx) w ?w1"
      using adv advances_emit by (rule advances_trans)
    have "\<exists>w2. SetInputs D n a ctx 0 ?xs ?w1 = Some (None, w2)"
    proof (rule SetInputs_succeeds[where S = S and rank = rank and r = r])
      fix b u
      assume "b \<in> S" "rank b < rank a" "upstream_ranked rank u" "upstream_closed S u"
        "\<forall>c\<in>S. applicable (nodes u c)"
      moreover have "rank b < n" using \<open>rank b < rank a\<close> Suc.prems(2) by simp
      ultimately show "\<exists>img w'. GetD2DImage D n b (Some ctx) u = Some (Inr img, w')"
        using Suc.IH by blast
    next
      show "upstream_ranked rank ?w1" using upstream_ranked_advances[OF adv1] Suc.prems(3) by simp
      show "upstream_closed S ?w1" using upstream_closed_advances[OF adv1] Suc.prems(4) by simp
      show "\<forall>c\<in>S. applicable (nodes ?w1 c)"
        using applicable_advances[OF adv1] Suc.prems(5) by simp
      show "list_all valid_input ?xs" using app by (simp add: applicable_def)
      show "\<forall>b. Some (EffectInput b) \<in> set ?xs \<longrightarrow> b \<in> S \<and> rank b < rank a"
        using Suc.prems(1,3,4) by (auto simp: upstream_closed_def upstream_ranked_def)
      show "m_previousDeviceIdentity (nodes ?w1 a) = Some (dc_device ctx)"
        using ps(3) by (simp add: world_simps)
      show "m_resource (nodes ?w1 a) = Some r" using r by (simp add: world_simps)
    qed
    then obtain w2 where s: "SetInputs D n a ctx 0 ?xs ?w1 = Some (None, w2)" by blast
    have adv2: "advances (dc_device ctx) ?w1 w2" using s by (rule advances_SetInputs)
    have "m_resource (nodes w2 a) = Some r"
      using advances_bound(2)[OF adv2] ps(3) r by (simp add: world_simps)
    then have "m_resource (nodes (put a (\<lambda>e. e\<lparr>m_inputs := SetChanged False (m_inputs e)\<rparr>) w2) a) = Some r"
      by (simp add: world_simps)
    from asimg[OF this] s show ?thesis
      unfolding GetD2DImage_inputs_step[OF prep True r] by simp
  qed
qed

lemma GetD2DImage_traced_inputs_step:
  assumes "Prepare D ctx a w = (Inr wr, w1)"
    and "wr \<or> IsChanged (m_inputs (nodes w a))"
    and "m_resource (nodes w1 a) = Some r"
  shows "GetD2DImage_traced D (Suc n) a (Some ctx) w =
     (case SetInputs_traced D n a ctx 0 (InternalVector (m_inputs (nodes w a)))
             (emit (Call_SetInputCount r (length (InternalVector (m_inputs (nodes w a))))) w1) of
        None \<Rightarrow> None
      | Some (Some e, w2, tr) \<Rightarrow> Some (returned a (Some ctx) w tr (Inl e, w2))
      | Some (None, w2, tr) \<Rightarrow>
          Some (returned a (Some ctx) w tr
                  (As_ID2D1Image D a
                     (put a (\<lambda>e. e\<lparr>m_inputs := SetChanged False (m_inputs e)\<rparr>) w2))))"
proof -
  have "m_inputs (nodes w1 a) = m_inputs (nodes w a)"
    using assms(1) by (rule Prepare_success)
  with assms show ?thesis by (simp add: Let_def)
qed

lemma SetInputs_returns:
  assumes H: "\<And>b u. rank b < rank a \<Longrightarrow> upstream_ranked rank u
            \<Longrightarrow> \<exists>out. GetD2DImage D n b (Some ctx) u = Some out"
    and "upstream_ranked rank w"
    and "\<forall>b. Some (EffectInput b) \<in> set xs \<longrightarrow> rank b < rank a"
  shows "\<exists>out. SetInputs D n a ctx i xs w = Some out"
  using assms(2,3)
proof (induction xs arbitrary: i w)
  case Nil
  then show ?case by simp
next
  case (Cons x xs)
  show ?case
  proof (cases x)
    case None
    then show ?thesis by simp
  next
    case (Some input)
    let ?call = "case input of
            EffectInput b \<Rightarrow> GetD2DImage D n b (Some ctx) w
          | ImageInput res \<Rightarrow> Some (res, w)
          | ForeignInput h \<Rightarrow> Some (Inl AccessViolation, w)"
    have "\<exists>out. ?call = Some out"
    proof (cases input)
      case (EffectInput b)
      with Some Cons.prems(2) have "rank b < rank a" by simp
      from H[OF this Cons.prems(1)] EffectInput show ?thesis by simp
    qed simp_all
    then obtain res1 w1 where call: "?call = Some (res1, w1)" by auto
    have adv: "advances (dc_device ctx) w w1" using call by (rule advances_input_call)
    have rest: "\<exists>out. SetInputs D n a ctx (Suc i) xs (emit (Call_SetInput r i img) w1) = Some out"
      for r img
    proof (rule Cons.IH)
      have "advances (dc_device ctx) w (emit (Call_SetInput r i img) w1)"
        using adv advances_emit by (rule advances_trans)
      from upstream_ranked_advances[OF this] Cons.prems(1)
      show "upstream_ranked rank (emit (Call_SetInput r i img) w1)" by simp
      show "\<forall>b. Some (EffectInput b) \<in> set xs \<longrightarrow> rank b < rank a" using Cons.prems(2) by simp
    qed
    from rest have "SetInputs D n a ctx (Suc i) xs (emit (Call_SetInput r i img) w1) \<noteq> None"
      for r img by auto
    then show ?thesis
      using Some call
      by (auto simp: Let_def simp del: GetD2DImage.simps split: option.splits sum.splits)
  qed
qed

lemma GetD2DImage_returns:
  "upstream_ranked rank w \<Longrightarrow> rank a < n \<Longrightarrow> \<exists>out. GetD2DImage D n a dco w = Some out"
proof (induction n arbitrary: a w dco)
  case 0
  then show ?case by simp
next
  case (Suc n)
  show ?case
  proof (cases dco)
    case None
    then show ?thesis by simp
  next
    case (Some ctx)
    obtain r1 w1 where prep: "Prepare D ctx a w = (r1, w1)" by (cases "Prepare D ctx a w")
    have adv: "advances (dc_device ctx) w w1" using prep by (rule advances_Prepare)
    let ?xs = "InternalVector (m_inputs (nodes w1 a))"
    have loop: "\<exists>out. SetInputs D n a ctx 0 ?xs (emit (Call_SetInputCount r (length ?xs)) w1) = Some out"
      for r
    proof (rule SetInputs_returns[where rank = rank])
      fix b u
      assume "rank b < rank a" "upstream_ranked rank u"
      with Suc.prems(2) Suc.IH[of u b "Some ctx"]
      show "\<exists>out. GetD2DImage D n b (Some ctx) u = Some out" by simp
    next
      have "advances (dc_device ctx) w (emit (Call_SetInputCount r (length ?xs)) w1)"
        using adv advances_emit by (rule advances_trans)
      from upstream_ranked_advances[OF this] Suc.prems(1)
      show "upstream_ranked rank (emit (Call_SetInputCount r (length ?xs)) w1)" by simp
      from upstream_ranked_advances[OF adv] Suc.prems(1)
      show "\<forall>b. Some (EffectInput b) \<in> set ?xs \<longrightarrow> rank b < rank a"
        by (auto simp: upstream_ranked_def)
    qed
    from loop have ne: "SetInputs D n a ctx 0 ?xs (emit (Call_SetInputCount r (length ?xs)) w1) \<noteq> None"
      for r by auto
    show ?thesis
    proof (cases r1)
      case (Inl e)
      with Some prep show ?thesis by simp
    next
      case (Inr wr)
      show ?thesis
      proof (cases "m_resource (nodes w1 a)")
        case None
        with Some prep Inr show ?thesis by simp
      next
        case (Some r)
        from ne[of r] obtain x w2 where
          "SetInputs D n a ctx 0 ?xs (emit (Call_SetInputCount r (length ?xs)) w1) = Some (x, w2)"
          by auto
        with \<open>dco = Some ctx\<close> prep Inr Some show ?thesis
          by (cases x) (simp_all add: Let_def)
      qed
    qed
  qed
qed

lemma recreated_reapplies:
  assumes differs: "m_previousDeviceIdentity (nodes w a) \<noteq> Some (dc_device ctx)"
    and call: "GetD2DImage D n a (Some ctx) w = Some (Inr img, w')"
  shows "m_previousDeviceIdentity (nodes w' a) = Some (dc_device ctx) \<and>
         m_resource (nodes w' a) = Some (next_effect w) \<and>
         img = EffectOutput (next_effect w) \<and>
         (\<exists>tr calls. GetD2DImage_traced D n a (Some ctx) w = Some (Inr img, w', tr) \<and>
            d2d_log w' =
              d2d_log w @ (case m_resource (nodes w a) of None \<Rightarrow> [] | Some r0 \<Rightarrow> [Call_Release r0])
                @ Call_CreateEffect (dc_ptr ctx) (m_effectId (nodes w a)) (next_effect w) # calls \<and>
            reapplied ctx (next_effect w) (nodes w a) tr calls)"
proof -
  let ?dev = "dc_device ctx"
  let ?r = "next_effect w"
  let ?ps = "InternalVector (m_properties (nodes w a))"
  let ?xs = "InternalVector (m_inputs (nodes w a))"
  let ?rel = "case m_resource (nodes w a) of None \<Rightarrow> [] | Some r0 \<Rightarrow> [Call_Release r0]"
  let ?create = "Call_CreateEffect (dc_ptr ctx) (m_effectId (nodes w a)) ?r"
  from call obtain m where n: "n = Suc m" by (cases n) auto
  from Some_traced(1)[OF call] obtain tr where
    tcall: "GetD2DImage_traced D n a (Some ctx) w = Some (Inr img, w', tr)" by blast
  obtain r1 w3 where p: "Prepare D ctx a w = (r1, w3)" by (cases "Prepare D ctx a w")
  with call n obtain wr where r1: "r1 = Inr wr" by (cases r1) auto
  note prep = p[unfolded r1]
  note ps = Prepare_success[OF prep]
  from ps(2) differs have wr: "wr" by simp
  from prep obtain w1 w2 where c: "CheckDevice ctx a w = (Inr wr, w1)"
    and cr: "CreateResource D ctx a w1 = (None, w2)"
    and u: "UpdateProperties D wr a w2 = (None, w3)"
    by (rule Prepare_Inr)
  have w1: "w1 = snd (CheckDevice ctx a w)" using c by simp
  note cd = CheckDevice_differs[OF differs ps(1), folded w1]
  have ef1: "m_effectId (nodes w1 a) = m_effectId (nodes w a)"
    using c by (rule CheckDevice_success)
  have res2: "m_resource (nodes w2 a) = Some ?r"
    and log2: "d2d_log w2 = d2d_log w @ ?rel @ [?create]"
    using CreateResource_creates[OF cr cd(3)] cd(4,5) ef1 by simp_all
  have ps2: "InternalVector (m_properties (nodes w2 a)) = ?ps"
    using CheckDevice_success(4)[OF c] CreateResource_success(3)[OF cr] by simp
  from u wr obtain w0 where sp: "SetProperties_from D a 0 ?ps w2 = (None, w0)"
    and w3: "w3 = put a (\<lambda>e. e\<lparr>m_properties := SetChanged False (m_properties e)\<rparr>) w0"
    by (auto elim: UpdateProperties_recreated simp: ps2)
  have log0: "d2d_log w0 = d2d_log w2 @ property_calls ?r 0 ?ps"
    using sp res2 by (rule SetProperties_from_property_calls)
  have pall: "list_all (\<lambda>p. spec_encoding p \<noteq> None) ?ps"
    using sp by (rule SetProperties_from_supported)
  have nodes0: "nodes w0 = nodes w2" using sp by (rule SetProperties_from_vectors)
  have res3: "m_resource (nodes w3 a) = Some ?r" using res2 nodes0 by (simp add: w3 world_simps)
  have log3: "d2d_log w3 = d2d_log w @ ?rel @ ?create # property_calls ?r 0 ?ps"
    using log0 log2 by (simp add: w3 world_simps)
  let ?w3 = "emit (Call_SetInputCount ?r (length ?xs)) w3"
  from tcall[unfolded n GetD2DImage_traced_inputs_step[OF prep disjI1[OF wr] res3]]
  obtain w4 tr0 where s: "SetInputs_traced D m a ctx 0 ?xs ?w3 = Some (None, w4, tr0)"
    and ret: "returned a (Some ctx) w tr0
               (As_ID2D1Image D a (put a (\<lambda>e. e\<lparr>m_inputs := SetChanged False (m_inputs e)\<rparr>) w4))
              = (Inr img, w', tr)"
    by (auto simp: returned_eq split: option.splits prod.splits)
  from ret have a: "As_ID2D1Image D a (put a (\<lambda>e. e\<lparr>m_inputs := SetChanged False (m_inputs e)\<rparr>) w4)
              = (Inr img, w')"
    and tr: "set tr0 \<subseteq> set tr"
    by (auto simp: returned_eq)
  have id3: "m_previousDeviceIdentity (nodes ?w3 a) = Some ?dev"
    using ps(3) by (simp add: world_simps)
  have res3': "m_resource (nodes ?w3 a) = Some ?r" using res3 by (simp add: world_simps)
  from SetInputs_traced_slots[OF s id3 res3'] obtain icalls where
    log4: "d2d_log w4 = d2d_log ?w3 @ icalls"
    and iall: "slots_bound ctx ?r tr0 0 ?xs icalls"
    by auto
  have adv: "advances ?dev ?w3 w4" using traced_Some(2)[OF s] by (rule advances_SetInputs)
  have id4: "m_previousDeviceIdentity (nodes w4 a) = Some ?dev"
    using advances_bound(1)[OF adv id3] .
  have res4: "m_resource (nodes w4 a) = Some ?r"
    using advances_bound(2)[OF adv id3 res3'] .
  note ai = As_ID2D1Image_Inr[OF a]
  let ?calls = "property_calls ?r 0 ?ps @ Call_SetInputCount ?r (length ?xs) # icalls"
  have c1: "m_previousDeviceIdentity (nodes w' a) = Some ?dev"
    using ai(1) id4 by (simp add: world_simps)
  have c2: "m_resource (nodes w' a) = Some ?r"
    using ai(1) res4 by (simp add: world_simps)
  have c3: "img = EffectOutput ?r"
    using ai(2) res4 by (auto simp: world_simps)
  have c4: "d2d_log w' = d2d_log w @ ?rel @ ?create # ?calls"
    using ai(1) log4 log3 by (simp add: world_simps)
  have c5: "reapplied ctx ?r (nodes w a) tr ?calls"
    unfolding reapplied_def using pall slots_bound_mono[OF iall tr] by blast
  from c1 c2 c3 c4 c5 tcall show ?thesis by blast
qed

section \<open>The graphs of the scenarios\<close>

lemma reliable_D_ok: "reliable D_ok"
  by (simp add: reliable_def D_ok_simps FAILED_codes)

lemma new_world_inputs:
  "Some (EffectInput b) \<notin> set (InternalVector (m_inputs (nodes new_world c)))"
  by (simp add: new_world_def CanvasEffect_ctor_def Make_Vector_def SetChanged_def
        ThrowIfFailed_def FAILED_codes Let_def)

lemma SetInput_inputs:
  assumes "Some (EffectInput b) \<in> set (InternalVector (m_inputs (nodes (snd (SetInput a i (Some x) w)) c)))"
  shows "Some (EffectInput b) \<in> set (InternalVector (m_inputs (nodes w c))) \<or>
         (c = a \<and> x = EffectInput b)"
  using assms set_update_subset_insert[of "InternalVector (m_inputs (nodes w a))" i "Some x"]
  by (auto simp: SetInput_def SetAt_def world_simps ThrowIfFailed_def FAILED_codes
           split: if_splits)

lemma perform_inputs:
  assumes "Some (EffectInput b) \<in> set (InternalVector (m_inputs (nodes (perform D fuel act w) c)))"
  shows "Some (EffectInput b) \<in> set (InternalVector (m_inputs (nodes w c))) \<or>
         (\<exists>i. act = Act_SetInput c i (EffectInput b))"
proof (cases act)
  case (Act_GetD2DImage a dc)
  show ?thesis
  proof (cases "GetD2DImage D fuel a (Some dc) w")
    case None
    with assms Act_GetD2DImage show ?thesis by simp
  next
    case (Some out)
    obtain res w' where out: "out = (res, w')" by (cases out)
    from Some out have "advances (dc_device dc) w w'" by (auto intro: advances_GetD2DImage)
    from advances_slots(2)[OF this, of c] assms Act_GetD2DImage Some out show ?thesis by simp
  qed
next
  case (Act_Close a)
  with assms show ?thesis by (auto simp: Close_def Reset_resource_nodes split: if_splits)
next
  case (Act_SetInput a i x)
  with assms SetInput_inputs[of b a i x w c] show ?thesis by auto
next
  case (Act_SetProperty a i v)
  with assms show ?thesis
    by (auto simp: Properties_SetAt_def SetAt_def world_simps split: if_splits)
qed

lemma run_inputs:
  "Some (EffectInput b) \<in> set (InternalVector (m_inputs (nodes (run D fuel acts w) c)))
   \<Longrightarrow> Some (EffectInput b) \<in> set (InternalVector (m_inputs (nodes w c))) \<or>
       (\<exists>i. Act_SetInput c i (EffectInput b) \<in> set acts)"
proof (induction acts arbitrary: w)
  case Nil
  then show ?case by simp
next
  case (Cons act acts)
  from Cons.IH[of "perform D fuel act w"] Cons.prems perform_inputs[of b D fuel act w c]
  show ?case by auto
qed

lemma two_nodes_inputs:
  assumes "Some (EffectInput b) \<in> set (InternalVector (m_inputs (nodes two_nodes c)))"
  shows "c = 0 \<and> b = 1"
proof -
  from run_inputs[OF assms[unfolded two_nodes_def]] show ?thesis
    by (auto simp: new_world_inputs)
qed

lemma single_node_inputs:
  "Some (EffectInput b) \<notin> set (InternalVector (m_inputs (nodes single_node c)))"
proof
  assume "Some (EffectInput b) \<in> set (InternalVector (m_inputs (nodes single_node c)))"
  from run_inputs[OF this[unfolded single_node_def]] show False
    by (auto simp: new_world_inputs)
qed

lemma wide_node_inputs:
  "Some (EffectInput b) \<notin> set (InternalVector (m_inputs (nodes wide_node c)))"
proof
  assume "Some (EffectInput b) \<in> set (InternalVector (m_inputs (nodes wide_node c)))"
  from run_inputs[OF this[unfolded wide_node_def]] show False
    by (auto simp: new_world_inputs)
qed

lemma upstream_two_nodes:
  "upstream_ranked rank_two_nodes two_nodes" "upstream_closed {0, 1} two_nodes"
  by (auto simp: upstream_ranked_def upstream_closed_def rank_two_nodes_def dest: two_nodes_inputs)

lemma upstream_quiet_node:
  "upstream_ranked rank quiet_node" "upstream_closed S quiet_node"
  by (auto simp: upstream_ranked_def upstream_closed_def quiet_node_def world_simps
        single_node_inputs split: if_splits)

lemma upstream_wide_node:
  "upstream_ranked rank wide_node" "upstream_closed S wide_node"
  by (auto simp: upstream_ranked_def upstream_closed_def wide_node_inputs)

section \<open>A change of device\<close>

text \<open>
  Claim C3. A node is realized with a context whose device identity (resolved without
  failure) differs from the stored one. Whatever the changed flags are, the first step
  sets \<open>wasRecreated\<close>, records the new identity and releases the resource held (a
  \<open>Release\<close> call if one was held, and a null pointer afterwards). The call returns an
  image when no device call fails and, on an acyclic graph, in a set of nodes that holds
  the node and everything upstream of it, every property slot has an encoding and every
  input slot holds a node or a leaf that yields its image, the depth allowed being above
  the rank of the node. Whenever the call returns an image, the node holds the resource
  the device handed out in this call, the image is its output, and the device calls of the
  call are exactly these, in this order: the release, \<open>CreateEffect\<close>, one \<open>SetValue\<close> for
  each property slot, \<open>SetInputCount\<close> with the number of input slots, and for each input
  slot the device calls of the realization of the node it refers to, which is in the
  record of the call with the same context, followed by \<open>SetInput\<close> at the index of the
  slot with the image that realization returned (for a leaf, \<open>SetInput\<close> with its image).
\<close>

theorem device_change_recreates_and_reapplies:
  assumes differs: "m_previousDeviceIdentity (nodes w a) \<noteq> Some (dc_device ctx)"
    and ok: "\<not> FAILED (dc_identity_hr ctx)"
  shows "fst (CheckDevice ctx a w) = Inr True \<and>
         m_previousDeviceIdentity (nodes (snd (CheckDevice ctx a w)) a) = Some (dc_device ctx) \<and>
         m_resource (nodes (snd (CheckDevice ctx a w)) a) = None \<and>
         d2d_log (snd (CheckDevice ctx a w)) =
           d2d_log w @ (case m_resource (nodes w a) of None \<Rightarrow> [] | Some r0 \<Rightarrow> [Call_Release r0]) \<and>
         (reliable D \<longrightarrow> a \<in> S \<longrightarrow> rank a < n \<longrightarrow> upstream_ranked rank w \<longrightarrow>
          upstream_closed S w \<longrightarrow> (\<forall>c\<in>S. applicable (nodes w c)) \<longrightarrow>
            (\<exists>img w'. GetD2DImage D n a (Some ctx) w = Some (Inr img, w'))) \<and>
         (\<forall>m img w'. GetD2DImage D m a (Some ctx) w = Some (Inr img, w') \<longrightarrow>
            m_previousDeviceIdentity (nodes w' a) = Some (dc_device ctx) \<and>
            m_resource (nodes w' a) = Some (next_effect w) \<and>
            img = EffectOutput (next_effect w) \<and>
            (\<exists>tr calls. GetD2DImage_traced D m a (Some ctx) w = Some (Inr img, w', tr) \<and>
               d2d_log w' =
                 d2d_log w @ (case m_resource (nodes w a) of None \<Rightarrow> [] | Some r0 \<Rightarrow> [Call_Release r0])
                   @ Call_CreateEffect (dc_ptr ctx) (m_effectId (nodes w a)) (next_effect w) # calls \<and>
               reapplied ctx (next_effect w) (nodes w a) tr calls))"
proof -
  have succeeds: "\<exists>img w'. GetD2DImage D n a (Some ctx) w = Some (Inr img, w')"
    if "reliable D" "a \<in> S" "rank a < n" "upstream_ranked rank w" "upstream_closed S w"
      "\<forall>c\<in>S. applicable (nodes w c)"
    using GetD2DImage_succeeds[OF that(1) ok that(2-)] .
  from CheckDevice_differs[OF differs ok] succeeds recreated_reapplies[OF differs]
  show ?thesis by blast
qed

theorem device_change_recreates_and_reapplies_witness:
  "m_previousDeviceIdentity (nodes (run D_ok 2 [Act_GetD2DImage 0 dcA] two_nodes) 0) = Some 1 \<and>
   dc_device dcB = 2 \<and>
   IsChanged (m_properties (nodes (run D_ok 2 [Act_GetD2DImage 0 dcA] two_nodes) 0)) = False \<and>
   IsChanged (m_inputs (nodes (run D_ok 2 [Act_GetD2DImage 0 dcA] two_nodes) 0)) = False \<and>
   reliable D_ok \<and> rank_two_nodes 0 < 2 \<and>
   upstream_ranked rank_two_nodes (run D_ok 2 [Act_GetD2DImage 0 dcA] two_nodes) \<and>
   upstream_closed {0, 1} (run D_ok 2 [Act_GetD2DImage 0 dcA] two_nodes) \<and>
   applicable (nodes (run D_ok 2 [Act_GetD2DImage 0 dcA] two_nodes) 0) \<and>
   applicable (nodes (run D_ok 2 [Act_GetD2DImage 0 dcA] two_nodes) 1) \<and>
   GetD2DImage D_ok 2 0 (Some dcB) (run D_ok 2 [Act_GetD2DImage 0 dcA] two_nodes) =
     Some (Inr (EffectOutput 2),
           run D_ok 2 [Act_GetD2DImage 0 dcB] (run D_ok 2 [Act_GetD2DImage 0 dcA] two_nodes)) \<and>
   m_resource (nodes (run D_ok 2 [Act_GetD2DImage 0 dcB]
                        (run D_ok 2 [Act_GetD2DImage 0 dcA] two_nodes)) 0) = Some 2 \<and>
   d2d_log (run D_ok 2 [Act_GetD2DImage 0 dcB] (run D_ok 2 [Act_GetD2DImage 0 dcA] two_nodes)) =
     d2d_log (run D_ok 2 [Act_GetD2DImage 0 dcA] two_nodes) @
     [Call_Release 0, Call_CreateEffect 200 5 2, Call_SetValue 2 0 (Value_UINT32 7),
      Call_SetInputCount 2 1,
      Call_Release 1, Call_CreateEffect 200 6 3, Call_SetValue 3 0 (Value_FLOAT 3),
      Call_SetInputCount 3 0,
      Call_SetInput 2 0 (EffectOutput 3)] \<and>
   (\<exists>tr. GetD2DImage_traced D_ok 2 0 (Some dcB) (run D_ok 2 [Act_GetD2DImage 0 dcA] two_nodes) =
            Some (Inr (EffectOutput 2),
                  run D_ok 2 [Act_GetD2DImage 0 dcB] (run D_ok 2 [Act_GetD2DImage 0 dcA] two_nodes),
                  tr) \<and>
          reapplied dcB 2 (nodes (run D_ok 2 [Act_GetD2DImage 0 dcA] two_nodes) 0) tr
            [Call_SetValue 2 0 (Value_UINT32 7), Call_SetInputCount 2 1,
             Call_Release 1, Call_CreateEffect 200 6 3, Call_SetValue 3 0 (Value_FLOAT 3),
             Call_SetInputCount 3 0,
             Call_SetInput 2 0 (EffectOutput 3)])"
proof -
  let ?w = "run D_ok 2 [Act_GetD2DImage 0 dcA] two_nodes"
  let ?w' = "run D_ok 2 [Act_GetD2DImage 0 dcB] ?w"
  have first: "GetD2DImage D_ok 2 0 (Some dcA) two_nodes = Some (Inr (EffectOutput 0), ?w)"
    by (rule GetD2DImage_as_run) code_simp
  have adv: "advances (dc_device dcA) two_nodes ?w" using first by (rule advances_GetD2DImage)
  have ranked: "upstream_ranked rank_two_nodes ?w"
    using adv upstream_two_nodes(1) by (rule upstream_ranked_advances)
  have closed: "upstream_closed {0, 1} ?w"
    using upstream_closed_advances[OF adv] upstream_two_nodes(2) by simp
  have app: "applicable (nodes ?w 0)" "applicable (nodes ?w 1)" by code_simp+
  then have apps: "\<forall>c\<in>{0, 1}. applicable (nodes ?w c)" by simp
  have depth: "rank_two_nodes 0 < 2" by (simp add: rank_two_nodes_def)
  have id: "m_previousDeviceIdentity (nodes ?w 0) = Some 1" by code_simp
  have dev: "dc_device dcB = 2" by code_simp
  have flags: "IsChanged (m_properties (nodes ?w 0)) = False"
    "IsChanged (m_inputs (nodes ?w 0)) = False" by code_simp+
  have differs: "m_previousDeviceIdentity (nodes ?w 0) \<noteq> Some (dc_device dcB)"
    unfolding id dev by simp
  have ok: "\<not> FAILED (dc_identity_hr dcB)" by code_simp
  have facts: "m_resource (nodes ?w 0) = Some 0" "next_effect ?w = 2"
    "m_effectId (nodes ?w 0) = 5" "dc_ptr dcB = 200" by code_simp+
  have second: "GetD2DImage D_ok 2 0 (Some dcB) ?w = Some (Inr (EffectOutput 2), ?w')"
    by (rule GetD2DImage_as_run) code_simp
  have log: "d2d_log ?w' = d2d_log ?w @
     [Call_Release 0, Call_CreateEffect 200 5 2, Call_SetValue 2 0 (Value_UINT32 7),
      Call_SetInputCount 2 1,
      Call_Release 1, Call_CreateEffect 200 6 3, Call_SetValue 3 0 (Value_FLOAT 3),
      Call_SetInputCount 3 0,
      Call_SetInput 2 0 (EffectOutput 3)]" by code_simp
  note t = device_change_recreates_and_reapplies[OF differs ok,
      where D = D_ok and S = "{0, 1}" and rank = rank_two_nodes and n = 2]
  from t reliable_D_ok depth ranked closed apps
  have "\<exists>img w'. GetD2DImage D_ok 2 0 (Some dcB) ?w = Some (Inr img, w')" by blast
  from t second have res: "m_resource (nodes ?w' 0) = Some (next_effect ?w)"
    and "\<exists>tr calls. GetD2DImage_traced D_ok 2 0 (Some dcB) ?w = Some (Inr (EffectOutput 2), ?w', tr) \<and>
           d2d_log ?w' =
             d2d_log ?w @ (case m_resource (nodes ?w 0) of None \<Rightarrow> [] | Some r0 \<Rightarrow> [Call_Release r0])
               @ Call_CreateEffect (dc_ptr dcB) (m_effectId (nodes ?w 0)) (next_effect ?w) # calls \<and>
           reapplied dcB (next_effect ?w) (nodes ?w 0) tr calls"
    by blast+
  then have re: "\<exists>tr. GetD2DImage_traced D_ok 2 0 (Some dcB) ?w = Some (Inr (EffectOutput 2), ?w', tr) \<and>
     reapplied dcB 2 (nodes ?w 0) tr
            [Call_SetValue 2 0 (Value_UINT32 7), Call_SetInputCount 2 1,
             Call_Release 1, Call_CreateEffect 200 6 3, Call_SetValue 3 0 (Value_FLOAT 3),
             Call_SetInputCount 3 0,
             Call_SetInput 2 0 (EffectOutput 3)]"
    unfolding facts log by auto
  from id dev flags reliable_D_ok depth ranked closed app second res[unfolded facts] log re
  show ?thesis by blast
qed

section \<open>The first realization\<close>

text \<open>
  Claim C10. The constructor leaves the stored device identity null, the properties
  unchanged and the inputs changed. On a node as constructed, whatever was written to its
  two vectors since and whatever their flags are, the first \<open>GetD2DImage\<close> with any context
  (its identity resolved) takes the identity-mismatch branch and \<open>wasRecreated\<close> is true.
  The call returns an image under the conditions of the previous section. Whenever it
  returns an image, that is the output of the resource created in this call, and the
  device calls of the call are exactly \<open>CreateEffect\<close>, one \<open>SetValue\<close> for each property
  slot, \<open>SetInputCount\<close>, and for each input slot the calls of the realization of its node
  with the same context followed by \<open>SetInput\<close> with the image it returned: the properties
  are applied also when their changed flag is clear.
\<close>

theorem first_GetD2DImage_applies_everything:
  assumes ctor: "CanvasEffect_ctor effectId propertiesSize inputSize isInputSizeFixed factory_hr = Inr e"
    and node: "nodes w a = e\<lparr>m_properties := properties, m_inputs := inputs\<rparr>"
    and ok: "\<not> FAILED (dc_identity_hr ctx)"
  shows "m_previousDeviceIdentity e = None \<and>
         \<not> IsChanged (m_properties e) \<and> IsChanged (m_inputs e) \<and>
         fst (CheckDevice ctx a w) = Inr True \<and>
         (reliable D \<longrightarrow> a \<in> S \<longrightarrow> rank a < n \<longrightarrow> upstream_ranked rank w \<longrightarrow>
          upstream_closed S w \<longrightarrow> (\<forall>c\<in>S. applicable (nodes w c)) \<longrightarrow>
            (\<exists>img w'. GetD2DImage D n a (Some ctx) w = Some (Inr img, w'))) \<and>
         (\<forall>m img w'. GetD2DImage D m a (Some ctx) w = Some (Inr img, w') \<longrightarrow>
            img = EffectOutput (next_effect w) \<and>
            (\<exists>tr calls. GetD2DImage_traced D m a (Some ctx) w = Some (Inr img, w', tr) \<and>
               d2d_log w' =
                 d2d_log w @ Call_CreateEffect (dc_ptr ctx) effectId (next_effect w) # calls \<and>
               reapplied ctx (next_effect w) (nodes w a) tr calls))"
proof -
  note e = CanvasEffect_ctor_Inr[OF ctor]
  have c1: "m_previousDeviceIdentity e = None" "\<not> IsChanged (m_properties e)"
    "IsChanged (m_inputs e)"
    by (simp_all add: e)
  have n: "m_previousDeviceIdentity (nodes w a) = None" "m_resource (nodes w a) = None"
    "m_effectId (nodes w a) = effectId"
    by (simp_all add: node e)
  then have differs: "m_previousDeviceIdentity (nodes w a) \<noteq> Some (dc_device ctx)" by simp
  have c2: "fst (CheckDevice ctx a w) = Inr True" using differs ok by (rule CheckDevice_differs)
  have succeeds: "\<exists>img w'. GetD2DImage D n a (Some ctx) w = Some (Inr img, w')"
    if "reliable D" "a \<in> S" "rank a < n" "upstream_ranked rank w" "upstream_closed S w"
      "\<forall>c\<in>S. applicable (nodes w c)"
    using GetD2DImage_succeeds[OF that(1) ok that(2-)] .
  have c3: "img = EffectOutput (next_effect w) \<and>
            (\<exists>tr calls. GetD2DImage_traced D m a (Some ctx) w = Some (Inr img, w', tr) \<and>
               d2d_log w' =
                 d2d_log w @ Call_CreateEffect (dc_ptr ctx) effectId (next_effect w) # calls \<and>
               reapplied ctx (next_effect w) (nodes w a) tr calls)"
    if "GetD2DImage D m a (Some ctx) w = Some (Inr img, w')" for m img w'
    using recreated_reapplies[OF differs that] unfolding n by auto
  from c1 c2 c3 succeeds show ?thesis by blast
qed

theorem first_GetD2DImage_applies_everything_witness:
  "CanvasEffect_ctor 5 1 1 True S_OK = Inr (projr (CanvasEffect_ctor 5 1 1 True S_OK)) \<and>
   nodes quiet_node 0 = (projr (CanvasEffect_ctor 5 1 1 True S_OK))
     \<lparr>m_properties := \<lparr>InternalVector = [Some (PropertyValue_UInt32 7)], IsChanged = False,
                        isFixedSize = True\<rparr>,
      m_inputs := \<lparr>InternalVector = [Some (ImageInput (Inr (BitmapImage 0)))], IsChanged = True,
                    isFixedSize = True\<rparr>\<rparr> \<and>
   m_previousDeviceIdentity (projr (CanvasEffect_ctor 5 1 1 True S_OK)) = None \<and>
   IsChanged (m_properties (projr (CanvasEffect_ctor 5 1 1 True S_OK))) = False \<and>
   IsChanged (m_properties (nodes quiet_node 0)) = False \<and>
   fst (CheckDevice dcA 0 quiet_node) = Inr True \<and>
   reliable D_ok \<and> rank_two_nodes 0 < 2 \<and>
   upstream_ranked rank_two_nodes quiet_node \<and> upstream_closed {0} quiet_node \<and>
   applicable (nodes quiet_node 0) \<and>
   GetD2DImage D_ok 2 0 (Some dcA) quiet_node =
     Some (Inr (EffectOutput 0), run D_ok 2 [Act_GetD2DImage 0 dcA] quiet_node) \<and>
   d2d_log (run D_ok 2 [Act_GetD2DImage 0 dcA] quiet_node) =
     [Call_CreateEffect 100 5 0, Call_SetValue 0 0 (Value_UINT32 7),
      Call_SetInputCount 0 1, Call_SetInput 0 0 (BitmapImage 0)] \<and>
   (\<exists>tr. GetD2DImage_traced D_ok 2 0 (Some dcA) quiet_node =
            Some (Inr (EffectOutput 0), run D_ok 2 [Act_GetD2DImage 0 dcA] quiet_node, tr) \<and>
          reapplied dcA 0 (nodes quiet_node 0) tr
            [Call_SetValue 0 0 (Value_UINT32 7), Call_SetInputCount 0 1,
             Call_SetInput 0 0 (BitmapImage 0)])"
proof -
  let ?e = "projr (CanvasEffect_ctor 5 1 1 True S_OK)"
  let ?w' = "run D_ok 2 [Act_GetD2DImage 0 dcA] quiet_node"
  have ctor: "CanvasEffect_ctor 5 1 1 True S_OK = Inr ?e"
    by (simp add: CanvasEffect_ctor_def ThrowIfFailed_def FAILED_codes)
  have node: "nodes quiet_node 0 = ?e
     \<lparr>m_properties := \<lparr>InternalVector = [Some (PropertyValue_UInt32 7)], IsChanged = False,
                        isFixedSize = True\<rparr>,
      m_inputs := \<lparr>InternalVector = [Some (ImageInput (Inr (BitmapImage 0)))], IsChanged = True,
                    isFixedSize = True\<rparr>\<rparr>"
    by code_simp
  have quiet: "IsChanged (m_properties (nodes quiet_node 0)) = False" by code_simp
  have ok: "\<not> FAILED (dc_identity_hr dcA)" by code_simp
  have app: "applicable (nodes quiet_node 0)" by code_simp
  then have apps: "\<forall>c\<in>{0}. applicable (nodes quiet_node c)" by simp
  have depth: "rank_two_nodes 0 < 2" by (simp add: rank_two_nodes_def)
  have facts: "next_effect quiet_node = 0" "d2d_log quiet_node = []" "dc_ptr dcA = 100"
    by code_simp+
  have call: "GetD2DImage D_ok 2 0 (Some dcA) quiet_node = Some (Inr (EffectOutput 0), ?w')"
    by (rule GetD2DImage_as_run) code_simp
  have log: "d2d_log ?w' =
     [Call_CreateEffect 100 5 0, Call_SetValue 0 0 (Value_UINT32 7),
      Call_SetInputCount 0 1, Call_SetInput 0 0 (BitmapImage 0)]" by code_simp
  note t = first_GetD2DImage_applies_everything[OF ctor node ok,
      where D = D_ok and S = "{0}" and rank = rank_two_nodes and n = 2]
  from t have c1: "m_previousDeviceIdentity ?e = None" "IsChanged (m_properties ?e) = False"
    "fst (CheckDevice dcA 0 quiet_node) = Inr True" by blast+
  from t reliable_D_ok depth upstream_quiet_node(1)[of rank_two_nodes] upstream_quiet_node(2)[of "{0}"] apps
  have "\<exists>img w'. GetD2DImage D_ok 2 0 (Some dcA) quiet_node = Some (Inr img, w')" by blast
  from t call
  have "\<exists>tr calls. GetD2DImage_traced D_ok 2 0 (Some dcA) quiet_node = Some (Inr (EffectOutput 0), ?w', tr) \<and>
         d2d_log ?w' =
           d2d_log quiet_node @ Call_CreateEffect (dc_ptr dcA) 5 (next_effect quiet_node) # calls \<and>
         reapplied dcA (next_effect quiet_node) (nodes quiet_node 0) tr calls"
    by blast
  then have c2: "\<exists>tr. GetD2DImage_traced D_ok 2 0 (Some dcA) quiet_node =
            Some (Inr (EffectOutput 0), ?w', tr) \<and>
          reapplied dcA 0 (nodes quiet_node 0) tr
            [Call_SetValue 0 0 (Value_UINT32 7), Call_SetInputCount 0 1,
             Call_SetInput 0 0 (BitmapImage 0)]"
    unfolding facts log by auto
  from ctor node c1 quiet reliable_D_ok depth upstream_quiet_node(1)[of rank_two_nodes] upstream_quiet_node(2)[of "{0}"] app
    call log c2
  show ?thesis by blast
qed

section \<open>One upstream node\<close>

text \<open>
  Claim C7. Node \<open>a\<close> has one input slot, which refers to the node \<open>b\<close>; the graph is
  acyclic and the depth allowed for nested calls is at least the rank of \<open>a\<close>; the
  input-apply step runs on resource \<open>r\<close>. Then \<open>GetD2DImage\<close> on \<open>a\<close> returns, and among
  the calls of \<open>GetD2DImage\<close> that returned during it exactly one was made on \<open>b\<close>: it was
  given the context given to \<open>a\<close>, it started right after \<open>SetInputCount\<close> set the input
  count of \<open>r\<close> to 1, and its device calls follow that call in the log. If it threw, the
  call on \<open>a\<close> throws the same and nothing more is done; if it returned an image, that
  image is bound as input 0 of \<open>r\<close> by the next device call, the inputs-changed flag is
  cleared and the image of \<open>r\<close> is queried and returned.
\<close>

theorem single_upstream_input_realized_once:
  assumes prep: "Prepare D ctx a w = (Inr wasRecreated, w1)"
    and runs: "wasRecreated \<or> IsChanged (m_inputs (nodes w a))"
    and res: "m_resource (nodes w1 a) = Some r"
    and one: "InternalVector (m_inputs (nodes w a)) = [Some (EffectInput b)]"
    and ranked: "upstream_ranked rank w"
    and depth: "rank a \<le> n"
  shows "\<exists>resB wB inner out w' tr.
     GetD2DImage D n b (Some ctx) (emit (Call_SetInputCount r 1) w1) = Some (resB, wB) \<and>
     d2d_log wB = d2d_log w1 @ Call_SetInputCount r 1 # inner \<and>
     GetD2DImage D (Suc n) a (Some ctx) w = Some (out, w') \<and>
     GetD2DImage_traced D (Suc n) a (Some ctx) w = Some (out, w', tr) \<and>
     filter (\<lambda>x. rz_node x = b) tr =
       [\<lparr>rz_node = b, rz_context = Some ctx, rz_result = resB, rz_calls = inner\<rparr>] \<and>
     (case resB of
        Inl e \<Rightarrow> out = Inl e \<and> w' = wB
      | Inr img \<Rightarrow>
          (out, w') =
            As_ID2D1Image D a
              (put a (\<lambda>e. e\<lparr>m_inputs := SetChanged False (m_inputs e)\<rparr>)
                 (emit (Call_SetInput r 0 img) wB)))"
proof -
  let ?w1 = "emit (Call_SetInputCount r 1) w1"
  note ps = Prepare_success[OF prep]
  have id1: "m_previousDeviceIdentity (nodes ?w1 a) = Some (dc_device ctx)"
    using ps(3) by (simp add: world_simps)
  have res1: "m_resource (nodes ?w1 a) = Some r" using res by (simp add: world_simps)
  have below: "rank b < rank a" using ranked one by (auto simp: upstream_ranked_def)
  then have ab: "a \<noteq> b" by auto
  have adv1: "advances (dc_device ctx) w ?w1"
    using advances_Prepare[OF prep] advances_emit by (rule advances_trans)
  have ranked1: "upstream_ranked rank ?w1" using upstream_ranked_advances[OF adv1] ranked by simp
  from below depth have "rank b < n" by simp
  from GetD2DImage_returns[OF ranked1 this] obtain resB wB where
    callB: "GetD2DImage D n b (Some ctx) ?w1 = Some (resB, wB)" by force
  from Some_traced(1)[OF callB] obtain trB where
    tcallB: "GetD2DImage_traced D n b (Some ctx) ?w1 = Some (resB, wB, trB)" by blast
  have adv: "advances (dc_device ctx) ?w1 wB" using callB by (rule advances_GetD2DImage)
  have resB': "m_resource (nodes wB a) = Some r"
    using advances_bound(2)[OF adv id1 res1] .
  from advances_log[OF adv] obtain inner where
    inner: "d2d_log wB = d2d_log ?w1 @ inner" by blast
  then have logB: "d2d_log wB = d2d_log w1 @ Call_SetInputCount r 1 # inner"
    by (simp add: world_simps)
  have onceB: "filter (\<lambda>x. rz_node x = b) trB =
       [\<lparr>rz_node = b, rz_context = Some ctx, rz_result = resB, rz_calls = inner\<rparr>]"
    using GetD2DImage_traced_once[OF tcallB ranked1] inner by simp
  let ?out = "case resB of
        Inl e \<Rightarrow> (Inl e, wB)
      | Inr img \<Rightarrow>
            As_ID2D1Image D a
              (put a (\<lambda>e. e\<lparr>m_inputs := SetChanged False (m_inputs e)\<rparr>)
                 (emit (Call_SetInput r 0 img) wB))"
  have loop: "SetInputs_traced D n a ctx 0 [Some (EffectInput b)] ?w1 =
     (case resB of Inl e \<Rightarrow> Some (Some e, wB, trB)
      | Inr img \<Rightarrow> Some (None, emit (Call_SetInput r 0 img) wB, trB))"
    using tcallB resB'
    by (cases resB)
       (simp_all add: ThrowIfFailed_def FAILED_codes code_noteq[symmetric]
          del: GetD2DImage_traced.simps)
  have tcall: "GetD2DImage_traced D (Suc n) a (Some ctx) w =
     Some (returned a (Some ctx) w trB ?out)"
    using GetD2DImage_traced_inputs_step[OF prep runs res, of n] loop
    by (cases resB) (simp_all add: one)
  obtain out w' where out: "?out = (out, w')" by (cases ?out)
  let ?tr = "trB @ [\<lparr>rz_node = a, rz_context = Some ctx, rz_result = out,
                      rz_calls = drop (length (d2d_log w)) (d2d_log w')\<rparr>]"
  have tcall': "GetD2DImage_traced D (Suc n) a (Some ctx) w = Some (out, w', ?tr)"
    using tcall out by (simp add: returned_def)
  have call': "GetD2DImage D (Suc n) a (Some ctx) w = Some (out, w')"
    using tcall' by (rule traced_Some)
  have once: "filter (\<lambda>x. rz_node x = b) ?tr =
       [\<lparr>rz_node = b, rz_context = Some ctx, rz_result = resB, rz_calls = inner\<rparr>]"
    using onceB ab by simp
  have outcome: "(case resB of
        Inl e \<Rightarrow> out = Inl e \<and> w' = wB
      | Inr img \<Rightarrow>
          (out, w') =
            As_ID2D1Image D a
              (put a (\<lambda>e. e\<lparr>m_inputs := SetChanged False (m_inputs e)\<rparr>)
                 (emit (Call_SetInput r 0 img) wB)))"
    using out by (cases resB) auto
  from callB logB call' tcall' once outcome show ?thesis by blast
qed

theorem single_upstream_input_realized_once_witness:
  "Prepare D_ok dcA 0 two_nodes = (Inr True, snd (Prepare D_ok dcA 0 two_nodes)) \<and>
   m_resource (nodes (snd (Prepare D_ok dcA 0 two_nodes)) 0) = Some 0 \<and>
   InternalVector (m_inputs (nodes two_nodes 0)) = [Some (EffectInput 1)] \<and>
   upstream_ranked rank_two_nodes two_nodes \<and> rank_two_nodes 0 \<le> 1 \<and>
   (\<exists>wB w' tr.
      GetD2DImage D_ok 1 1 (Some dcA)
        (emit (Call_SetInputCount 0 1) (snd (Prepare D_ok dcA 0 two_nodes))) =
        Some (Inr (EffectOutput 1), wB) \<and>
      d2d_log wB = d2d_log (snd (Prepare D_ok dcA 0 two_nodes)) @
        [Call_SetInputCount 0 1,
         Call_CreateEffect 100 6 1, Call_SetValue 1 0 (Value_FLOAT 3), Call_SetInputCount 1 0] \<and>
      GetD2DImage D_ok (Suc 1) 0 (Some dcA) two_nodes = Some (Inr (EffectOutput 0), w') \<and>
      GetD2DImage_traced D_ok (Suc 1) 0 (Some dcA) two_nodes = Some (Inr (EffectOutput 0), w', tr) \<and>
      filter (\<lambda>x. rz_node x = 1) tr =
        [\<lparr>rz_node = 1, rz_context = Some dcA, rz_result = Inr (EffectOutput 1),
          rz_calls = [Call_CreateEffect 100 6 1, Call_SetValue 1 0 (Value_FLOAT 3),
                      Call_SetInputCount 1 0]\<rparr>] \<and>
      d2d_log w' =
        [Call_CreateEffect 100 5 0, Call_SetValue 0 0 (Value_UINT32 7),
         Call_SetInputCount 0 1,
         Call_CreateEffect 100 6 1, Call_SetValue 1 0 (Value_FLOAT 3), Call_SetInputCount 1 0,
         Call_SetInput 0 0 (EffectOutput 1)])"
proof -
  let ?w1 = "snd (Prepare D_ok dcA 0 two_nodes)"
  let ?wB = "run D_ok 1 [Act_GetD2DImage 1 dcA] (emit (Call_SetInputCount 0 1) ?w1)"
  let ?w' = "run D_ok (Suc 1) [Act_GetD2DImage 0 dcA] two_nodes"
  have f1: "fst (Prepare D_ok dcA 0 two_nodes) = Inr True" by code_simp
  have prep: "Prepare D_ok dcA 0 two_nodes = (Inr True, ?w1)" using f1 by (simp add: prod_eq_iff)
  have res: "m_resource (nodes ?w1 0) = Some 0" by code_simp
  have one: "InternalVector (m_inputs (nodes two_nodes 0)) = [Some (EffectInput 1)]" by code_simp
  have depth: "rank_two_nodes 0 \<le> 1" by (simp add: rank_two_nodes_def)
  have callB: "GetD2DImage D_ok 1 1 (Some dcA) (emit (Call_SetInputCount 0 1) ?w1) =
      Some (Inr (EffectOutput 1), ?wB)"
    by (rule GetD2DImage_as_run) code_simp
  have logB: "d2d_log ?wB = d2d_log ?w1 @
        [Call_SetInputCount 0 1,
         Call_CreateEffect 100 6 1, Call_SetValue 1 0 (Value_FLOAT 3), Call_SetInputCount 1 0]"
    by code_simp
  have callA: "GetD2DImage D_ok (Suc 1) 0 (Some dcA) two_nodes = Some (Inr (EffectOutput 0), ?w')"
    by (rule GetD2DImage_as_run) code_simp
  have logA: "d2d_log ?w' =
        [Call_CreateEffect 100 5 0, Call_SetValue 0 0 (Value_UINT32 7),
         Call_SetInputCount 0 1,
         Call_CreateEffect 100 6 1, Call_SetValue 1 0 (Value_FLOAT 3), Call_SetInputCount 1 0,
         Call_SetInput 0 0 (EffectOutput 1)]" by code_simp
  from single_upstream_input_realized_once[OF prep _ res one upstream_two_nodes(1) depth]
  obtain resB wB inner out w' tr where
    t: "GetD2DImage D_ok 1 1 (Some dcA) (emit (Call_SetInputCount 0 1) ?w1) = Some (resB, wB)"
       "d2d_log wB = d2d_log ?w1 @ Call_SetInputCount 0 1 # inner"
       "GetD2DImage D_ok (Suc 1) 0 (Some dcA) two_nodes = Some (out, w')"
       "GetD2DImage_traced D_ok (Suc 1) 0 (Some dcA) two_nodes = Some (out, w', tr)"
       "filter (\<lambda>x. rz_node x = 1) tr =
          [\<lparr>rz_node = 1, rz_context = Some dcA, rz_result = resB, rz_calls = inner\<rparr>]"
    by auto
  from t(1) callB have B: "resB = Inr (EffectOutput 1)" "wB = ?wB" by simp_all
  from t(2) logB B have inner: "inner = [Call_CreateEffect 100 6 1, Call_SetValue 1 0 (Value_FLOAT 3),
         Call_SetInputCount 1 0]" by simp
  from t(3) callA have A: "out = Inr (EffectOutput 0)" "w' = ?w'" by simp_all
  from prep res one upstream_two_nodes(1) depth callB logB callA logA t(4,5) B inner A
  show ?thesis by blast
qed

section \<open>An empty input slot\<close>




end
